(* ===== verification/Prelude.thy ===== *)
theory Prelude
  imports Complex_Main "HOL-Library.AList" "HOL-Library.Multiset"
begin

text \<open>
  Shared vocabulary of the development: the Python exceptions the program raises or
  lets escape, the names of the model's basic types, the collections of facts the
  component theories feed to the simplifier, and generic lemmas on folds, association
  lists and strings that several components use.
\<close>

section \<open>Types and exceptions\<close>

text \<open>
  Durations are Python floats obtained as differences of \<open>time.time()\<close> readings;
  they are modelled as reals (rounding of floating point is not modelled).
  Label values are the tuple of strings \<open>prometheus_client\<close> keys a child metric by.
\<close>

type_synonym seconds = real
type_synonym label_values = "string list"

text \<open>
  The exceptions that occur in the program: \<open>RuntimeError\<close> raised by
  \<open>mocked_call\<close>, \<open>ValueError\<close> from \<open>float()\<close>, \<open>ast.literal_eval\<close> and the
  metrics library, \<open>SyntaxError\<close> from \<open>ast.literal_eval\<close>, \<open>OverflowError\<close>
  from \<open>time.sleep\<close> on an infinite duration. Each carries its message.
\<close>

datatype py_exc =
    RuntimeError string
  | ValueError string
  | SyntaxError string
  | OverflowError string

named_theorems obs_simps "equations of the observation operations on metric state"
named_theorems wf_simps "unfolding rules of the well-formedness invariants"

section \<open>Folds of commuting operations\<close>

text \<open>
  The observation operations of the metrics library commute; a fold of commuting
  functions depends only on the multiset of its arguments. This is the fact behind
  ``no lost updates, whatever the interleaving''.
\<close>

lemma fold_commuting_mset:
  assumes "\<And>x y. f x \<circ> f y = f y \<circ> f x"
    and "mset xs = mset ys"
  shows "fold f xs = fold f ys"
  using assms by (intro fold_multiset_equiv) auto

lemma fold_commuting_shuffles:
  assumes "\<And>x y. f x \<circ> f y = f y \<circ> f x"
    and "zs \<in> shuffles xs ys"
  shows "fold f zs = fold f (xs @ ys)"
proof (rule fold_commuting_mset [OF assms(1)])
  from assms(2) show "mset zs = mset (xs @ ys)"
    by (simp add: mset_shuffles)
qed

section \<open>Association lists\<close>

text \<open>
  Python dictionaries keep insertion order; an association list updated with
  \<open>AList.update\<close> (in place when the key is present, appended otherwise) models one.
  Its lookup view is \<open>map_of\<close>.
\<close>

lemmas alist_simps [simp] = AList.update_conv' AList.dom_update

lemma map_of_fold_update:
  "map_of (fold (\<lambda>(k, v) al. AList.update k v al) kvs al) = map_of al ++ map_of (rev kvs)"
  by (induction kvs arbitrary: al) (auto simp: map_add_def fun_eq_iff split: option.splits)

lemma in_set_map_entry:
  "(k', x) \<in> set (AList.map_entry k g al) \<Longrightarrow> \<exists>y. (k', y) \<in> set al \<and> (x = y \<or> x = g y)"
  by (induction al) (auto split: if_splits)

section \<open>Strings\<close>

text \<open>Decimal rendering of a natural number, as Python's \<open>str()\<close> on an \<open>int\<close>.\<close>

fun decimal_digits :: "nat \<Rightarrow> string" where
  "decimal_digits n =
     (if n < 10 then [char_of (48 + n)]
      else decimal_digits (n div 10) @ [char_of (48 + n mod 10)])"

declare decimal_digits.simps [simp del]

lemma decimal_digits_nonempty: "decimal_digits n \<noteq> []"
  by (subst decimal_digits.simps) simp

lemma append_suffix_neq:
  "ys \<noteq> zs \<Longrightarrow> xs @ ys \<noteq> xs @ zs"
  by simp

end
