(* ===== verification/Prometheus.thy ===== *)
theory Prometheus
  imports Prelude
begin

text \<open>
  The part of \<open>prometheus_client\<close> the program relies on: \<open>Summary\<close> and
  \<open>Histogram\<close> metric families with labels, their per-label-tuple children, the
  collector registry that rejects duplicated time series, and the samples a
  family exposes. The library is not part of the repository; the model follows its
  documented behaviour (classic metric-name syntax, no UTF-8 names). A family is an
  object shared between the registry and the program's \<open>MetricCollector\<close>: the
  registry is a list of families and the collector holds positions in it.
\<close>

section \<open>Bucket bounds\<close>

text \<open>Histogram upper bounds: finite floats, and the \<open>+Inf\<close> bound the library appends.\<close>

datatype bound = Bound real | PosInf

fun le_bound :: "real \<Rightarrow> bound \<Rightarrow> bool" where
  "le_bound x (Bound b) = (x \<le> b)"
| "le_bound x PosInf = True"

fun bound_le :: "bound \<Rightarrow> bound \<Rightarrow> bool" where
  "bound_le (Bound a) (Bound b) = (a \<le> b)"
| "bound_le _ PosInf = True"
| "bound_le PosInf (Bound _) = False"

section \<open>Children: the aggregate of one label tuple\<close>

datatype kind = KSummary | KHistogram "bound list"

text \<open>
  A \<open>Summary\<close> child keeps \<open>_count\<close> and \<open>_sum\<close>; a \<open>Histogram\<close> child keeps one
  non-cumulative counter per bound and \<open>_sum\<close>.
\<close>

datatype child = SummaryChild nat real | HistogramChild "nat list" real

fun new_child :: "kind \<Rightarrow> child" where
  "new_child KSummary = SummaryChild 0 0"
| "new_child (KHistogram bs) = HistogramChild (replicate (length bs) 0) 0"

text \<open>
  \<open>Histogram.observe\<close>: increment the counter of the first bound the value does not
  exceed, and stop (\<open>break\<close>).
\<close>

fun observe_buckets :: "real \<Rightarrow> bound list \<Rightarrow> nat list \<Rightarrow> nat list" where
  "observe_buckets v (b # bs) (c # cs) =
     (if le_bound v b then Suc c # cs else c # observe_buckets v bs cs)"
| "observe_buckets v _ cs = cs"

fun observe_child :: "kind \<Rightarrow> seconds \<Rightarrow> child \<Rightarrow> child" where
  "observe_child KSummary v (SummaryChild n s) = SummaryChild (Suc n) (s + v)"
| "observe_child (KHistogram bs) v (HistogramChild cs s) =
     HistogramChild (observe_buckets v bs cs) (s + v)"
| "observe_child _ _ c = c"

text \<open>The cumulative bucket counts the exposition reports (\<open>acc += value\<close>).\<close>

fun cumulate :: "nat \<Rightarrow> nat list \<Rightarrow> nat list" where
  "cumulate acc [] = []"
| "cumulate acc (c # cs) = (acc + c) # cumulate (acc + c) cs"

section \<open>Metric families\<close>

record family =
  fam_name :: string
  fam_doc :: string
  fam_labelnames :: "string list"
  fam_kind :: kind
  fam_children :: "(label_values \<times> child) list"

text \<open>Label values as passed to \<open>labels(**kwargs)\<close>; the library applies \<open>str()\<close>.\<close>

datatype label_arg = LStr string | LInt nat

fun py_str :: "label_arg \<Rightarrow> string" where
  "py_str (LStr s) = s"
| "py_str (LInt n) = decimal_digits n"

text \<open>
  \<open>labels(**kwargs)\<close>: the keyword names must be exactly the label names; the values
  are taken in label-name order. A missing child is created (get-or-insert under the
  family's lock).
\<close>

definition labels :: "family \<Rightarrow> (string \<times> label_arg) list \<Rightarrow> py_exc + label_values" where
  "labels f kw =
     (if fam_labelnames f = [] then Inl (ValueError ''No label names were set'')
      else if mset (map fst kw) \<noteq> mset (fam_labelnames f)
        then Inl (ValueError ''Incorrect label names'')
      else Inr (map (\<lambda>l. case map_of kw l of Some v \<Rightarrow> py_str v | None \<Rightarrow> []) (fam_labelnames f)))"

definition get_or_create_child :: "label_values \<Rightarrow> family \<Rightarrow> family" where
  "get_or_create_child lv f =
     (if lv \<in> fst ` set (fam_children f) then f
      else f\<lparr>fam_children := fam_children f @ [(lv, new_child (fam_kind f))]\<rparr>)"

text \<open>\<open>child.observe(amount)\<close> on the child of a label tuple.\<close>

definition observe_labelled :: "label_values \<Rightarrow> seconds \<Rightarrow> family \<Rightarrow> family" where
  "observe_labelled lv v f =
     (let g = get_or_create_child lv f
      in g\<lparr>fam_children := AList.map_entry lv (observe_child (fam_kind g) v) (fam_children g)\<rparr>)"

text \<open>\<open>metric.labels(**kw).observe(v)\<close>, the call the collector makes.\<close>

definition labels_observe ::
  "(string \<times> label_arg) list \<Rightarrow> seconds \<Rightarrow> family \<Rightarrow> py_exc + family" where
  "labels_observe kw v f =
     (case labels f kw of
        Inl e \<Rightarrow> Inl e
      | Inr lv \<Rightarrow> Inr (observe_labelled lv v f))"

section \<open>What a child exposes\<close>

text \<open>
  The values the exposition reports for a child: the cumulative bucket counts (none
  for a summary), \<open>_count\<close> and \<open>_sum\<close>. The multi-process collector reports a
  histogram's \<open>_count\<close> as the accumulated bucket total.
\<close>

datatype stats = Stats "nat list" nat real

fun child_stats :: "child \<Rightarrow> stats" where
  "child_stats (SummaryChild n s) = Stats [] n s"
| "child_stats (HistogramChild cs s) = Stats (cumulate 0 cs) (sum_list cs) s"

text \<open>
  The contract of a child, stated on the list of values observed into it: bucket
  \<open>i\<close> counts the observations not above bound \<open>i\<close>, \<open>_count\<close> counts all
  observations, \<open>_sum\<close> adds them.
\<close>

definition hist_counts :: "bound list \<Rightarrow> seconds list \<Rightarrow> nat list" where
  "hist_counts bs xs = map (\<lambda>b. length (filter (\<lambda>x. le_bound x b) xs)) bs"

fun spec_stats :: "kind \<Rightarrow> seconds list \<Rightarrow> stats" where
  "spec_stats KSummary xs = Stats [] (length xs) (sum_list xs)"
| "spec_stats (KHistogram bs) xs = Stats (hist_counts bs xs) (length xs) (sum_list xs)"

text \<open>
  The bounds the library accepts: sorted, ending in \<open>+Inf\<close> (which
  \<open>_prepare_buckets\<close> appends).
\<close>

fun kind_ok :: "kind \<Rightarrow> bool" where
  "kind_ok KSummary = True"
| "kind_ok (KHistogram bs) = (sorted_wrt bound_le bs \<and> bs \<noteq> [] \<and> last bs = PosInf)"

section \<open>Constructing a metric and registering it\<close>

text \<open>
  Character classes of the library's name patterns: metric names match
  \<open>^[a-zA-Z_:][a-zA-Z0-9_:]*$\<close>, label names \<open>^[a-zA-Z_][a-zA-Z0-9_]*$\<close>. Python's
  \<open>$\<close> also matches before one final newline.
\<close>

definition is_ascii_letter :: "char \<Rightarrow> bool" where
  "is_ascii_letter c \<longleftrightarrow>
     (let n = (of_char c :: nat) in (65 \<le> n \<and> n \<le> 90) \<or> (97 \<le> n \<and> n \<le> 122))"

definition is_ascii_digit :: "char \<Rightarrow> bool" where
  "is_ascii_digit c \<longleftrightarrow> (let n = (of_char c :: nat) in 48 \<le> n \<and> n \<le> 57)"

definition strip_final_newline :: "string \<Rightarrow> string" where
  "strip_final_newline s = (if s \<noteq> [] \<and> last s = CHR 0x0A then butlast s else s)"

definition metric_name_start :: "char \<Rightarrow> bool" where
  "metric_name_start c \<longleftrightarrow> is_ascii_letter c \<or> c = CHR ''_'' \<or> c = CHR '':''"

definition metric_name_char :: "char \<Rightarrow> bool" where
  "metric_name_char c \<longleftrightarrow> is_ascii_letter c \<or> is_ascii_digit c \<or> c = CHR ''_'' \<or> c = CHR '':''"

definition metric_name_ok :: "string \<Rightarrow> bool" where
  "metric_name_ok s \<longleftrightarrow>
     (case strip_final_newline s of
        [] \<Rightarrow> False
      | c # cs \<Rightarrow> metric_name_start c \<and> (\<forall>d \<in> set cs. metric_name_char d))"

definition label_name_ok :: "string \<Rightarrow> bool" where
  "label_name_ok s \<longleftrightarrow>
     (case strip_final_newline s of
        [] \<Rightarrow> False
      | c # cs \<Rightarrow> (is_ascii_letter c \<or> c = CHR ''_'') \<and>
          (\<forall>d \<in> set cs. is_ascii_letter d \<or> is_ascii_digit d \<or> d = CHR ''_''))"

text \<open>
  \<open>_validate_labelnames\<close>: each label name must match the pattern, must not start
  with \<open>__\<close> and must not be reserved by the metric type (\<open>quantile\<close> for a
  summary, \<open>le\<close> for a histogram).
\<close>

fun validate_labelnames :: "string list \<Rightarrow> string list \<Rightarrow> py_exc + unit" where
  "validate_labelnames reserved [] = Inr ()"
| "validate_labelnames reserved (l # ls) =
     (if \<not> label_name_ok l then Inl (ValueError (''Invalid label metric name: '' @ l))
      else if take 2 l = ''__'' then Inl (ValueError (''Reserved label metric name: '' @ l))
      else if l \<in> set reserved then Inl (ValueError (''Reserved label metric name: '' @ l))
      else validate_labelnames reserved ls)"

text \<open>\<open>Histogram._prepare_buckets\<close> for finite bucket bounds.\<close>

definition prepare_buckets :: "real list \<Rightarrow> py_exc + bound list" where
  "prepare_buckets bs =
     (if \<not> sorted bs then Inl (ValueError ''Buckets not in sorted order'')
      else let ubs = (if bs = [] then [] else map Bound bs @ [PosInf])
           in if length ubs < 2 then Inl (ValueError ''Must have at least two buckets'')
              else Inr ubs)"

type_synonym registry = "family list"

text \<open>
  \<open>CollectorRegistry._get_names\<close>: a family claims its name and its name with each
  sample suffix of its type; \<open>register\<close> refuses a family that claims a name already
  claimed.
\<close>

fun type_suffixes :: "kind \<Rightarrow> string list" where
  "type_suffixes KSummary = [''_sum'', ''_count'', ''_created'']"
| "type_suffixes (KHistogram _) = [''_bucket'', ''_sum'', ''_count'', ''_created'']"

definition family_names :: "family \<Rightarrow> string list" where
  "family_names f = fam_name f # map (\<lambda>sfx. fam_name f @ sfx) (type_suffixes (fam_kind f))"

definition registry_names :: "registry \<Rightarrow> string list" where
  "registry_names reg = concat (map family_names reg)"

definition register :: "family \<Rightarrow> registry \<Rightarrow> py_exc + registry" where
  "register f reg =
     (if set (family_names f) \<inter> set (registry_names reg) \<noteq> {}
      then Inl (ValueError ''Duplicated timeseries in CollectorRegistry'')
      else Inr (reg @ [f]))"

text \<open>
  \<open>MetricWrapperBase.__init__\<close>: validate the label names, then the metric name,
  then register the new, childless family in the default registry. The result is the
  family's position in the registry, the reference the caller keeps.
\<close>

definition metric_init ::
  "kind \<Rightarrow> string list \<Rightarrow> string \<Rightarrow> string \<Rightarrow> string list \<Rightarrow> registry \<Rightarrow> py_exc + nat \<times> registry" where
  "metric_init k reserved name doc lns reg =
     (case validate_labelnames reserved lns of
        Inl e \<Rightarrow> Inl e
      | Inr _ \<Rightarrow>
          if \<not> metric_name_ok name then Inl (ValueError (''Invalid metric name: '' @ name))
          else (case register \<lparr>fam_name = name, fam_doc = doc, fam_labelnames = lns,
                               fam_kind = k, fam_children = []\<rparr> reg of
                  Inl e \<Rightarrow> Inl e
                | Inr reg' \<Rightarrow> Inr (length reg, reg')))"

definition new_summary ::
  "string \<Rightarrow> string \<Rightarrow> string list \<Rightarrow> registry \<Rightarrow> py_exc + nat \<times> registry" where
  "new_summary name doc lns reg = metric_init KSummary [''quantile''] name doc lns reg"

definition new_histogram ::
  "string \<Rightarrow> string \<Rightarrow> string list \<Rightarrow> real list \<Rightarrow> registry \<Rightarrow> py_exc + nat \<times> registry" where
  "new_histogram name doc lns bs reg =
     (case prepare_buckets bs of
        Inl e \<Rightarrow> Inl e
      | Inr ubs \<Rightarrow> metric_init (KHistogram ubs) [''le''] name doc lns reg)"

section \<open>Samples\<close>

text \<open>
  A sample as the exposition reports it: name, labels, the \<open>le\<close> bound of a bucket
  sample, value. The textual rendering of numbers and the order of lines are not
  modelled.
\<close>

datatype sample = Sample string "(string \<times> string) list" "bound option" real

fun child_samples :: "family \<Rightarrow> label_values \<Rightarrow> child \<Rightarrow> sample list" where
  "child_samples f lv (SummaryChild n s) =
     [Sample (fam_name f @ ''_count'') (zip (fam_labelnames f) lv) None (real n),
      Sample (fam_name f @ ''_sum'') (zip (fam_labelnames f) lv) None s]"
| "child_samples f lv (HistogramChild cs s) =
     map (\<lambda>(b, c). Sample (fam_name f @ ''_bucket'') (zip (fam_labelnames f) lv) (Some b) (real c))
         (zip (case fam_kind f of KHistogram bs \<Rightarrow> bs | KSummary \<Rightarrow> []) (cumulate 0 cs)) @
     [Sample (fam_name f @ ''_count'') (zip (fam_labelnames f) lv) None (real (sum_list cs)),
      Sample (fam_name f @ ''_sum'') (zip (fam_labelnames f) lv) None s]"

definition family_samples :: "family \<Rightarrow> sample list" where
  "family_samples f = concat (map (\<lambda>(lv, c). child_samples f lv c) (fam_children f))"

text \<open>\<open>generate_latest(registry)\<close>: the families in registration order with their samples.\<close>

definition render :: "registry \<Rightarrow> (string \<times> sample list) list" where
  "render reg = map (\<lambda>f. (fam_name f, family_samples f)) reg"

section \<open>Well-formed families\<close>

fun child_fits :: "kind \<Rightarrow> child \<Rightarrow> bool" where
  "child_fits KSummary (SummaryChild _ _) = True"
| "child_fits (KHistogram bs) (HistogramChild cs _) = (length cs = length bs)"
| "child_fits _ _ = False"

text \<open>
  The invariant of a family: an accepted kind, distinct label names, one child per
  label tuple, each tuple as long as the label names and each child of the family's
  kind.
\<close>

definition family_wf :: "family \<Rightarrow> bool" where
  "family_wf f \<longleftrightarrow>
     kind_ok (fam_kind f) \<and> fam_labelnames f \<noteq> [] \<and> distinct (fam_labelnames f) \<and>
     distinct (map fst (fam_children f)) \<and>
     (\<forall>(lv, c) \<in> set (fam_children f).
        length lv = length (fam_labelnames f) \<and> child_fits (fam_kind f) c)"

section \<open>Metric names\<close>

lemmas name_class_defs =
  metric_name_char_def metric_name_start_def is_ascii_letter_def is_ascii_digit_def

lemma metric_name_start_char: "metric_name_start c \<Longrightarrow> metric_name_char c"
  by (auto simp: metric_name_start_def metric_name_char_def)

text \<open>
  Appending a suffix made of name characters and starting with a valid first
  character keeps a name valid exactly when the prefix is a valid start of a name.
\<close>

lemma metric_name_ok_append:
  assumes "suf \<noteq> []" and "last suf \<noteq> CHR 0x0A" and "metric_name_start (hd suf)"
    and "\<forall>d \<in> set suf. metric_name_char d"
  shows "metric_name_ok (p @ suf) \<longleftrightarrow>
           (p = [] \<or> metric_name_start (hd p)) \<and> (\<forall>d \<in> set p. metric_name_char d)"
proof -
  from assms(1,2) have strip: "strip_final_newline (p @ suf) = p @ suf"
    by (simp add: strip_final_newline_def)
  show ?thesis
  proof (cases p)
    case Nil
    with assms(1,3,4) strip show ?thesis
      by (cases suf) (auto simp: metric_name_ok_def)
  next
    case (Cons c cs)
    with assms(4) strip show ?thesis
      by (auto simp: metric_name_ok_def dest: metric_name_start_char)
  qed
qed

section \<open>Lemmas on buckets\<close>

lemma le_bound_trans: "le_bound x a \<Longrightarrow> bound_le a b \<Longrightarrow> le_bound x b"
  by (cases a; cases b) auto

lemma length_observe_buckets [simp]: "length (observe_buckets v bs cs) = length cs"
  by (induction v bs cs rule: observe_buckets.induct) auto

lemma length_cumulate [simp]: "length (cumulate a cs) = length cs"
  by (induction cs arbitrary: a) auto

lemma nth_cumulate:
  "i < length cs \<Longrightarrow> cumulate a cs ! i = a + sum_list (take (Suc i) cs)"
proof (induction cs arbitrary: a i)
  case Nil
  then show ?case by simp
next
  case (Cons c cs)
  then show ?case by (cases i) (auto simp: add.assoc)
qed

text \<open>
  One observation raises the running total up to bound \<open>i\<close> by one exactly when the
  value does not exceed that bound; this needs the bounds sorted, because the library
  increments only the first matching bucket.
\<close>

lemma take_observe_buckets:
  assumes "sorted_wrt bound_le bs" and "length cs = length bs" and "i < length bs"
  shows "sum_list (take (Suc i) (observe_buckets v bs cs)) =
           sum_list (take (Suc i) cs) + (if le_bound v (bs ! i) then 1 else 0)"
  using assms
proof (induction bs arbitrary: cs i)
  case Nil
  then show ?case by simp
next
  case (Cons b bs)
  then obtain c cs' where cs: "cs = c # cs'" and len: "length cs' = length bs"
    by (cases cs) auto
  from Cons.prems(1) have up: "\<forall>b' \<in> set bs. bound_le b b'" and srt: "sorted_wrt bound_le bs"
    by simp_all
  show ?case
  proof (cases "le_bound v b")
    case True
    have "le_bound v ((b # bs) ! i)"
      using True up Cons.prems(3) le_bound_trans by (cases i) auto
    with True cs show ?thesis by simp
  next
    case False
    show ?thesis
    proof (cases i)
      case 0
      with False cs show ?thesis by simp
    next
      case (Suc j)
      with Cons.prems(3) have "j < length bs" by simp
      from Cons.IH [OF srt len this] False cs Suc show ?thesis by simp
    qed
  qed
qed

lemma take_fold_observe_buckets:
  assumes "sorted_wrt bound_le bs" and "length cs = length bs" and "i < length bs"
  shows "sum_list (take (Suc i) (fold (\<lambda>v. observe_buckets v bs) xs cs)) =
           sum_list (take (Suc i) cs) + length (filter (\<lambda>x. le_bound x (bs ! i)) xs)"
  using assms(2)
proof (induction xs arbitrary: cs)
  case Nil
  then show ?case by simp
next
  case (Cons x xs)
  have "length (observe_buckets x bs cs) = length bs"
    using Cons.prems by simp
  from Cons.IH [OF this] take_observe_buckets [OF assms(1) Cons.prems assms(3), of x]
  show ?case by simp
qed

lemma fold_observe_histogram:
  "fold (observe_child (KHistogram bs)) xs (HistogramChild cs s) =
     HistogramChild (fold (\<lambda>v. observe_buckets v bs) xs cs) (s + sum_list xs)"
  by (induction xs arbitrary: cs s) (auto simp: add.assoc)

lemma fold_observe_summary:
  "fold (observe_child KSummary) xs (SummaryChild n s) =
     SummaryChild (n + length xs) (s + sum_list xs)"
  by (induction xs arbitrary: n s) (auto simp: add.assoc)

lemma cumulate_fold_observe_buckets:
  assumes "sorted_wrt bound_le bs"
  shows "cumulate 0 (fold (\<lambda>v. observe_buckets v bs) xs (replicate (length bs) 0)) =
           hist_counts bs xs"
proof (rule nth_equalityI)
  let ?cs = "fold (\<lambda>v. observe_buckets v bs) xs (replicate (length bs) 0)"
  have len: "length ?cs = length bs"
    by (induction xs rule: rev_induct) auto
  then show "length (cumulate 0 ?cs) = length (hist_counts bs xs)"
    by (simp add: hist_counts_def)
  fix i
  assume "i < length (cumulate 0 ?cs)"
  with len have i: "i < length bs" by simp
  have "sum_list (take (Suc i) (replicate (length bs) (0::nat))) = 0"
    by simp
  with take_fold_observe_buckets [OF assms _ i, of "replicate (length bs) 0" xs] len i
  show "cumulate 0 ?cs ! i = hist_counts bs xs ! i"
    by (simp add: nth_cumulate hist_counts_def)
qed


lemma sum_list_last_cumulate:
  assumes "cs \<noteq> []"
  shows "sum_list cs = last (cumulate 0 cs)"
proof -
  from assms have "cumulate 0 cs \<noteq> []" and i: "length cs - 1 < length cs"
    by (auto simp flip: length_greater_0_conv)
  then have "last (cumulate 0 cs) = sum_list (take (Suc (length cs - 1)) cs)"
    by (simp add: last_conv_nth nth_cumulate)
  also from i have "Suc (length cs - 1) = length cs"
    by simp
  finally show ?thesis by simp
qed

lemma last_hist_counts:
  "bs \<noteq> [] \<Longrightarrow> last bs = PosInf \<Longrightarrow> last (hist_counts bs xs) = length xs"
  by (simp add: hist_counts_def last_map)

lemma child_stats_fold_new:
  assumes "kind_ok k"
  shows "child_stats (fold (observe_child k) xs (new_child k)) = spec_stats k xs"
proof (cases k)
  case KSummary
  then show ?thesis by (simp add: fold_observe_summary)
next
  case (KHistogram bs)
  with assms have srt: "sorted_wrt bound_le bs" and ne: "bs \<noteq> []" and inf: "last bs = PosInf"
    by simp_all
  let ?cs = "fold (\<lambda>v. observe_buckets v bs) xs (replicate (length bs) 0)"
  have cum: "cumulate 0 ?cs = hist_counts bs xs"
    by (rule cumulate_fold_observe_buckets [OF srt])
  have "?cs \<noteq> []"
    using cum ne by (auto simp: hist_counts_def)
  then have "sum_list ?cs = length xs"
    using cum last_hist_counts [OF ne inf] by (simp add: sum_list_last_cumulate)
  with cum KHistogram show ?thesis
    by (simp add: fold_observe_histogram)
qed

section \<open>Observation: lookup view, invariant, commutation\<close>

lemma observe_buckets_commute:
  "observe_buckets v bs (observe_buckets w bs cs) = observe_buckets w bs (observe_buckets v bs cs)"
proof (induction bs arbitrary: cs)
  case Nil
  then show ?case by simp
next
  case (Cons b bs)
  then show ?case by (cases cs) auto
qed

lemma observe_child_commute:
  "observe_child k v (observe_child k w c) = observe_child k w (observe_child k v c)"
  by (cases k; cases c) (simp_all add: observe_buckets_commute algebra_simps)

lemma child_fits_new [simp]: "child_fits k (new_child k)"
  by (cases k) simp_all

lemma child_fits_observe [simp]: "child_fits k c \<Longrightarrow> child_fits k (observe_child k v c)"
  by (cases k; cases c) simp_all

lemma observe_labelled_meta [simp]:
  "fam_name (observe_labelled lv v f) = fam_name f"
  "fam_doc (observe_labelled lv v f) = fam_doc f"
  "fam_labelnames (observe_labelled lv v f) = fam_labelnames f"
  "fam_kind (observe_labelled lv v f) = fam_kind f"
  by (simp_all add: observe_labelled_def get_or_create_child_def Let_def)

text \<open>The lookup view of a family after an observation: the child of the tuple, created
  if it was missing, has absorbed the value; no other child changed.\<close>

lemma map_of_observe_labelled [obs_simps]:
  "map_of (fam_children (observe_labelled lv v f)) =
     (map_of (fam_children f))(lv \<mapsto> observe_child (fam_kind f) v
        (case map_of (fam_children f) lv of None \<Rightarrow> new_child (fam_kind f) | Some c \<Rightarrow> c))"
proof (cases "map_of (fam_children f) lv")
  case None
  then have "lv \<notin> fst ` set (fam_children f)"
    by (simp add: map_of_eq_None_iff)
  with None show ?thesis
    by (auto simp: observe_labelled_def get_or_create_child_def AList.map_of_map_entry
        fun_eq_iff map_add_def split: option.split)
next
  case (Some c)
  then have "lv \<in> fst ` set (fam_children f)"
    by (metis map_of_eq_None_iff option.distinct(1))
  with Some show ?thesis
    by (auto simp: observe_labelled_def get_or_create_child_def AList.map_of_map_entry fun_eq_iff)
qed

lemma keys_observe_labelled:
  "fst ` set (fam_children (observe_labelled lv v f)) = insert lv (fst ` set (fam_children f))"
  by (auto simp: observe_labelled_def get_or_create_child_def AList.dom_map_entry)

lemma family_wf_observe_labelled:
  assumes "family_wf f" and "length lv = length (fam_labelnames f)"
  shows "family_wf (observe_labelled lv v f)"
proof -
  let ?g = "get_or_create_child lv f"
  have g: "family_wf ?g"
    using assms by (auto simp: family_wf_def get_or_create_child_def)
  let ?upd = "AList.map_entry lv (observe_child (fam_kind ?g) v) (fam_children ?g)"
  have obs: "observe_labelled lv v f = ?g\<lparr>fam_children := ?upd\<rparr>"
    by (simp add: observe_labelled_def Let_def)
  have elems: "length lv' = length (fam_labelnames ?g) \<and> child_fits (fam_kind ?g) c"
    if "(lv', c) \<in> set ?upd" for lv' c
  proof -
    from in_set_map_entry [OF that] obtain y where y: "(lv', y) \<in> set (fam_children ?g)"
      and c: "c = y \<or> c = observe_child (fam_kind ?g) v y"
      by blast
    from g y have "length lv' = length (fam_labelnames ?g) \<and> child_fits (fam_kind ?g) y"
      by (auto simp: family_wf_def)
    with c show ?thesis by auto
  qed
  from g have "distinct (map fst ?upd)"
    by (simp add: family_wf_def AList.distinct_map_entry)
  with g elems show ?thesis
    by (auto simp: obs family_wf_def)
qed

lemma labels_length:
  "labels f kw = Inr lv \<Longrightarrow> length lv = length (fam_labelnames f)"
  by (auto simp: labels_def split: if_splits)

lemma family_wf_labels_observe [wf_simps]:
  "family_wf f \<Longrightarrow> labels_observe kw v f = Inr f' \<Longrightarrow> family_wf f'"
  by (auto simp: labels_observe_def family_wf_observe_labelled labels_length split: sum.splits)

end
