(* ===== verification/Collector.thy ===== *)
theory Collector
  imports Prometheus
begin

text \<open>
  The latency recorder of the service: class \<open>MetricCollector\<close> and
  \<open>get_collector\<close> (src/src/main.py lines 10-54). \<open>newCollector\<close> creates three
  metric families in the default registry (a summary of the service's own request
  latency, a histogram of the database latency, a summary of the audit service
  latency) and keeps references to them; the three \<open>observe_*\<close> methods record a
  duration under a label tuple. A collector is modelled by the registry positions of
  its three families, so that an observation through the collector is seen by
  everything that reads the registry.
\<close>

record metric_collector =
  mc_me :: nat
  mc_db :: nat
  mc_external :: nat

text \<open>\<open>str.replace(old, new)\<close> for one-character strings.\<close>

definition replace_char :: "char \<Rightarrow> char \<Rightarrow> string \<Rightarrow> string" where
  "replace_char a b s = map (\<lambda>c. if c = a then b else c) s"

definition db_buckets :: "real list" where
  "db_buckets = [0.1, 0.25, 0.5, 0.75, 0.90, 1.0, 2.5]"

text \<open>
  The three metrics \<open>newCollector\<close> creates, each registered by its constructor:
  \<open>about_me\<close>, the request latency of the service by path, method and status;
  \<open>about_db\<close>, the database latency histogram with its seven finite buckets;
  \<open>about_her\<close>, the latency of the audit service by status.
\<close>

definition about_me :: "string \<Rightarrow> string \<Rightarrow> registry \<Rightarrow> py_exc + nat \<times> registry" where
  "about_me prefix service_name =
     new_summary (prefix @ ''_duration_seconds'')
       (service_name @ '' latency request distribution'')
       [''path'', ''method'', ''status_code'']"

definition about_db :: "string \<Rightarrow> registry \<Rightarrow> py_exc + nat \<times> registry" where
  "about_db prefix =
     new_histogram (prefix @ ''_database_duration_seconds'')
       ''database latency request distribution''
       [''status_code'', ''sql_state''] db_buckets"

definition about_her :: "string \<Rightarrow> registry \<Rightarrow> py_exc + nat \<times> registry" where
  "about_her prefix =
     new_summary (prefix @ ''_audit_duration_seconds'')
       ''audit service latency request distribution''
       [''status_code'']"

text \<open>
  \<open>MetricCollector.newCollector(service_name)\<close>. A constructor that raises leaves
  the families created before it registered: the registry is returned on every path.
\<close>

definition newCollector ::
  "string \<Rightarrow> registry \<Rightarrow> (py_exc + metric_collector) \<times> registry" where
  "newCollector service_name reg =
     (let prefix = replace_char (CHR ''-'') (CHR ''_'') service_name in
      case about_me prefix service_name reg of
        Inl e \<Rightarrow> (Inl e, reg)
      | Inr (me, reg1) \<Rightarrow>
      (case about_db prefix reg1 of
        Inl e \<Rightarrow> (Inl e, reg1)
      | Inr (db, reg2) \<Rightarrow>
      (case about_her prefix reg2 of
        Inl e \<Rightarrow> (Inl e, reg2)
      | Inr (ext, reg3) \<Rightarrow>
          (Inr \<lparr>mc_me = me, mc_db = db, mc_external = ext\<rparr>, reg3))))"

definition get_collector :: "string \<Rightarrow> registry \<Rightarrow> (py_exc + metric_collector) \<times> registry" where
  "get_collector name reg = newCollector name reg"

text \<open>
  An operation on the family a reference designates. A reference held by the
  collector always designates a registered family (\<open>collector_wf\<close> below); the
  guard only makes the function total.
\<close>

definition update_family ::
  "nat \<Rightarrow> (family \<Rightarrow> py_exc + family) \<Rightarrow> registry \<Rightarrow> py_exc + registry" where
  "update_family i g reg =
     (if i < length reg
      then (case g (reg ! i) of Inl e \<Rightarrow> Inl e | Inr f' \<Rightarrow> Inr (reg[i := f']))
      else Inr reg)"

definition observe_myself ::
  "metric_collector \<Rightarrow> string \<Rightarrow> string \<Rightarrow> nat \<Rightarrow> seconds \<Rightarrow> registry \<Rightarrow> py_exc + registry" where
  "observe_myself c path method status_code duration =
     update_family (mc_me c)
       (labels_observe [(''path'', LStr path), (''method'', LStr method),
                        (''status_code'', LInt status_code)] duration)"

definition observe_db ::
  "metric_collector \<Rightarrow> string \<Rightarrow> string \<Rightarrow> seconds \<Rightarrow> registry \<Rightarrow> py_exc + registry" where
  "observe_db c status_code sql_state duration =
     update_family (mc_db c)
       (labels_observe [(''status_code'', LStr status_code), (''sql_state'', LStr sql_state)] duration)"

definition observe_external ::
  "metric_collector \<Rightarrow> string \<Rightarrow> seconds \<Rightarrow> registry \<Rightarrow> py_exc + registry" where
  "observe_external c status_code duration =
     update_family (mc_external c) (labels_observe [(''status_code'', LStr status_code)] duration)"

text \<open>\<open>get_latest\<close>: \<open>generate_latest()\<close> of the default registry (unused by the routes).\<close>

definition get_latest :: "registry \<Rightarrow> (string \<times> sample list) list" where
  "get_latest reg = render reg"

section \<open>Observation events\<close>

text \<open>
  The observations a request makes, as values: one per call of an \<open>observe_*\<close>
  method. A run of observations stops at the first exception, as the sequential
  code would. Each observation is atomic (the library updates a child under its
  lock), so concurrent requests act on the registry as an interleaving of their
  observation lists.
\<close>

datatype obs_event =
    ObsMyself string string nat seconds
  | ObsDb string string seconds
  | ObsExternal string seconds

fun apply_obs :: "metric_collector \<Rightarrow> obs_event \<Rightarrow> registry \<Rightarrow> py_exc + registry" where
  "apply_obs c (ObsMyself p m sc d) = observe_myself c p m sc d"
| "apply_obs c (ObsDb sc ss d) = observe_db c sc ss d"
| "apply_obs c (ObsExternal sc d) = observe_external c sc d"

fun apply_obs_list :: "metric_collector \<Rightarrow> obs_event list \<Rightarrow> registry \<Rightarrow> py_exc + registry" where
  "apply_obs_list c [] reg = Inr reg"
| "apply_obs_list c (e # es) reg =
     (case apply_obs c e reg of Inl x \<Rightarrow> Inl x | Inr reg' \<Rightarrow> apply_obs_list c es reg')"

text \<open>Where an event lands: the family position, the label tuple and the duration.\<close>

fun obs_target :: "metric_collector \<Rightarrow> obs_event \<Rightarrow> nat \<times> label_values \<times> seconds" where
  "obs_target c (ObsMyself p m sc d) = (mc_me c, [p, m, decimal_digits sc], d)"
| "obs_target c (ObsDb sc ss d) = (mc_db c, [sc, ss], d)"
| "obs_target c (ObsExternal sc d) = (mc_external c, [sc], d)"

definition obs_step :: "metric_collector \<Rightarrow> obs_event \<Rightarrow> registry \<Rightarrow> registry" where
  "obs_step c e reg =
     (let (i, lv, d) = obs_target c e in reg[i := observe_labelled lv d (reg ! i)])"

text \<open>
  The lookup view of a registry: for each family its name, label names, kind and
  the map from label tuples to children (the order in which children were created,
  which the exposition follows, is abstracted away).
\<close>

definition registry_view ::
  "registry \<Rightarrow> (string \<times> string list \<times> kind \<times> (label_values \<rightharpoonup> child)) list" where
  "registry_view reg = map (\<lambda>f. (fam_name f, fam_labelnames f, fam_kind f, map_of (fam_children f))) reg"

definition entry_observe ::
  "label_values \<Rightarrow> seconds \<Rightarrow> string \<times> string list \<times> kind \<times> (label_values \<rightharpoonup> child) \<Rightarrow>
     string \<times> string list \<times> kind \<times> (label_values \<rightharpoonup> child)" where
  "entry_observe lv d e =
     (case e of (n, lns, k, m) \<Rightarrow>
        (n, lns, k, m(lv \<mapsto> observe_child k d (case m lv of None \<Rightarrow> new_child k | Some ch \<Rightarrow> ch))))"

definition view_step ::
  "nat \<times> label_values \<times> seconds \<Rightarrow> (string \<times> string list \<times> kind \<times> (label_values \<rightharpoonup> child)) list \<Rightarrow>
     (string \<times> string list \<times> kind \<times> (label_values \<rightharpoonup> child)) list" where
  "view_step t vs = (case t of (i, lv, d) \<Rightarrow> vs[i := entry_observe lv d (vs ! i)])"

section \<open>The collector invariant\<close>

definition db_bounds :: "bound list" where
  "db_bounds = map Bound db_buckets @ [PosInf]"

text \<open>
  A family designated by a reference: registered, well formed, with the label names
  and kind \<open>newCollector\<close> gave it.
\<close>

definition designates :: "registry \<Rightarrow> nat \<Rightarrow> string list \<Rightarrow> kind \<Rightarrow> bool" where
  "designates reg i lns k \<longleftrightarrow>
     i < length reg \<and> family_wf (reg ! i) \<and> fam_labelnames (reg ! i) = lns \<and> fam_kind (reg ! i) = k"

definition collector_wf :: "metric_collector \<Rightarrow> registry \<Rightarrow> bool" where
  "collector_wf c reg \<longleftrightarrow>
     distinct [mc_me c, mc_db c, mc_external c] \<and>
     designates reg (mc_me c) [''path'', ''method'', ''status_code''] KSummary \<and>
     designates reg (mc_db c) [''status_code'', ''sql_state''] (KHistogram db_bounds) \<and>
     designates reg (mc_external c) [''status_code''] KSummary"

section \<open>Observations through the collector\<close>

lemma labels_in_order:
  "distinct (map fst kw) \<Longrightarrow>
     map (\<lambda>l. case map_of kw l of Some v \<Rightarrow> py_str v | None \<Rightarrow> []) (map fst kw) = map (py_str \<circ> snd) kw"
proof (induction kw)
  case Nil
  then show ?case by simp
next
  case (Cons p kw)
  obtain k a where p: "p = (k, a)" by (cases p)
  with Cons.prems have "k \<notin> set (map fst kw)" by simp
  then have "map (\<lambda>l. case map_of ((k, a) # kw) l of Some v \<Rightarrow> py_str v | None \<Rightarrow> []) (map fst kw) =
             map (\<lambda>l. case map_of kw l of Some v \<Rightarrow> py_str v | None \<Rightarrow> []) (map fst kw)"
    by (intro map_cong) auto
  with Cons p show ?case by simp
qed

text \<open>
  On a well-formed family whose label names are exactly the keywords given, in that
  order, \<open>labels(**kw).observe(v)\<close> succeeds and observes under the values in order.
\<close>

lemma labels_observe_designated:
  assumes "family_wf f" and "fam_labelnames f = map fst kw"
  shows "labels_observe kw v f = Inr (observe_labelled (map (py_str \<circ> snd) kw) v f)"
proof -
  from assms have "distinct (map fst kw)" and "map fst kw \<noteq> []"
    by (auto simp: family_wf_def)
  then have "labels f kw = Inr (map (py_str \<circ> snd) kw)"
    using labels_in_order [OF \<open>distinct (map fst kw)\<close>] assms(2)
    by (simp add: labels_def)
  then show ?thesis
    by (simp add: labels_observe_def)
qed

lemma update_family_designated:
  assumes "designates reg i (map fst kw) k"
  shows "update_family i (labels_observe kw v) reg =
           Inr (reg[i := observe_labelled (map (py_str \<circ> snd) kw) v (reg ! i)])"
  using assms by (simp add: update_family_def designates_def labels_observe_designated)

lemma designates_update:
  assumes "designates reg j lns k" and "i < length reg" and "family_wf g"
    and "fam_labelnames g = fam_labelnames (reg ! i)" and "fam_kind g = fam_kind (reg ! i)"
  shows "designates (reg[i := g]) j lns k"
  using assms by (cases "i = j") (auto simp: designates_def)

lemma collector_wf_update:
  assumes "collector_wf c reg" and "i < length reg" and "family_wf g"
    and "fam_labelnames g = fam_labelnames (reg ! i)" and "fam_kind g = fam_kind (reg ! i)"
  shows "collector_wf c (reg[i := g])"
  using assms designates_update [OF _ assms(2-5)] by (simp add: collector_wf_def)

lemma collector_wf_observe_at:
  assumes "collector_wf c reg" and "designates reg i lns k" and "length lv = length lns"
  shows "collector_wf c (reg[i := observe_labelled lv v (reg ! i)])"
proof (rule collector_wf_update [OF assms(1)])
  from assms(2,3) show "i < length reg" and "family_wf (observe_labelled lv v (reg ! i))"
    by (auto simp: designates_def intro: family_wf_observe_labelled)
qed simp_all

lemma observe_myself_eq [obs_simps]:
  "collector_wf c reg \<Longrightarrow>
     observe_myself c path method sc d reg =
       Inr (reg[mc_me c := observe_labelled [path, method, decimal_digits sc] d (reg ! mc_me c)])"
proof -
  assume "collector_wf c reg"
  then have "designates reg (mc_me c) (map fst [(''path'', LStr path), (''method'', LStr method), (''status_code'', LInt sc)]) KSummary"
    by (simp add: collector_wf_def)
  from update_family_designated [OF this] show ?thesis
    by (simp add: observe_myself_def)
qed

lemma observe_db_eq [obs_simps]:
  "collector_wf c reg \<Longrightarrow>
     observe_db c sc ss d reg = Inr (reg[mc_db c := observe_labelled [sc, ss] d (reg ! mc_db c)])"
proof -
  assume "collector_wf c reg"
  then have "designates reg (mc_db c) (map fst [(''status_code'', LStr sc), (''sql_state'', LStr ss)]) (KHistogram db_bounds)"
    by (simp add: collector_wf_def)
  from update_family_designated [OF this] show ?thesis
    by (simp add: observe_db_def)
qed

lemma observe_external_eq [obs_simps]:
  "collector_wf c reg \<Longrightarrow>
     observe_external c sc d reg = Inr (reg[mc_external c := observe_labelled [sc] d (reg ! mc_external c)])"
proof -
  assume "collector_wf c reg"
  then have "designates reg (mc_external c) (map fst [(''status_code'', LStr sc)]) KSummary"
    by (simp add: collector_wf_def)
  from update_family_designated [OF this] show ?thesis
    by (simp add: observe_external_def)
qed

lemma collector_wf_observe_myself [wf_simps]:
  "collector_wf c reg \<Longrightarrow> observe_myself c path method sc d reg = Inr reg' \<Longrightarrow> collector_wf c reg'"
proof -
  assume wf: "collector_wf c reg" and obs: "observe_myself c path method sc d reg = Inr reg'"
  then have "designates reg (mc_me c) [''path'', ''method'', ''status_code''] (KSummary)"
    by (simp add: collector_wf_def)
  from collector_wf_observe_at [OF wf this, of "[path, method, decimal_digits sc]" d] wf obs show ?thesis
    by (simp add: observe_myself_eq)
qed

lemma collector_wf_observe_db [wf_simps]:
  "collector_wf c reg \<Longrightarrow> observe_db c sc ss d reg = Inr reg' \<Longrightarrow> collector_wf c reg'"
proof -
  assume wf: "collector_wf c reg" and obs: "observe_db c sc ss d reg = Inr reg'"
  then have "designates reg (mc_db c) [''status_code'', ''sql_state''] (KHistogram db_bounds)"
    by (simp add: collector_wf_def)
  from collector_wf_observe_at [OF wf this, of "[sc, ss]" d] wf obs show ?thesis
    by (simp add: observe_db_eq)
qed

lemma collector_wf_observe_external [wf_simps]:
  "collector_wf c reg \<Longrightarrow> observe_external c sc d reg = Inr reg' \<Longrightarrow> collector_wf c reg'"
proof -
  assume wf: "collector_wf c reg" and obs: "observe_external c sc d reg = Inr reg'"
  then have "designates reg (mc_external c) [''status_code''] (KSummary)"
    by (simp add: collector_wf_def)
  from collector_wf_observe_at [OF wf this, of "[sc]" d] wf obs show ?thesis
    by (simp add: observe_external_eq)
qed

section \<open>Runs of observations\<close>

lemma apply_obs_eq [obs_simps]:
  "collector_wf c reg \<Longrightarrow> apply_obs c e reg = Inr (obs_step c e reg)"
  by (cases e) (simp_all add: obs_step_def observe_myself_eq observe_db_eq observe_external_eq)

lemma collector_wf_obs_step [wf_simps]:
  assumes "collector_wf c reg"
  shows "collector_wf c (obs_step c e reg)"
proof (cases e)
  case (ObsMyself p m sc d)
  with assms show ?thesis
    using collector_wf_observe_myself [OF assms] apply_obs_eq [OF assms, of e] by simp
next
  case (ObsDb sc ss d)
  with assms show ?thesis
    using collector_wf_observe_db [OF assms] apply_obs_eq [OF assms, of e] by simp
next
  case (ObsExternal sc d)
  with assms show ?thesis
    using collector_wf_observe_external [OF assms] apply_obs_eq [OF assms, of e] by simp
qed

lemma apply_obs_list_eq:
  "collector_wf c reg \<Longrightarrow>
     apply_obs_list c es reg = Inr (fold (obs_step c) es reg) \<and> collector_wf c (fold (obs_step c) es reg)"
  by (induction es arbitrary: reg) (simp_all add: apply_obs_eq collector_wf_obs_step)

lemma apply_obs_list_fold:
  "collector_wf c reg \<Longrightarrow> apply_obs_list c es reg = Inr (fold (obs_step c) es reg)"
  using apply_obs_list_eq by blast

lemma obs_target_in_range:
  "collector_wf c reg \<Longrightarrow> fst (obs_target c e) < length reg"
  by (cases e) (auto simp: collector_wf_def designates_def)

lemma registry_view_obs_step:
  assumes "collector_wf c reg"
  shows "registry_view (obs_step c e reg) = view_step (obs_target c e) (registry_view reg)"
proof -
  obtain i lv d where t: "obs_target c e = (i, lv, d)"
    by (cases "obs_target c e") auto
  with obs_target_in_range [OF assms, of e] have "i < length reg"
    by simp
  with t show ?thesis
    by (simp add: obs_step_def view_step_def entry_observe_def registry_view_def map_update
        map_of_observe_labelled)
qed

lemma registry_view_fold_obs_step:
  "collector_wf c reg \<Longrightarrow>
     registry_view (fold (obs_step c) es reg) = fold view_step (map (obs_target c) es) (registry_view reg)"
  by (induction es arbitrary: reg) (simp_all add: registry_view_obs_step collector_wf_obs_step)

lemma entry_observe_commute:
  "entry_observe lv d (entry_observe lv' d' e) = entry_observe lv' d' (entry_observe lv d e)"
  by (cases e; cases "lv = lv'")
    (auto simp: entry_observe_def fun_upd_twist observe_child_commute split: option.split)

text \<open>Two observations commute on the lookup view, whatever families and tuples they hit.\<close>

lemma view_step_commute:
  "view_step a (view_step b vs) = view_step b (view_step a vs)"
proof -
  obtain i lv d where a: "a = (i, lv, d)" by (cases a) auto
  obtain j lv' d' where b: "b = (j, lv', d')" by (cases b) auto
  show ?thesis
  proof (cases "i = j")
    case False
    then show ?thesis
      by (cases "i < length vs"; cases "j < length vs")
        (simp_all add: a b view_step_def list_update_swap list_update_beyond)
  next
    case True
    then show ?thesis
      by (cases "i < length vs") (simp_all add: a b view_step_def entry_observe_commute list_update_beyond)
  qed
qed

lemma registry_view_nth:
  "i < length reg \<Longrightarrow>
     registry_view reg ! i = (fam_name (reg ! i), fam_labelnames (reg ! i), fam_kind (reg ! i),
                              map_of (fam_children (reg ! i)))"
  by (simp add: registry_view_def)

lemma length_fold_obs_step [simp]: "length (fold (obs_step c) es reg) = length reg"
  by (induction es arbitrary: reg) (simp_all add: obs_step_def split_def Let_def)

text \<open>
  After a run of observations, the child of one label tuple of one family has
  absorbed exactly the durations of the events aimed at it, in order.
\<close>

lemma view_lookup_fold:
  assumes "i < length vs" and "vs ! i = (n, lns, k, m)"
  shows "\<exists>m'. fold view_step ts vs ! i = (n, lns, k, m') \<and>
           m' lv = fold (\<lambda>d co. Some (observe_child k d (case co of None \<Rightarrow> new_child k | Some ch \<Rightarrow> ch)))
                     (map (snd \<circ> snd) (filter (\<lambda>(i', lv', d). i' = i \<and> lv' = lv) ts)) (m lv)"
  using assms
proof (induction ts arbitrary: vs m)
  case Nil
  then show ?case by simp
next
  case (Cons t ts)
  obtain j lv' d where t: "t = (j, lv', d)" by (cases t) auto
  let ?vs = "view_step t vs"
  let ?m = "if j = i then m(lv' \<mapsto> observe_child k d (case m lv' of None \<Rightarrow> new_child k | Some ch \<Rightarrow> ch)) else m"
  have len: "i < length ?vs" using Cons.prems(1) by (simp add: t view_step_def)
  have at: "?vs ! i = (n, lns, k, ?m)"
    using Cons.prems by (cases "j = i") (simp_all add: t view_step_def entry_observe_def)
  from Cons.IH [OF len at] obtain m' where
    m': "fold view_step ts ?vs ! i = (n, lns, k, m')"
    and lk: "m' lv = fold (\<lambda>d co. Some (observe_child k d (case co of None \<Rightarrow> new_child k | Some ch \<Rightarrow> ch)))
                 (map (snd \<circ> snd) (filter (\<lambda>(i', lv', d). i' = i \<and> lv' = lv) ts)) (?m lv)"
    by blast
  show ?case
    using m' lk by (cases "j = i \<and> lv' = lv") (auto simp: t comp_def)
qed

lemma fold_observe_option:
  "fold (\<lambda>d co. Some (observe_child k d (case co of None \<Rightarrow> new_child k | Some ch \<Rightarrow> ch))) ds (Some ch) =
     Some (fold (observe_child k) ds ch)"
  by (induction ds arbitrary: ch) simp_all

text \<open>
  After a run of observations, one family position keeps its name, label names and
  kind, and the child of a tuple has absorbed the durations aimed at it, in order.
\<close>

lemma fold_obs_step_nth:
  assumes wf: "collector_wf c reg" and i: "i < length reg"
  shows "fam_name (fold (obs_step c) es reg ! i) = fam_name (reg ! i) \<and>
    fam_labelnames (fold (obs_step c) es reg ! i) = fam_labelnames (reg ! i) \<and>
    fam_kind (fold (obs_step c) es reg ! i) = fam_kind (reg ! i) \<and>
    map_of (fam_children (fold (obs_step c) es reg ! i)) lv =
      fold (\<lambda>d co. Some (observe_child (fam_kind (reg ! i)) d
                           (case co of None \<Rightarrow> new_child (fam_kind (reg ! i)) | Some ch \<Rightarrow> ch)))
        (map (snd \<circ> snd) (filter (\<lambda>(i', lv', d). i' = i \<and> lv' = lv) (map (obs_target c) es)))
        (map_of (fam_children (reg ! i)) lv)"
proof -
  let ?r = "fold (obs_step c) es reg"
  from view_lookup_fold [of i "registry_view reg", OF _ registry_view_nth [OF i], of "map (obs_target c) es" lv] i
  obtain m' where at: "fold view_step (map (obs_target c) es) (registry_view reg) ! i = (fam_name (reg ! i),
        fam_labelnames (reg ! i), fam_kind (reg ! i), m')"
    and lk: "m' lv = fold (\<lambda>d co. Some (observe_child (fam_kind (reg ! i)) d
                           (case co of None \<Rightarrow> new_child (fam_kind (reg ! i)) | Some ch \<Rightarrow> ch)))
        (map (snd \<circ> snd) (filter (\<lambda>(i', lv', d). i' = i \<and> lv' = lv) (map (obs_target c) es)))
        (map_of (fam_children (reg ! i)) lv)"
    by (auto simp: registry_view_def)
  from registry_view_fold_obs_step [OF wf] at registry_view_nth [of i ?r] i lk
  show ?thesis by simp
qed

lemma fold_observe_None:
  "fold (\<lambda>d co. Some (observe_child k d (case co of None \<Rightarrow> new_child k | Some ch \<Rightarrow> ch))) ds None =
     (if ds = [] then None else Some (fold (observe_child k) ds (new_child k)))"
  by (cases ds) (simp_all add: fold_observe_option)

lemma observations_mset_view:
  assumes "collector_wf c reg" and "mset es1 = mset es2"
  shows "\<exists>r1 r2. apply_obs_list c es1 reg = Inr r1 \<and> apply_obs_list c es2 reg = Inr r2 \<and>
           registry_view r1 = registry_view r2"
proof -
  have "fold view_step (map (obs_target c) es1) = fold view_step (map (obs_target c) es2)"
    by (rule fold_commuting_mset) (simp_all add: fun_eq_iff view_step_commute assms(2))
  then show ?thesis
    using apply_obs_list_eq [OF assms(1)] registry_view_fold_obs_step [OF assms(1)] by auto
qed

section \<open>Constructing the collector\<close>

lemma collector_names_ok:
  assumes "metric_name_ok (p @ ''_duration_seconds'')"
  shows "metric_name_ok (p @ ''_database_duration_seconds'')"
    and "metric_name_ok (p @ ''_audit_duration_seconds'')"
  using assms by (simp_all add: metric_name_ok_append name_class_defs)

lemmas newCollector_unfold =
  newCollector_def about_me_def about_db_def about_her_def new_summary_def new_histogram_def metric_init_def Let_def
  register_def family_names_def registry_names_def prepare_buckets_def db_buckets_def
  label_name_ok_def strip_final_newline_def name_class_defs

text \<open>
  C19: for every service name whose derived metric name is valid, \<open>newCollector\<close> on
  an empty registry succeeds, registers the three families in order and returns a
  collector whose references satisfy the collector invariant.
\<close>

theorem newCollector_fresh:
  assumes "metric_name_ok (replace_char (CHR ''-'') (CHR ''_'') s @ ''_duration_seconds'')"
  shows "\<exists>reg. newCollector s [] = (Inr \<lparr>mc_me = 0, mc_db = 1, mc_external = 2\<rparr>, reg) \<and>
           collector_wf \<lparr>mc_me = 0, mc_db = 1, mc_external = 2\<rparr> reg"
  using assms collector_names_ok [OF assms]
  by (simp add: newCollector_unfold db_bounds_def collector_wf_def designates_def family_wf_def)

lemma service_name_ok:
  "metric_name_ok (replace_char (CHR ''-'') (CHR ''_'') ''order-mgmt'' @ ''_duration_seconds'')"
  by (simp add: replace_char_def metric_name_ok_def strip_final_newline_def name_class_defs)

lemma order_mgmt_collector:
  "newCollector ''order-mgmt'' [] =
     (Inr \<lparr>mc_me = 0, mc_db = 1, mc_external = 2\<rparr>, snd (newCollector ''order-mgmt'' [])) \<and>
   collector_wf \<lparr>mc_me = 0, mc_db = 1, mc_external = 2\<rparr> (snd (newCollector ''order-mgmt'' []))"
  using service_name_ok collector_names_ok [OF service_name_ok]
  by (simp add: newCollector_unfold db_bounds_def collector_wf_def designates_def family_wf_def)

lemma order_mgmt_children:
  "i < 3 \<Longrightarrow> fam_children (snd (newCollector ''order-mgmt'' []) ! i) = []"
  using service_name_ok collector_names_ok [OF service_name_ok]
  by (simp add: newCollector_unfold less_Suc_eq nth_Cons')

theorem newCollector_fresh_witness:
  "metric_name_ok (replace_char (CHR ''-'') (CHR ''_'') ''order-mgmt'' @ ''_duration_seconds'') \<and>
   (\<exists>reg. newCollector ''order-mgmt'' [] = (Inr \<lparr>mc_me = 0, mc_db = 1, mc_external = 2\<rparr>, reg) \<and>
     collector_wf \<lparr>mc_me = 0, mc_db = 1, mc_external = 2\<rparr> reg)"
  using service_name_ok newCollector_fresh [OF service_name_ok] by blast

text \<open>
  C20: creating a second collector with the same service name in the same registry
  raises \<open>ValueError\<close> (duplicated time series) and registers nothing more: the
  service can build its application once per process.
\<close>

theorem newCollector_twice:
  assumes "metric_name_ok (replace_char (CHR ''-'') (CHR ''_'') s @ ''_duration_seconds'')"
  shows "newCollector s (snd (newCollector s [])) =
           (Inl (ValueError ''Duplicated timeseries in CollectorRegistry''), snd (newCollector s []))"
  using assms collector_names_ok [OF assms] by (simp add: newCollector_unfold)

theorem newCollector_twice_witness:
  "metric_name_ok (replace_char (CHR ''-'') (CHR ''_'') ''order-mgmt'' @ ''_duration_seconds'') \<and>
   newCollector ''order-mgmt'' (snd (newCollector ''order-mgmt'' [])) =
     (Inl (ValueError ''Duplicated timeseries in CollectorRegistry''),
      snd (newCollector ''order-mgmt'' []))"
  using service_name_ok newCollector_twice [OF service_name_ok] by blast

section \<open>Concurrent observations\<close>

text \<open>
  Observations are never lost or reordered in effect: for any two requests'
  observation sequences, every interleaving of them succeeds and leaves the registry
  with the same lookup view (same children with the same counts, sums and buckets)
  as running the two requests one after the other.
\<close>

theorem interleaving_equals_sequential:
  assumes "collector_wf c reg" and "zs \<in> shuffles xs ys"
  shows "\<exists>r1 r2. apply_obs_list c zs reg = Inr r1 \<and> apply_obs_list c (xs @ ys) reg = Inr r2 \<and>
           registry_view r1 = registry_view r2"
  using observations_mset_view [OF assms(1)] mset_shuffles [OF assms(2)] by simp

theorem interleaving_equals_sequential_witness:
  "collector_wf \<lparr>mc_me = 0, mc_db = 1, mc_external = 2\<rparr> (snd (newCollector ''order-mgmt'' [])) \<and>
   [ObsDb ''0'' ''0'' 0.3, ObsMyself ''/complex'' ''GET'' 200 0.5, ObsExternal ''200'' 0.1]
     \<in> shuffles [ObsDb ''0'' ''0'' 0.3, ObsExternal ''200'' 0.1] [ObsMyself ''/complex'' ''GET'' 200 0.5] \<and>
   (\<exists>r1 r2. apply_obs_list \<lparr>mc_me = 0, mc_db = 1, mc_external = 2\<rparr>
        [ObsDb ''0'' ''0'' 0.3, ObsMyself ''/complex'' ''GET'' 200 0.5, ObsExternal ''200'' 0.1]
        (snd (newCollector ''order-mgmt'' [])) = Inr r1 \<and>
      apply_obs_list \<lparr>mc_me = 0, mc_db = 1, mc_external = 2\<rparr>
        ([ObsDb ''0'' ''0'' 0.3, ObsExternal ''200'' 0.1] @ [ObsMyself ''/complex'' ''GET'' 200 0.5])
        (snd (newCollector ''order-mgmt'' [])) = Inr r2 \<and>
      registry_view r1 = registry_view r2)"
proof -
  have wf: "collector_wf \<lparr>mc_me = 0, mc_db = 1, mc_external = 2\<rparr> (snd (newCollector ''order-mgmt'' []))"
    using order_mgmt_collector by blast
  have sh: "[ObsDb ''0'' ''0'' 0.3, ObsMyself ''/complex'' ''GET'' 200 0.5, ObsExternal ''200'' 0.1]
     \<in> shuffles [ObsDb ''0'' ''0'' 0.3, ObsExternal ''200'' 0.1] [ObsMyself ''/complex'' ''GET'' 200 0.5]"
    by (simp add: Cons_in_shuffles_iff)
  from wf sh interleaving_equals_sequential [OF wf sh] show ?thesis by blast
qed

text \<open>
  C8: no lost updates: after any sequence of observations (an interleaving of any
  number of concurrent requests), the child of a label tuple that did not exist before
  exposes exactly the contract of the durations aimed at it: \<open>_count\<close> their number,
  \<open>_sum\<close> their total, each bucket the number not above its bound.
\<close>

theorem no_lost_updates:
  assumes wf: "collector_wf c reg" and tgt: "i \<in> {mc_me c, mc_db c, mc_external c}"
    and fresh: "map_of (fam_children (reg ! i)) lv = None"
    and ds: "ds = map (snd \<circ> snd) (filter (\<lambda>(i', lv', d). i' = i \<and> lv' = lv) (map (obs_target c) es))"
    and ne: "ds \<noteq> []"
  shows "\<exists>r. apply_obs_list c es reg = Inr r \<and>
           map_option child_stats (map_of (fam_children (r ! i)) lv) = Some (spec_stats (fam_kind (reg ! i)) ds)"
proof -
  let ?r = "fold (obs_step c) es reg"
  let ?k = "fam_kind (reg ! i)"
  from wf tgt have i: "i < length reg" and ok: "kind_ok ?k"
    by (auto simp: collector_wf_def designates_def family_wf_def)
  have "map_of (fam_children (?r ! i)) lv = Some (fold (observe_child ?k) ds (new_child ?k))"
    using fold_obs_step_nth [OF wf i, of es lv] fresh ne unfolding ds by (simp add: fold_observe_None)
  then show ?thesis
    using apply_obs_list_eq [OF wf] child_stats_fold_new [OF ok] by simp
qed

theorem no_lost_updates_witness:
  "collector_wf \<lparr>mc_me = 0, mc_db = 1, mc_external = 2\<rparr> (snd (newCollector ''order-mgmt'' [])) \<and>
   (\<exists>r. apply_obs_list \<lparr>mc_me = 0, mc_db = 1, mc_external = 2\<rparr>
          [ObsDb ''0'' ''0'' 0.3, ObsExternal ''200'' 0.1, ObsDb ''0'' ''0'' 0.2]
          (snd (newCollector ''order-mgmt'' [])) = Inr r \<and>
        map_option child_stats (map_of (fam_children (r ! 1)) [''0'', ''0'']) =
          Some (spec_stats (fam_kind (snd (newCollector ''order-mgmt'' []) ! 1)) [0.3, 0.2]))"
proof -
  have wf: "collector_wf \<lparr>mc_me = 0, mc_db = 1, mc_external = 2\<rparr> (snd (newCollector ''order-mgmt'' []))"
    using order_mgmt_collector by blast
  have fresh: "map_of (fam_children (snd (newCollector ''order-mgmt'' []) ! 1)) [''0'', ''0''] = None"
    by (simp add: order_mgmt_children)
  have tgt: "(1::nat) \<in> {mc_me \<lparr>mc_me = 0, mc_db = 1, mc_external = 2\<rparr>,
      mc_db \<lparr>mc_me = 0, mc_db = 1, mc_external = 2\<rparr>, mc_external \<lparr>mc_me = 0, mc_db = 1, mc_external = 2\<rparr>}"
    by simp
  have ds: "[0.3, 0.2] = map (snd \<circ> snd) (filter (\<lambda>(i', lv', d). i' = 1 \<and> lv' = [''0'', ''0''])
      (map (obs_target \<lparr>mc_me = 0, mc_db = 1, mc_external = 2\<rparr>)
        [ObsDb ''0'' ''0'' 0.3, ObsExternal ''200'' 0.1, ObsDb ''0'' ''0'' 0.2]))"
    by simp
  from no_lost_updates [OF wf tgt fresh ds] wf show ?thesis by simp
qed

end
