(* ===== verification/Clock.thy ===== *)
theory Clock
  imports Prelude
begin

text \<open>
  The wall clock read by \<open>time.time()\<close> and advanced by \<open>time.sleep()\<close>
  (src/src/main.py lines 87, 94, 99, 109, 115, 120, 131, 140, 144).
  The clock holds its current reading and the list of adjustments the environment
  makes before each successive reading: the time spent computing between two reads,
  and, since \<open>time.time()\<close> is the wall clock and not a monotonic one, steps of
  the system clock, which may be negative. A clock whose adjustments are all
  non-negative is monotonic.
\<close>

record wall_clock =
  now :: seconds
  adjust :: "seconds list"

text \<open>\<open>time.time()\<close>: apply the next pending adjustment, return the reading.\<close>

definition time_time :: "wall_clock \<Rightarrow> seconds \<times> wall_clock" where
  "time_time c =
     (case adjust c of
        [] \<Rightarrow> (now c, c)
      | d # ds \<Rightarrow> (now c + d, c\<lparr>now := now c + d, adjust := ds\<rparr>))"

text \<open>\<open>time.sleep(d)\<close> for a finite positive \<open>d\<close>: the clock advances by \<open>d\<close>.\<close>

definition time_sleep :: "seconds \<Rightarrow> wall_clock \<Rightarrow> wall_clock" where
  "time_sleep d c = c\<lparr>now := now c + d\<rparr>"

definition monotonic :: "wall_clock \<Rightarrow> bool" where
  "monotonic c \<longleftrightarrow> (\<forall>d \<in> set (adjust c). 0 \<le> d)"

lemma time_time_reading:
  "fst (time_time c) = now (snd (time_time c))"
  by (simp add: time_time_def split: list.split)

lemma time_time_ge:
  "monotonic c \<Longrightarrow> now c \<le> fst (time_time c)"
  by (auto simp: time_time_def monotonic_def split: list.split)

lemma time_time_monotonic:
  "monotonic c \<Longrightarrow> monotonic (snd (time_time c))"
  by (auto simp: time_time_def monotonic_def split: list.split)

lemma time_sleep_now [simp]: "now (time_sleep d c) = now c + d"
  by (simp add: time_sleep_def)

lemma time_sleep_monotonic [simp]: "monotonic (time_sleep d c) = monotonic c"
  by (simp add: time_sleep_def monotonic_def)

lemma time_time_adjust:
  "adjust (snd (time_time c)) = drop 1 (adjust c)"
  by (simp add: time_time_def split: list.split)

end
