(* ===== verification/PyArgs.thy ===== *)
theory PyArgs
  imports Prelude
begin

text \<open>
  The Python built-ins the request handlers apply to query arguments
  (src/src/main.py lines 89-90, 110-111): \<open>float(str)\<close>, \<open>ast.literal_eval(str)\<close>,
  and the truth value an \<open>if\<close> takes of the result. They belong to the Python
  runtime, not to the repository; the model follows CPython 3.
  A query argument is a Python \<open>str\<close>; a character of the model is one code point,
  and the model covers the code points below 256 (Latin-1), which \<open>char\<close> holds.
  \<open>float()\<close> accepts the whole decimal grammar (sign, digit groups with
  underscores, fraction, exponent, \<open>inf\<close>/\<open>infinity\<close>/\<open>nan\<close> in any case,
  surrounding white space as \<open>str.isspace\<close> defines it); there are no decimal digits
  in Latin-1 besides the ASCII ones. A value becomes a double as \<open>py_double\<close>
  says: infinite at and beyond the rounding threshold of the largest double, zero up to
  half the smallest subnormal, and otherwise the exact decimal (rounding to 53 bits is
  not modelled, so a comparison exactly at a rounding boundary may differ).
  \<open>ast.literal_eval\<close> is modelled on the literals a query flag is written with:
  \<open>True\<close>, \<open>False\<close>, \<open>None\<close>, signed decimal integers and floats, and quoted
  strings without escapes. A name raises \<open>ValueError\<close> and a keyword
  \<open>SyntaxError\<close>, as in Python. Other text raises \<open>SyntaxError\<close> here; this covers
  containers, parenthesised, hexadecimal, octal, binary and imaginary literals and
  escaped strings, which Python accepts, so the theorems never assume that
  \<open>literal_eval\<close> refuses a text other than a name or keyword.
\<close>

datatype pyfloat = Fin real | PInf | NInf | NaN

datatype pyval = PyBool bool | PyNone | PyInt int | PyFloat pyfloat | PyStr string

section \<open>Characters\<close>

text \<open>\<open>str.isspace\<close> on Latin-1: tab to carriage return, the four separators, space,
  next line and no-break space.\<close>

definition is_py_space :: "char \<Rightarrow> bool" where
  "is_py_space c \<longleftrightarrow> (of_char c :: nat) \<in> {9, 10, 11, 12, 13, 28, 29, 30, 31, 32, 133, 160}"

text \<open>The white space the tokenizer skips at the end of an expression.\<close>

definition is_token_space :: "char \<Rightarrow> bool" where
  "is_token_space c \<longleftrightarrow> (of_char c :: nat) \<in> {9, 10, 12, 13, 32}"

definition is_dec_digit :: "char \<Rightarrow> bool" where
  "is_dec_digit c \<longleftrightarrow> (let n = (of_char c :: nat) in 48 \<le> n \<and> n \<le> 57)"

definition digit_value :: "char \<Rightarrow> nat" where
  "digit_value c = of_char c - 48"

definition to_lower :: "char \<Rightarrow> char" where
  "to_lower c = (let n = (of_char c :: nat) in if 65 \<le> n \<and> n \<le> 90 then char_of (n + 32) else c)"

definition py_strip :: "string \<Rightarrow> string" where
  "py_strip s = rev (dropWhile is_py_space (rev (dropWhile is_py_space s)))"

section \<open>\<open>float(str)\<close>\<close>

text \<open>\<open>digitpart ::= digit (["_"] digit)*\<close>\<close>

fun digitpart_ok :: "string \<Rightarrow> bool" where
  "digitpart_ok [] = False"
| "digitpart_ok [c] = is_dec_digit c"
| "digitpart_ok (c # d # cs) =
     (is_dec_digit c \<and> (if d = CHR ''_'' then digitpart_ok cs else digitpart_ok (d # cs)))"

definition digits_value :: "string \<Rightarrow> nat" where
  "digits_value s = foldl (\<lambda>n c. 10 * n + digit_value c) 0 (filter is_dec_digit s)"

text \<open>
  \<open>number ::= [digitpart] "." digitpart | digitpart ["."]\<close>: the digits as one
  integer and the number of fraction digits.
\<close>

definition parse_mantissa :: "string \<Rightarrow> (nat \<times> nat) option" where
  "parse_mantissa s =
     (let ip = takeWhile (\<lambda>c. c \<noteq> CHR ''.'') s; rest = dropWhile (\<lambda>c. c \<noteq> CHR ''.'') s in
      if rest = [] then (if digitpart_ok ip then Some (digits_value ip, 0) else None)
      else (let fp = tl rest in
            if (ip = [] \<or> digitpart_ok ip) \<and> (fp = [] \<or> digitpart_ok fp) \<and> \<not> (ip = [] \<and> fp = [])
            then Some (digits_value (ip @ fp), length (filter is_dec_digit fp))
            else None))"

text \<open>\<open>exponent ::= ("e" | "E") [sign] digitpart\<close>, after the letter.\<close>

definition parse_exponent :: "string \<Rightarrow> int option" where
  "parse_exponent s =
     (case s of
        [] \<Rightarrow> None
      | c # ds \<Rightarrow>
          if c = CHR ''-'' then (if digitpart_ok ds then Some (- int (digits_value ds)) else None)
          else if c = CHR ''+'' then (if digitpart_ok ds then Some (int (digits_value ds)) else None)
          else if digitpart_ok s then Some (int (digits_value s)) else None)"

definition scale10 :: "int \<Rightarrow> real" where
  "scale10 e = (if 0 \<le> e then 10 ^ nat e else 1 / 10 ^ nat (- e))"

definition is_exp_letter :: "char \<Rightarrow> bool" where
  "is_exp_letter c \<longleftrightarrow> c = CHR ''e'' \<or> c = CHR ''E''"

definition parse_floatnumber :: "string \<Rightarrow> real option" where
  "parse_floatnumber s =
     (let m = takeWhile (\<lambda>c. \<not> is_exp_letter c) s; r = dropWhile (\<lambda>c. \<not> is_exp_letter c) s in
      case parse_mantissa m of
        None \<Rightarrow> None
      | Some (n, k) \<Rightarrow>
          if r = [] then Some (real n / 10 ^ k)
          else (case parse_exponent (tl r) of
                  None \<Rightarrow> None
                | Some e \<Rightarrow> Some (real n / 10 ^ k * scale10 e)))"

text \<open>Split an optional sign off a literal: is it negative, and the rest.\<close>

definition split_sign :: "string \<Rightarrow> bool \<times> string" where
  "split_sign s =
     (if s \<noteq> [] \<and> hd s = CHR ''-'' then (True, tl s)
      else if s \<noteq> [] \<and> hd s = CHR ''+'' then (False, tl s)
      else (False, s))"

text \<open>
  The double a decimal value becomes: beyond the midpoint between the largest double
  \<open>(2 - 2^-52) * 2^1023\<close> and \<open>2^1024\<close> it rounds to infinity, up to half the
  smallest subnormal \<open>2^-1074\<close> it rounds to zero (ties to even in both cases).
\<close>

definition py_double :: "real \<Rightarrow> pyfloat" where
  "py_double r =
     (if 2 ^ 1024 - 2 ^ 970 \<le> \<bar>r\<bar> then (if 0 < r then PInf else NInf)
      else if \<bar>r\<bar> \<le> 1 / 2 ^ 1075 then Fin 0
      else Fin r)"

definition py_float_str :: "string \<Rightarrow> py_exc + pyfloat" where
  "py_float_str s0 =
     (let (neg, body) = split_sign (py_strip s0); low = map to_lower body in
      if low = ''inf'' \<or> low = ''infinity'' then Inr (if neg then NInf else PInf)
      else if low = ''nan'' then Inr NaN
      else (case parse_floatnumber body of
              None \<Rightarrow> Inl (ValueError ''could not convert string to float'')
            | Some r \<Rightarrow> Inr (py_double (if neg then - r else r))))"

section \<open>\<open>ast.literal_eval(str)\<close>\<close>

text \<open>
  Decimal integer literals: no leading zero unless every digit is zero.
\<close>

definition int_literal_ok :: "string \<Rightarrow> bool" where
  "int_literal_ok s \<longleftrightarrow>
     digitpart_ok s \<and> (hd s \<noteq> CHR ''0'' \<or> (\<forall>c \<in> set s. c = CHR ''0'' \<or> c = CHR ''_''))"

text \<open>
  Identifiers over Latin-1: letters, underscore and digits, where the letters include
  the Latin-1 letters (U+00AA, U+00B5, U+00BA and U+00C0 to U+00FF without U+00D7 and
  U+00F7), and the middle dot U+00B7 may continue a name.
\<close>

definition is_ident_start :: "char \<Rightarrow> bool" where
  "is_ident_start c \<longleftrightarrow>
     (let n = (of_char c :: nat) in (65 \<le> n \<and> n \<le> 90) \<or> (97 \<le> n \<and> n \<le> 122) \<or> n = 95 \<or>
        n = 170 \<or> n = 181 \<or> n = 186 \<or> (192 \<le> n \<and> n \<noteq> 215 \<and> n \<noteq> 247))"

definition is_identifier :: "string \<Rightarrow> bool" where
  "is_identifier s \<longleftrightarrow>
     s \<noteq> [] \<and> is_ident_start (hd s) \<and>
     (\<forall>c \<in> set s. is_ident_start c \<or> is_dec_digit c \<or> c = CHR 0xB7)"

text \<open>The keywords of Python 3, which are not names.\<close>

definition py_keywords :: "string list" where
  "py_keywords =
     [''False'', ''None'', ''True'', ''and'', ''as'', ''assert'', ''async'', ''await'', ''break'',
      ''class'', ''continue'', ''def'', ''del'', ''elif'', ''else'', ''except'', ''finally'', ''for'',
      ''from'', ''global'', ''if'', ''import'', ''in'', ''is'', ''lambda'', ''nonlocal'', ''not'',
      ''or'', ''pass'', ''raise'', ''return'', ''try'', ''while'', ''with'', ''yield'']"

definition number_literal :: "string \<Rightarrow> pyval option" where
  "number_literal s =
     (if int_literal_ok s then Some (PyInt (int (digits_value s)))
      else if (CHR ''.'' \<in> set s \<or> (\<exists>c \<in> set s. is_exp_letter c))
        then map_option (PyFloat \<circ> py_double) (parse_floatnumber s)
      else None)"

definition negate_number :: "pyval \<Rightarrow> pyval" where
  "negate_number v =
     (case v of
        PyInt i \<Rightarrow> PyInt (- i)
      | PyFloat (Fin r) \<Rightarrow> PyFloat (Fin (- r))
      | PyFloat PInf \<Rightarrow> PyFloat NInf
      | PyFloat NInf \<Rightarrow> PyFloat PInf
      | _ \<Rightarrow> v)"

definition string_literal :: "string \<Rightarrow> string option" where
  "string_literal s =
     (if 2 \<le> length s \<and> hd s = last s \<and> (hd s = CHR 0x27 \<or> hd s = CHR 0x22) \<and>
         (\<forall>c \<in> set (butlast (tl s)). c \<noteq> hd s \<and> c \<noteq> CHR 0x5C \<and> c \<noteq> CHR 0x0A)
      then Some (butlast (tl s)) else None)"

text \<open>
  \<open>literal_eval\<close> strips leading blanks and tabs, the tokenizer ignores trailing
  white space; a name is a malformed node (\<open>ValueError\<close>), text that is not an
  expression of the subset a \<open>SyntaxError\<close>.
\<close>

definition literal_eval :: "string \<Rightarrow> py_exc + pyval" where
  "literal_eval s0 =
     (let s = rev (dropWhile is_token_space (rev (dropWhile (\<lambda>c. c = CHR '' '' \<or> c = CHR 0x09) s0)))
      in if s = ''True'' then Inr (PyBool True)
      else if s = ''False'' then Inr (PyBool False)
      else if s = ''None'' then Inr PyNone
      else if s \<in> set py_keywords then Inl (SyntaxError ''invalid syntax'')
      else if is_identifier s then Inl (ValueError ''malformed node or string'')
      else (case string_literal s of
              Some str \<Rightarrow> Inr (PyStr str)
            | None \<Rightarrow>
                (let (neg, body) = split_sign s in
                 case number_literal body of
                   Some v \<Rightarrow> Inr (if neg then negate_number v else v)
                 | None \<Rightarrow> Inl (SyntaxError ''invalid syntax''))))"

lemma dropWhile_none: "\<forall>c \<in> set s. \<not> P c \<Longrightarrow> dropWhile P s = s"
  by (induction s) auto

text \<open>A name other than \<open>True\<close>, \<open>False\<close> and \<open>None\<close> is refused, as by Python.\<close>

lemma literal_eval_name:
  assumes "is_identifier s" and "s \<notin> {''True'', ''False'', ''None''}"
  shows "\<exists>e. literal_eval s = Inl e"
proof -
  have "\<forall>c \<in> set s. \<not> is_token_space c \<and> \<not> (c = CHR '' '' \<or> c = CHR 0x09)"
    using assms(1) by (auto simp: is_identifier_def is_ident_start_def is_dec_digit_def is_token_space_def Let_def)
  then have "rev (dropWhile is_token_space (rev (dropWhile (\<lambda>c. c = CHR '' '' \<or> c = CHR 0x09) s))) = s"
    by (simp add: dropWhile_none)
  then show ?thesis
    using assms by (simp add: literal_eval_def)
qed

section \<open>Truth values and comparison\<close>

text \<open>\<open>bool(v)\<close>: \<open>nan\<close> is true, zero and empty values are false.\<close>

fun py_truthy :: "pyval \<Rightarrow> bool" where
  "py_truthy (PyBool b) = b"
| "py_truthy PyNone = False"
| "py_truthy (PyInt i) = (i \<noteq> 0)"
| "py_truthy (PyFloat (Fin r)) = (r \<noteq> 0)"
| "py_truthy (PyFloat _) = True"
| "py_truthy (PyStr s) = (s \<noteq> [])"

text \<open>\<open>x > 0\<close> on a float: false for \<open>nan\<close>.\<close>

fun py_gt_zero :: "pyfloat \<Rightarrow> bool" where
  "py_gt_zero (Fin r) = (0 < r)"
| "py_gt_zero PInf = True"
| "py_gt_zero NInf = False"
| "py_gt_zero NaN = False"

text \<open>The definitions that evaluate \<open>float()\<close> on a literal by simplification.\<close>

lemmas float_literal_defs =
  py_float_str_def split_sign_def py_strip_def is_py_space_def to_lower_def parse_floatnumber_def py_double_def
  parse_mantissa_def is_exp_letter_def digits_value_def digit_value_def is_dec_digit_def

end
