(* ===== verification/Backend.thy ===== *)
theory Backend
  imports Clock PyArgs
begin

text \<open>
  The mock backend simulator: \<open>mocked_call\<close>, \<open>call_db\<close> and \<open>call_external\<close>
  (src/src/main.py lines 104-105, 125-133). A call sleeps for the given duration
  when it is positive, then raises \<open>RuntimeError\<close> naming the simulated dependency
  when the error flag is true. Its only effects are on the clock and its outcome.
\<close>

text \<open>
  \<open>time.sleep(secs)\<close> on a float, as CPython does it: the duration is first converted
  to a count of nanoseconds in a signed 64-bit \<open>_PyTime_t\<close>, which refuses \<open>nan\<close>
  with \<open>ValueError\<close> and any duration beyond \<open>2^63\<close> nanoseconds (about 292
  years), infinities included, with \<open>OverflowError\<close>; then a negative duration is
  refused with \<open>ValueError\<close>; a duration in range advances the clock. The range test
  is exact on the model's values (the conversion's rounding of \<open>secs * 10^9\<close> to a
  double is not modelled).
\<close>

definition pytime_overflow :: "real \<Rightarrow> bool" where
  "pytime_overflow r \<longleftrightarrow> 2 ^ 63 < \<bar>r\<bar> * 10 ^ 9"

fun py_time_sleep :: "pyfloat \<Rightarrow> wall_clock \<Rightarrow> py_exc + wall_clock" where
  "py_time_sleep (Fin r) c =
     (if pytime_overflow r then Inl (OverflowError ''timestamp too large to convert to C _PyTime_t'')
      else if r < 0 then Inl (ValueError ''sleep length must be non-negative'')
      else Inr (time_sleep r c))"
| "py_time_sleep PInf c = Inl (OverflowError ''timestamp too large to convert to C _PyTime_t'')"
| "py_time_sleep NInf c = Inl (OverflowError ''timestamp too large to convert to C _PyTime_t'')"
| "py_time_sleep NaN c = Inl (ValueError ''Invalid value NaN (not a number)'')"

definition failure_message :: "string \<Rightarrow> string" where
  "failure_message what = what @ '' failed to process request''"

definition mocked_call :: "string \<Rightarrow> pyfloat \<Rightarrow> pyval \<Rightarrow> wall_clock \<Rightarrow> (py_exc + unit) \<times> wall_clock" where
  "mocked_call what sleep is_error clk =
     (case (if py_gt_zero sleep then py_time_sleep sleep clk else Inr clk) of
        Inl e \<Rightarrow> (Inl e, clk)
      | Inr clk' \<Rightarrow>
          (if py_truthy is_error then Inl (RuntimeError (failure_message what)) else Inr (), clk'))"

definition call_db :: "pyfloat \<Rightarrow> pyval \<Rightarrow> wall_clock \<Rightarrow> (py_exc + unit) \<times> wall_clock" where
  "call_db db_sleep is_error = mocked_call ''Database XYZ'' db_sleep is_error"

definition call_external :: "pyfloat \<Rightarrow> pyval \<Rightarrow> wall_clock \<Rightarrow> (py_exc + unit) \<times> wall_clock" where
  "call_external srv_sleep is_error = mocked_call ''Service Audit'' srv_sleep is_error"

section \<open>Behaviour of a mocked call\<close>

text \<open>
  On a finite duration within the range of \<open>time.sleep\<close> (the theorems use
  \<open>9 * 10^9\<close> seconds, below the limit by more than any rounding) the call returns, having
  advanced the clock by the duration if it is positive and not at all otherwise, with
  the outcome the flag selects. A positive duration beyond the range raises
  \<open>OverflowError\<close> before the flag is looked at.
\<close>

lemma mocked_call_finite:
  "d \<le> 9 * 10 ^ 9 \<Longrightarrow>
   mocked_call what (Fin d) flag clk =
     (if py_truthy flag then Inl (RuntimeError (failure_message what)) else Inr (),
      if 0 < d then time_sleep d clk else clk)"
  by (auto simp: mocked_call_def pytime_overflow_def)

lemma mocked_call_overflow:
  "0 < d \<Longrightarrow> pytime_overflow d \<Longrightarrow>
   mocked_call what (Fin d) flag clk = (Inl (OverflowError ''timestamp too large to convert to C _PyTime_t''), clk)"
  by (simp add: mocked_call_def)

lemma mocked_call_outcome:
  "fst (mocked_call what s flag clk) = Inr () \<Longrightarrow> \<not> py_truthy flag"
  "fst (mocked_call what s flag clk) = Inl (RuntimeError m) \<Longrightarrow> py_truthy flag \<and> m = failure_message what"
  by (cases s; auto simp: mocked_call_def split: if_splits sum.splits)+

lemma mocked_call_adjust:
  "adjust (snd (mocked_call what s flag clk)) = adjust clk"
  by (cases s) (auto simp: mocked_call_def time_sleep_def split: if_splits sum.splits)

lemma mocked_call_monotonic:
  "monotonic (snd (mocked_call what s flag clk)) = monotonic clk"
  by (simp add: monotonic_def mocked_call_adjust)

end
