(* ===== verification/Handlers.thy ===== *)
theory Handlers
  imports Collector Backend
begin

text \<open>
  The request handlers of \<open>add_routes\<close> and the two instrumented dependency calls
  (src/src/main.py lines 57-122): \<open>hello_route\<close>, \<open>world_route\<close>,
  \<open>complex_operation\<close>, \<open>work_with_db\<close>, \<open>work_with_third_party\<close>. A handler
  runs on the process state (the default registry and the clock) and returns its
  outcome, a response or the exception it lets escape, with the new state: an
  exception raised after an observation keeps the observation.
\<close>

type_synonym query_args = "(string \<times> string) list"

record app_state =
  st_registry :: registry
  st_clock :: wall_clock

text \<open>
  A response body: text written by the program, the framework's error page for a
  status, or the metrics exposition.
\<close>

datatype body = Text string | ErrorPage nat | Exposition "(string \<times> sample list) list"

record response =
  resp_status :: nat
  resp_body :: body
  resp_mimetype :: string

text \<open>A view returning a \<open>str\<close>: Flask makes it a 200 HTML response.\<close>

definition text_response :: "string \<Rightarrow> response" where
  "text_response s = \<lparr>resp_status = 200, resp_body = Text s, resp_mimetype = ''text/html''\<rparr>"

text \<open>\<open>r = Response(msg, mimetype='text/plain'); r.status_code = code\<close>\<close>

definition plain_response :: "string \<Rightarrow> nat \<Rightarrow> response" where
  "plain_response s code = \<lparr>resp_status = code, resp_body = Text s, resp_mimetype = ''text/plain''\<rparr>"

text \<open>\<open>request.args.get(key, default)\<close>: the first value given for the key.\<close>

definition arg_float :: "query_args \<Rightarrow> string \<Rightarrow> py_exc + pyfloat" where
  "arg_float args k = (case map_of args k of None \<Rightarrow> Inr (Fin 0) | Some s \<Rightarrow> py_float_str s)"

definition arg_literal :: "query_args \<Rightarrow> string \<Rightarrow> py_exc + pyval" where
  "arg_literal args k = literal_eval (case map_of args k of None \<Rightarrow> ''False'' | Some s \<Rightarrow> s)"

text \<open>
  \<open>latency = time.time() - start_time; collector.observe_...(..., latency)\<close>
\<close>

definition record_latency ::
  "(seconds \<Rightarrow> registry \<Rightarrow> py_exc + registry) \<Rightarrow> seconds \<Rightarrow> app_state \<Rightarrow> (py_exc + unit) \<times> app_state" where
  "record_latency obs start_time st =
     (let (t, clk) = time_time (st_clock st); st1 = st\<lparr>st_clock := clk\<rparr> in
      case obs (t - start_time) (st_registry st1) of
        Inl e \<Rightarrow> (Inl e, st1)
      | Inr reg \<Rightarrow> (Inr (), st1\<lparr>st_registry := reg\<rparr>))"

text \<open>
  \<open>work_with_db\<close>: read the clock, parse the two arguments (outside the
  \<open>try\<close>), call the database; on success observe under \<open>('0', '0')\<close>, on
  \<open>RuntimeError\<close> observe under \<open>('1001', 'HY000')\<close> and re-raise. Any other
  exception escapes without an observation.
\<close>

definition work_with_db :: "metric_collector \<Rightarrow> query_args \<Rightarrow> app_state \<Rightarrow> (py_exc + unit) \<times> app_state" where
  "work_with_db c args st =
     (let (start_time, clk) = time_time (st_clock st); st1 = st\<lparr>st_clock := clk\<rparr> in
      case arg_float args ''db_sleep'' of
        Inl e \<Rightarrow> (Inl e, st1)
      | Inr db_sleep \<Rightarrow>
      (case arg_literal args ''is_db_error'' of
        Inl e \<Rightarrow> (Inl e, st1)
      | Inr is_db_error \<Rightarrow>
      (let (r, clk2) = call_db db_sleep is_db_error (st_clock st1); st2 = st1\<lparr>st_clock := clk2\<rparr> in
       case r of
         Inr _ \<Rightarrow> record_latency (observe_db c ''0'' ''0'') start_time st2
       | Inl e \<Rightarrow>
           (case e of
              RuntimeError m \<Rightarrow>
                (case record_latency (observe_db c ''1001'' ''HY000'') start_time st2 of
                   (Inl e', st3) \<Rightarrow> (Inl e', st3)
                 | (Inr _, st3) \<Rightarrow> (Inl e, st3))
            | _ \<Rightarrow> (Inl e, st2)))))"

text \<open>\<open>work_with_third_party\<close>: the same for the audit service, status \<open>'200'\<close> or \<open>'500'\<close>.\<close>

definition work_with_third_party ::
  "metric_collector \<Rightarrow> query_args \<Rightarrow> app_state \<Rightarrow> (py_exc + unit) \<times> app_state" where
  "work_with_third_party c args st =
     (let (start_time, clk) = time_time (st_clock st); st1 = st\<lparr>st_clock := clk\<rparr> in
      case arg_float args ''srv_sleep'' of
        Inl e \<Rightarrow> (Inl e, st1)
      | Inr srv_sleep \<Rightarrow>
      (case arg_literal args ''is_srv_error'' of
        Inl e \<Rightarrow> (Inl e, st1)
      | Inr is_srv_error \<Rightarrow>
      (let (r, clk2) = call_external srv_sleep is_srv_error (st_clock st1); st2 = st1\<lparr>st_clock := clk2\<rparr> in
       case r of
         Inr _ \<Rightarrow> record_latency (observe_external c ''200'') start_time st2
       | Inl e \<Rightarrow>
           (case e of
              RuntimeError m \<Rightarrow>
                (case record_latency (observe_external c ''500'') start_time st2 of
                   (Inl e', st3) \<Rightarrow> (Inl e', st3)
                 | (Inr _, st3) \<Rightarrow> (Inl e, st3))
            | _ \<Rightarrow> (Inl e, st2)))))"

definition hello_route :: "response" where
  "hello_route = text_response ''hello''"

definition world_route :: "response" where
  "world_route = text_response ''world''"

text \<open>
  \<open>except RuntimeError as re\<close> in \<open>complex_operation\<close>: a 503 plain-text response
  whose body is the exception's message; any other exception escapes.
\<close>

definition catch_runtime_error :: "py_exc \<Rightarrow> app_state \<Rightarrow> (py_exc + response) \<times> app_state" where
  "catch_runtime_error e st =
     (case e of RuntimeError m \<Rightarrow> (Inr (plain_response m 503), st) | _ \<Rightarrow> (Inl e, st))"

definition complex_operation ::
  "metric_collector \<Rightarrow> query_args \<Rightarrow> app_state \<Rightarrow> (py_exc + response) \<times> app_state" where
  "complex_operation c args st =
     (case work_with_db c args st of
        (Inl e, st1) \<Rightarrow> catch_runtime_error e st1
      | (Inr _, st1) \<Rightarrow>
          (case work_with_third_party c args st1 of
             (Inl e, st2) \<Rightarrow> catch_runtime_error e st2
           | (Inr _, st2) \<Rightarrow> (Inr (text_response ''Success!''), st2)))"

text \<open>
  The clock seen by a dependency call that sleeps \<open>d\<close>: read at the start, advanced by
  the sleep when positive, read again at the end; the latency it records.
\<close>

abbreviation sleep_clock :: "real \<Rightarrow> wall_clock \<Rightarrow> wall_clock" where
  "sleep_clock d clk \<equiv> (if 0 < d then time_sleep d clk else clk)"

abbreviation after_call_clock :: "real \<Rightarrow> wall_clock \<Rightarrow> wall_clock" where
  "after_call_clock d clk \<equiv> snd (time_time (sleep_clock d (snd (time_time clk))))"

abbreviation call_latency :: "real \<Rightarrow> wall_clock \<Rightarrow> seconds" where
  "call_latency d clk \<equiv> fst (time_time (sleep_clock d (snd (time_time clk)))) - fst (time_time clk)"

section \<open>The dependency calls\<close>

lemma record_latency_Inr:
  "obs (fst (time_time (st_clock st)) - start) (st_registry st) = Inr reg' \<Longrightarrow>
     record_latency obs start st = (Inr (), st\<lparr>st_clock := snd (time_time (st_clock st)), st_registry := reg'\<rparr>)"
  by (simp add: record_latency_def split_def Let_def)

text \<open>
  With both arguments parsed and a finite sleep within the range of \<open>time.sleep\<close>,
  \<open>work_with_db\<close> makes exactly one
  database observation, labelled with the outcome, and raises exactly when the flag
  is true.
\<close>

lemma work_with_db_finite:
  assumes wf: "collector_wf c (st_registry st)"
    and a: "arg_float args ''db_sleep'' = Inr (Fin d)" and s: "d \<le> 9 * 10 ^ 9" and b: "arg_literal args ''is_db_error'' = Inr v"
  shows "work_with_db c args st =
     (if py_truthy v then Inl (RuntimeError (failure_message ''Database XYZ'')) else Inr (),
      st\<lparr>st_clock := after_call_clock d (st_clock st),
         st_registry := obs_step c (if py_truthy v then ObsDb ''1001'' ''HY000'' (call_latency d (st_clock st))
                                    else ObsDb ''0'' ''0'' (call_latency d (st_clock st))) (st_registry st)\<rparr>)"
  using wf by (simp add: work_with_db_def a b call_db_def mocked_call_finite [OF s] record_latency_def
      observe_db_eq obs_step_def split_def Let_def)

lemma work_with_third_party_finite:
  assumes wf: "collector_wf c (st_registry st)"
    and a: "arg_float args ''srv_sleep'' = Inr (Fin d)" and s: "d \<le> 9 * 10 ^ 9" and b: "arg_literal args ''is_srv_error'' = Inr v"
  shows "work_with_third_party c args st =
     (if py_truthy v then Inl (RuntimeError (failure_message ''Service Audit'')) else Inr (),
      st\<lparr>st_clock := after_call_clock d (st_clock st),
         st_registry := obs_step c (if py_truthy v then ObsExternal ''500'' (call_latency d (st_clock st))
                                    else ObsExternal ''200'' (call_latency d (st_clock st))) (st_registry st)\<rparr>)"
  using wf by (simp add: work_with_third_party_def a b call_external_def mocked_call_finite [OF s]
      record_latency_def observe_external_eq obs_step_def split_def Let_def)

lemma call_latency_ge:
  assumes "monotonic clk"
  shows "max 0 d \<le> call_latency d clk"
proof -
  let ?c1 = "snd (time_time clk)"
  let ?c2 = "sleep_clock d ?c1"
  have start: "fst (time_time clk) = now ?c1"
    by (rule time_time_reading)
  have "monotonic ?c1"
    using assms by (rule time_time_monotonic)
  then have m2: "monotonic ?c2"
    by simp
  have "now ?c2 = now ?c1 + max 0 d"
    by simp
  moreover have "now ?c2 \<le> fst (time_time ?c2)"
    using m2 by (rule time_time_ge)
  ultimately show ?thesis
    using start by linarith
qed

lemmas query_defaults =
  arg_float_def arg_literal_def literal_eval_def is_py_space_def is_token_space_def py_keywords_def

lemma order_mgmt_state_wf:
  "collector_wf \<lparr>mc_me = 0, mc_db = 1, mc_external = 2\<rparr>
     (st_registry \<lparr>st_registry = snd (newCollector ''order-mgmt'' []), st_clock = clk\<rparr>)"
  using order_mgmt_collector by simp

section \<open>Invariant and clock along every branch\<close>

lemma record_latency_wf:
  assumes "collector_wf c (st_registry st)"
    and "\<And>l reg'. obs l (st_registry st) = Inr reg' \<Longrightarrow> collector_wf c reg'"
  shows "collector_wf c (st_registry (snd (record_latency obs start st)))"
  using assms by (auto simp: record_latency_def split_def Let_def split: sum.split)

lemma record_latency_clock:
  "st_clock (snd (record_latency obs start st)) = snd (time_time (st_clock st))"
  by (simp add: record_latency_def split_def Let_def split: sum.split)

lemma work_with_db_wf [wf_simps]:
  assumes "collector_wf c (st_registry st)"
  shows "collector_wf c (st_registry (snd (work_with_db c args st)))"
proof -
  have obs: "\<And>sc ss t st'. collector_wf c (st_registry st') \<Longrightarrow>
      collector_wf c (st_registry (snd (record_latency (observe_db c sc ss) t st')))"
    by (rule record_latency_wf) (auto intro: collector_wf_observe_db)
  show ?thesis
    using assms obs
    by (auto simp: work_with_db_def split_def Let_def split: sum.split py_exc.split prod.split)
qed

lemma work_with_third_party_wf [wf_simps]:
  assumes "collector_wf c (st_registry st)"
  shows "collector_wf c (st_registry (snd (work_with_third_party c args st)))"
proof -
  have obs: "\<And>sc t st'. collector_wf c (st_registry st') \<Longrightarrow>
      collector_wf c (st_registry (snd (record_latency (observe_external c sc) t st')))"
    by (rule record_latency_wf) (auto intro: collector_wf_observe_external)
  show ?thesis
    using assms obs
    by (auto simp: work_with_third_party_def split_def Let_def split: sum.split py_exc.split prod.split)
qed

lemma complex_operation_wf [wf_simps]:
  assumes "collector_wf c (st_registry st)"
  shows "collector_wf c (st_registry (snd (complex_operation c args st)))"
proof -
  obtain r1 st1 where w1: "work_with_db c args st = (r1, st1)"
    by fastforce
  have wf1: "collector_wf c (st_registry st1)"
    using work_with_db_wf [OF assms, of args] w1 by simp
  obtain r2 st2 where w2: "work_with_third_party c args st1 = (r2, st2)"
    by fastforce
  have wf2: "collector_wf c (st_registry st2)"
    using work_with_third_party_wf [OF wf1, of args] w2 by simp
  show ?thesis
    using wf1 wf2 w1 w2
    by (auto simp: complex_operation_def catch_runtime_error_def split: sum.split py_exc.split)
qed

section \<open>The composite endpoint\<close>







section \<open>Recorded latencies\<close>





end
