(* ===== verification/Multiprocess.thy ===== *)
theory Multiprocess
  imports Collector
begin

text \<open>
  \<open>MultiProcessCollector\<close>, which \<open>get_latest_when_running_with_gunicorn\<close>
  (src/src/main.py lines 166-169) attaches to a fresh registry. Under a multi-process
  server every worker process keeps its own metric values (in its own files); a
  scrape reads the values of all workers and adds up, for each metric and each label
  tuple, the samples of the workers that have that tuple (counts, sums and the
  per-bucket counters of a histogram, which are accumulated into cumulative buckets
  afterwards). A metric no worker has a sample of is not reported. The model merges
  the workers' registries child by child, and shows that the result has the lookup
  view of a single process that made all the workers' observations.
\<close>

text \<open>Adding the values of two workers' children of the same label tuple.\<close>

fun child_add :: "child \<Rightarrow> child \<Rightarrow> child" where
  "child_add (SummaryChild n s) (SummaryChild m t) = SummaryChild (n + m) (s + t)"
| "child_add (HistogramChild cs s) (HistogramChild ds t) = HistogramChild (map2 (+) cs ds) (s + t)"
| "child_add c _ = c"

text \<open>Merge a worker's children into those accumulated so far.\<close>

definition merge_children ::
  "(label_values \<times> child) list \<Rightarrow> (label_values \<times> child) list \<Rightarrow> (label_values \<times> child) list" where
  "merge_children acc cs =
     fold (\<lambda>(lv, c) acc. case map_of acc lv of
                           None \<Rightarrow> acc @ [(lv, c)]
                         | Some d \<Rightarrow> AList.update lv (child_add d c) acc) cs acc"

definition merge_family :: "family \<Rightarrow> family \<Rightarrow> family" where
  "merge_family f g = f\<lparr>fam_children := merge_children (fam_children f) (fam_children g)\<rparr>"

text \<open>
  The merged metrics of the workers, which all registered the same families: the
  first worker's families, with the children of the others added in.
\<close>

fun multiprocess_collect :: "registry list \<Rightarrow> registry" where
  "multiprocess_collect [] = []"
| "multiprocess_collect (r # rs) = fold (\<lambda>r' acc. map2 merge_family acc r') rs r"

text \<open>What a scrape reports: the merged families that have at least one sample.\<close>

definition multiprocess_render :: "registry list \<Rightarrow> (string \<times> sample list) list" where
  "multiprocess_render ws = render (filter (\<lambda>f. fam_children f \<noteq> []) (multiprocess_collect ws))"

text \<open>The merged child of one tuple, from the children the two sides have of it.\<close>

fun child_opt_add :: "child option \<Rightarrow> child option \<Rightarrow> child option" where
  "child_opt_add None y = y"
| "child_opt_add x None = x"
| "child_opt_add (Some a) (Some b) = Some (child_add a b)"

text \<open>The child a fresh tuple has after the durations \<open>ds\<close>: none when there are none.\<close>

definition absorbed :: "kind \<Rightarrow> seconds list \<Rightarrow> child option" where
  "absorbed k ds = (if ds = [] then None else Some (fold (observe_child k) ds (new_child k)))"

section \<open>Adding children\<close>

lemma map2_plus_observe_buckets:
  "length cs = length ds \<Longrightarrow>
     map2 (+) cs (observe_buckets v bs ds) = observe_buckets v bs (map2 (+) cs ds)"
proof (induction bs arbitrary: cs ds)
  case Nil
  then show ?case by simp
next
  case (Cons b bs)
  then show ?case by (cases ds; cases cs) auto
qed

lemma map2_plus_replicate_0:
  "length cs = n \<Longrightarrow> map2 (+) cs (replicate n (0::nat)) = cs"
  by (induction cs arbitrary: n) auto

text \<open>Adding a fitting child commutes with observing into the other one.\<close>

lemma child_add_observe:
  "child_fits k a \<Longrightarrow> child_fits k d \<Longrightarrow>
     child_add a (observe_child k v d) = observe_child k v (child_add a d)"
  by (cases k; cases a; cases d) (simp_all add: map2_plus_observe_buckets add.assoc)

lemma child_fits_add:
  "child_fits k a \<Longrightarrow> child_fits k d \<Longrightarrow> child_fits k (child_add a d)"
  by (cases k; cases a; cases d) simp_all

lemma child_add_new:
  "child_fits k a \<Longrightarrow> child_add a (new_child k) = a"
  by (cases k; cases a) (simp_all add: map2_plus_replicate_0)

lemma child_fits_fold:
  "child_fits k c \<Longrightarrow> child_fits k (fold (observe_child k) xs c)"
  by (induction xs arbitrary: c) simp_all

lemma child_add_fold:
  assumes "child_fits k a"
  shows "child_add a (fold (observe_child k) ys (new_child k)) = fold (observe_child k) ys a"
proof -
  have "child_fits k d \<Longrightarrow> child_add a (fold (observe_child k) ys d) = fold (observe_child k) ys (child_add a d)"
    for d
    using assms by (induction ys arbitrary: d) (simp_all add: child_add_observe child_fits_add)
  then show ?thesis
    using assms by (simp add: child_add_new)
qed

text \<open>Two workers' children of one tuple add up to the child of all their observations.\<close>

lemma child_add_folds:
  "child_add (fold (observe_child k) xs (new_child k)) (fold (observe_child k) ys (new_child k)) =
     fold (observe_child k) (xs @ ys) (new_child k)"
  by (simp add: child_add_fold child_fits_fold)

lemma child_opt_add_absorbed:
  "child_opt_add (absorbed k xs) (absorbed k ys) = absorbed k (xs @ ys)"
  by (simp add: absorbed_def child_add_folds)

section \<open>Merging children and registries\<close>

lemma map_of_merge_step:
  "map_of (case map_of acc lv of None \<Rightarrow> acc @ [(lv, c)] | Some d \<Rightarrow> AList.update lv (child_add d c) acc) =
     (map_of acc)(lv \<mapsto> (case map_of acc lv of None \<Rightarrow> c | Some d \<Rightarrow> child_add d c))"
  by (cases "map_of acc lv") (auto simp: map_of_append update_conv' map_add_def fun_eq_iff split: option.split)

lemma map_of_merge_children:
  "distinct (map fst cs) \<Longrightarrow>
     map_of (merge_children acc cs) lv = child_opt_add (map_of acc lv) (map_of cs lv)"
proof (induction cs arbitrary: acc)
  case Nil
  then show ?case by (cases "map_of acc lv") (simp_all add: merge_children_def)
next
  case (Cons p cs)
  obtain lv' c where p: "p = (lv', c)" by fastforce
  let ?acc' = "case map_of acc lv' of None \<Rightarrow> acc @ [(lv', c)] | Some d \<Rightarrow> AList.update lv' (child_add d c) acc"
  have "merge_children acc (p # cs) = merge_children ?acc' cs"
    by (simp add: merge_children_def p)
  then have "map_of (merge_children acc (p # cs)) lv = child_opt_add (map_of ?acc' lv) (map_of cs lv)"
    using Cons.IH Cons.prems by simp
  also have "\<dots> = child_opt_add (((map_of acc)(lv' \<mapsto> (case map_of acc lv' of None \<Rightarrow> c | Some d \<Rightarrow> child_add d c))) lv)
                    (map_of cs lv)"
    by (simp only: map_of_merge_step)
  finally have eq: "map_of (merge_children acc (p # cs)) lv = \<dots>" .
  have "map_of cs lv' = None"
    using Cons.prems p by (simp add: map_of_eq_None_iff)
  with eq p show ?case
    by (cases "lv = lv'"; cases "map_of acc lv'") simp_all
qed

lemma merge_family_meta [simp]:
  "fam_name (merge_family f g) = fam_name f"
  "fam_labelnames (merge_family f g) = fam_labelnames f"
  "fam_kind (merge_family f g) = fam_kind f"
  by (simp_all add: merge_family_def)

lemma length_multiprocess_collect:
  "\<forall>r' \<in> set rs. length r' = length r \<Longrightarrow> length (multiprocess_collect (r # rs)) = length r"
  by (induction rs arbitrary: r) simp_all

lemma multiprocess_collect_nth:
  "\<forall>r' \<in> set rs. length r' = length r \<Longrightarrow> i < length r \<Longrightarrow>
     multiprocess_collect (r # rs) ! i = fold (\<lambda>r' f. merge_family f (r' ! i)) rs (r ! i)"
  by (induction rs arbitrary: r) simp_all

lemma fold_merge_family_meta:
  "fam_name (fold (\<lambda>r' f. merge_family f (r' ! i)) rs f) = fam_name f \<and>
   fam_labelnames (fold (\<lambda>r' f. merge_family f (r' ! i)) rs f) = fam_labelnames f \<and>
   fam_kind (fold (\<lambda>r' f. merge_family f (r' ! i)) rs f) = fam_kind f"
  by (induction rs arbitrary: f) simp_all

lemma map_of_fold_merge_family:
  "\<forall>r' \<in> set rs. distinct (map fst (fam_children (r' ! i))) \<Longrightarrow>
     map_of (fam_children (fold (\<lambda>r' f. merge_family f (r' ! i)) rs f)) lv =
       fold (\<lambda>r' co. child_opt_add co (map_of (fam_children (r' ! i)) lv)) rs (map_of (fam_children f) lv)"
  by (induction rs arbitrary: f) (simp_all add: merge_family_def map_of_merge_children)

text \<open>Observations keep the tuples of a family's children distinct.\<close>

lemma distinct_keys_observe_labelled:
  "distinct (map fst (fam_children f)) \<Longrightarrow> distinct (map fst (fam_children (observe_labelled lv v f)))"
  by (auto simp: observe_labelled_def get_or_create_child_def Let_def intro!: AList.distinct_map_entry)

lemma distinct_keys_fold_obs_step:
  assumes "\<forall>f \<in> set r. distinct (map fst (fam_children f))"
  shows "\<forall>f \<in> set (fold (obs_step c) es r). distinct (map fst (fam_children f))"
  using assms
proof (induction es arbitrary: r)
  case Nil
  then show ?case by simp
next
  case (Cons e es)
  have "\<forall>f \<in> set (obs_step c e r). distinct (map fst (fam_children f))"
  proof (cases "fst (obs_target c e) < length r")
    case True
    then show ?thesis
      using Cons.prems
      by (auto simp: obs_step_def split_def Let_def dest!: set_update_subset_insert [THEN subsetD]
          intro: distinct_keys_observe_labelled)
  next
    case False
    then show ?thesis
      using Cons.prems by (simp add: obs_step_def split_def Let_def list_update_beyond)
  qed
  then show ?case using Cons.IH by simp
qed

section \<open>The merged metrics keep the collector invariant\<close>

lemma set_alist_update:
  "x \<in> set (AList.update k v al) \<Longrightarrow> x = (k, v) \<or> x \<in> set al"
  by (induction al) (auto split: if_splits)

lemma keys_merge_children:
  "fst ` set (merge_children acc cs) = fst ` set acc \<union> fst ` set cs"
proof (induction cs arbitrary: acc)
  case Nil
  then show ?case by (simp add: merge_children_def)
next
  case (Cons p cs)
  obtain lv c where p: "p = (lv, c)" by fastforce
  let ?acc' = "case map_of acc lv of None \<Rightarrow> acc @ [(lv, c)] | Some d \<Rightarrow> AList.update lv (child_add d c) acc"
  have "merge_children acc (p # cs) = merge_children ?acc' cs"
    by (simp add: merge_children_def p)
  moreover have "fst ` set ?acc' = insert lv (fst ` set acc)"
    by (cases "map_of acc lv") (auto simp: AList.dom_update dest: map_of_SomeD)
  ultimately show ?case
    using Cons.IH p by auto
qed

text \<open>A label tuple some worker has a child of is a tuple of the merged family.\<close>

lemma keys_fold_merge_family:
  "fst ` set (fam_children (fold (\<lambda>r' f. merge_family f (r' ! i)) rs f)) =
     fst ` set (fam_children f) \<union> (\<Union>r' \<in> set rs. fst ` set (fam_children (r' ! i)))"
  by (induction rs arbitrary: f) (auto simp: merge_family_def keys_merge_children)

lemma distinct_merge_children:
  "distinct (map fst acc) \<Longrightarrow> distinct (map fst (merge_children acc cs))"
proof (induction cs arbitrary: acc)
  case Nil
  then show ?case by (simp add: merge_children_def)
next
  case (Cons p cs)
  obtain lv c where p: "p = (lv, c)" by fastforce
  let ?acc' = "case map_of acc lv of None \<Rightarrow> acc @ [(lv, c)] | Some d \<Rightarrow> AList.update lv (child_add d c) acc"
  have "merge_children acc (p # cs) = merge_children ?acc' cs"
    by (simp add: merge_children_def p)
  moreover have "distinct (map fst ?acc')"
  proof (cases "map_of acc lv")
    case None
    then have "lv \<notin> fst ` set acc"
      by (simp add: map_of_eq_None_iff)
    with None Cons.prems show ?thesis by simp
  next
    case (Some d)
    with Cons.prems show ?thesis by (simp add: AList.distinct_update)
  qed
  ultimately show ?case
    using Cons.IH by simp
qed

text \<open>A property of the children that adding preserves holds of every merged child.\<close>

lemma merge_children_all:
  assumes "\<forall>(lv, c) \<in> set acc. P lv c" and "\<forall>(lv, c) \<in> set cs. P lv c"
    and "\<And>lv c d. P lv c \<Longrightarrow> P lv d \<Longrightarrow> P lv (child_add d c)"
  shows "\<forall>(lv, c) \<in> set (merge_children acc cs). P lv c"
  using assms(1,2)
proof (induction cs arbitrary: acc)
  case Nil
  then show ?case by (simp add: merge_children_def)
next
  case (Cons p cs)
  obtain lv c where p: "p = (lv, c)" by fastforce
  let ?acc' = "case map_of acc lv of None \<Rightarrow> acc @ [(lv, c)] | Some d \<Rightarrow> AList.update lv (child_add d c) acc"
  have "merge_children acc (p # cs) = merge_children ?acc' cs"
    by (simp add: merge_children_def p)
  moreover have "\<forall>(lv', c') \<in> set ?acc'. P lv' c'"
  proof (cases "map_of acc lv")
    case None
    then show ?thesis using Cons.prems p by auto
  next
    case (Some d)
    then have "P lv d" using Cons.prems(1) by (auto dest: map_of_SomeD)
    then have "P lv (child_add d c)" using Cons.prems(2) p assms(3) by auto
    with Some Cons.prems(1) show ?thesis
      by (auto dest!: set_alist_update)
  qed
  ultimately show ?case
    using Cons.IH Cons.prems(2) by simp
qed

lemma family_wf_merge_family:
  assumes f: "family_wf f" and g: "family_wf g"
    and ln: "fam_labelnames g = fam_labelnames f" and k: "fam_kind g = fam_kind f"
  shows "family_wf (merge_family f g)"
proof -
  let ?P = "\<lambda>lv c. length lv = length (fam_labelnames f) \<and> child_fits (fam_kind f) c"
  have "\<forall>(lv, c) \<in> set (merge_children (fam_children f) (fam_children g)). ?P lv c"
    by (rule merge_children_all) (use f g ln k in \<open>auto simp: family_wf_def child_fits_add\<close>)
  moreover have "distinct (map fst (merge_children (fam_children f) (fam_children g)))"
    using f by (simp add: family_wf_def distinct_merge_children)
  ultimately show ?thesis
    using f by (simp add: family_wf_def merge_family_def)
qed

lemma designates_map2_merge:
  assumes "designates r i lns k" and "designates r' i lns k" and "length r' = length r"
  shows "designates (map2 merge_family r r') i lns k"
  using assms family_wf_merge_family [of "r ! i" "r' ! i"] by (simp add: designates_def)

lemma collector_wf_map2_merge:
  "collector_wf c r \<Longrightarrow> collector_wf c r' \<Longrightarrow> length r' = length r \<Longrightarrow>
     collector_wf c (map2 merge_family r r')"
  by (simp add: collector_wf_def designates_map2_merge)

text \<open>The merged metrics of workers that all satisfy the collector invariant satisfy it.\<close>

lemma collector_wf_multiprocess_collect:
  "collector_wf c r \<Longrightarrow> \<forall>r' \<in> set rs. collector_wf c r' \<and> length r' = length r \<Longrightarrow>
     collector_wf c (multiprocess_collect (r # rs))"
proof (induction rs arbitrary: r)
  case Nil
  then show ?case by simp
next
  case (Cons r' rs)
  have "multiprocess_collect (r # r' # rs) = multiprocess_collect (map2 merge_family r r' # rs)"
    by simp
  moreover have "collector_wf c (map2 merge_family r r')"
    using Cons.prems by (simp add: collector_wf_map2_merge)
  ultimately show ?case
    using Cons.IH Cons.prems by simp
qed

section \<open>The merge refines a single process\<close>

text \<open>The durations of a run aimed at one tuple of one family position.\<close>

abbreviation obs_durations :: "metric_collector \<Rightarrow> nat \<Rightarrow> label_values \<Rightarrow> obs_event list \<Rightarrow> seconds list" where
  "obs_durations c i lv es \<equiv> map (snd \<circ> snd) (filter (\<lambda>(i', lv', d). i' = i \<and> lv' = lv) (map (obs_target c) es))"

lemma obs_durations_concat:
  "obs_durations c i lv (concat ess) = concat (map (obs_durations c i lv) ess)"
  by (induction ess) simp_all

lemma worker_child:
  assumes wf: "collector_wf c reg0" and fresh: "\<forall>f \<in> set reg0. fam_children f = []" and i: "i < length reg0"
  shows "map_of (fam_children (fold (obs_step c) es reg0 ! i)) lv = absorbed (fam_kind (reg0 ! i)) (obs_durations c i lv es)"
proof -
  have "map_of (fam_children (reg0 ! i)) lv = None"
    using fresh i by simp
  then show ?thesis
    using fold_obs_step_nth [OF wf i, of es lv] by (simp add: fold_observe_None absorbed_def)
qed

lemma fold_child_opt_add_absorbed:
  "fold (\<lambda>x co. child_opt_add co (absorbed k (D x))) xs (absorbed k ys) = absorbed k (ys @ concat (map D xs))"
  by (induction xs arbitrary: ys) (simp_all add: child_opt_add_absorbed)

lemma order_mgmt_fresh:
  "\<forall>f \<in> set (snd (newCollector ''order-mgmt'' [])). fam_children f = []"
  using service_name_ok collector_names_ok [OF service_name_ok]
  by (simp add: newCollector_unfold)

lemma merge_workers_view:
  assumes wf: "collector_wf c reg0" and fresh: "\<forall>f \<in> set reg0. fam_children f = []" and ne: "ess \<noteq> []"
  shows "registry_view (multiprocess_collect (map (\<lambda>es. fold (obs_step c) es reg0) ess)) =
         registry_view (fold (obs_step c) (concat ess) reg0)"
proof -
  obtain es1 ess' where ess: "ess = es1 # ess'"
    using ne by (cases ess) auto
  let ?W = "\<lambda>es. fold (obs_step c) es reg0"
  have len: "\<forall>r' \<in> set (map ?W ess'). length r' = length (?W es1)"
    by simp
  have dk: "\<forall>f \<in> set (?W es). distinct (map fst (fam_children f))" for es
    using distinct_keys_fold_obs_step [of reg0 c es] fresh by simp
  have lm: "length (multiprocess_collect (map ?W ess)) = length reg0"
    using length_multiprocess_collect [OF len] by (simp add: ess)
  show ?thesis
  proof (rule nth_equalityI)
    show "length (registry_view (multiprocess_collect (map ?W ess))) = length (registry_view (?W (concat ess)))"
      using lm by (simp add: registry_view_def)
  next
    fix i
    assume "i < length (registry_view (multiprocess_collect (map ?W ess)))"
    then have i: "i < length reg0"
      using lm by (simp add: registry_view_def)
    let ?k = "fam_kind (reg0 ! i)"
    let ?m = "multiprocess_collect (map ?W ess) ! i"
    have m: "?m = fold (\<lambda>r' f. merge_family f (r' ! i)) (map ?W ess') (?W es1 ! i)"
      using multiprocess_collect_nth [OF len] i by (simp add: ess)
    have meta: "fam_name ?m = fam_name (reg0 ! i) \<and> fam_labelnames ?m = fam_labelnames (reg0 ! i) \<and>
                fam_kind ?m = ?k"
      using m fold_merge_family_meta [of i "map ?W ess'" "?W es1 ! i"] fold_obs_step_nth [OF wf i, of es1]
      by simp
    have dki: "\<forall>r' \<in> set (map ?W ess'). distinct (map fst (fam_children (r' ! i)))"
    proof
      fix r' assume "r' \<in> set (map ?W ess')"
      then obtain es where "r' = ?W es" by auto
      moreover have "?W es ! i \<in> set (?W es)"
        using i by simp
      ultimately show "distinct (map fst (fam_children (r' ! i)))"
        using dk [of es] by blast
    qed
    have ch: "map_of (fam_children ?m) lv = map_of (fam_children (?W (concat ess) ! i)) lv" for lv
    proof -
      have "map_of (fam_children ?m) lv =
              fold (\<lambda>es co. child_opt_add co (absorbed ?k (obs_durations c i lv es))) ess'
                (absorbed ?k (obs_durations c i lv es1))"
        using map_of_fold_merge_family [OF dki, of "?W es1 ! i" lv] m
        by (simp add: fold_map comp_def worker_child [OF wf fresh i])
      also have "\<dots> = absorbed ?k (obs_durations c i lv (concat ess))"
        unfolding ess obs_durations_concat by (simp add: fold_child_opt_add_absorbed)
      also have "\<dots> = map_of (fam_children (?W (concat ess) ! i)) lv"
        by (simp add: worker_child [OF wf fresh i])
      finally show ?thesis .
    qed
    have "fam_name (?W (concat ess) ! i) = fam_name (reg0 ! i) \<and>
          fam_labelnames (?W (concat ess) ! i) = fam_labelnames (reg0 ! i) \<and> fam_kind (?W (concat ess) ! i) = ?k"
      using fold_obs_step_nth [OF wf i, of "concat ess"] by simp
    with meta ch i lm show "registry_view (multiprocess_collect (map ?W ess)) ! i = registry_view (?W (concat ess)) ! i"
      by (simp add: registry_view_nth fun_eq_iff)
  qed
qed

text \<open>
  Under a multi-process server, whatever observations each worker made (each
  starting from the freshly registered families), the merged metrics a scrape reads
  have the lookup view of one process that made all of them: every family keeps its
  name, label names and kind, and every label tuple's child is the one the
  concatenated observations give. No worker's observation is lost or counted twice.
\<close>

theorem multiprocess_refines:
  assumes wf: "collector_wf c reg0" and fresh: "\<forall>f \<in> set reg0. fam_children f = []" and ne: "ess \<noteq> []"
  shows "registry_view (multiprocess_collect (map (\<lambda>es. fold (obs_step c) es reg0) ess)) =
         registry_view (fold (obs_step c) (concat ess) reg0)"
  using assms by (rule merge_workers_view)

theorem multiprocess_refines_witness:
  "registry_view (multiprocess_collect
      [fold (obs_step \<lparr>mc_me = 0, mc_db = 1, mc_external = 2\<rparr>) [ObsDb ''0'' ''0'' (3/10), ObsMyself ''/complex'' ''GET'' 200 (1/2)] (snd (newCollector ''order-mgmt'' [])),
       fold (obs_step \<lparr>mc_me = 0, mc_db = 1, mc_external = 2\<rparr>) [ObsDb ''0'' ''0'' (1/5)] (snd (newCollector ''order-mgmt'' []))]) =
   registry_view (fold (obs_step \<lparr>mc_me = 0, mc_db = 1, mc_external = 2\<rparr>) ([ObsDb ''0'' ''0'' (3/10), ObsMyself ''/complex'' ''GET'' 200 (1/2)] @ [ObsDb ''0'' ''0'' (1/5)]) (snd (newCollector ''order-mgmt'' [])))"
  using multiprocess_refines [OF conjunct2 [OF order_mgmt_collector] order_mgmt_fresh, of "[[ObsDb ''0'' ''0'' (3/10), ObsMyself ''/complex'' ''GET'' 200 (1/2)], [ObsDb ''0'' ''0'' (1/5)]]"]
  by simp

end
