(* ===== verification/App.thy ===== *)
theory App
  imports Handlers Multiprocess
begin

text \<open>
  The assembled application: the URL rules of \<open>add_routes\<close> and
  \<open>add_metrics_route\<close>, the metrics view, the request interceptor of
  \<open>instrument_requests\<close> and \<open>get_app\<close> (src/src/main.py lines 57-66, 136-178),
  placed in the request pipeline Flask runs for every request: the before-request
  hook, routing and dispatch to the view, conversion of an escaping exception into a
  500 response, and the after-request hook.
\<close>

record request =
  req_path :: string
  req_method :: string
  req_args :: query_args

datatype route = RHello | RWorld | RComplex | RMetrics

text \<open>
  The deployment mode: whether \<open>PROMETHEUS_MULTIPROC_DIR\<close> names a directory, as a
  multi-process server sets up, and then the metrics the other worker processes have
  written there. Running \<open>main.py\<close> directly leaves it unset.
\<close>

datatype deploy_mode = SingleProcess | MultiProcess "registry list"

record app =
  app_collector :: metric_collector
  app_mode :: deploy_mode

text \<open>The rules of \<open>add_routes\<close>: exact paths, no trailing slash accepted.\<close>

definition add_routes_rule :: "string \<Rightarrow> route option" where
  "add_routes_rule p =
     (if p = ''/hello'' then Some RHello
      else if p = ''/world'' then Some RWorld
      else if p = ''/complex'' then Some RComplex
      else None)"

text \<open>\<open>@app.route('/metrics', strict_slashes=False)\<close>: with or without the slash.\<close>

definition metrics_rule :: "string \<Rightarrow> bool" where
  "metrics_rule p \<longleftrightarrow> p = ''/metrics'' \<or> p = ''/metrics/''"

definition match_route :: "string \<Rightarrow> route option" where
  "match_route p =
     (case add_routes_rule p of
        Some r \<Rightarrow> Some r
      | None \<Rightarrow> if metrics_rule p then Some RMetrics else None)"

text \<open>
  \<open>get_latest_when_running_with_gunicorn\<close>: a fresh registry with a
  \<open>MultiProcessCollector\<close>, which refuses to be built when the multi-process
  directory is not configured; otherwise the merged samples of this worker's metrics
  and those of the other workers.
\<close>

definition get_latest_when_running_with_gunicorn ::
  "deploy_mode \<Rightarrow> registry \<Rightarrow> py_exc + (string \<times> sample list) list" where
  "get_latest_when_running_with_gunicorn mode reg =
     (case mode of
        SingleProcess \<Rightarrow> Inl (ValueError ''env PROMETHEUS_MULTIPROC_DIR is not set or not a directory'')
      | MultiProcess peers \<Rightarrow> Inr (multiprocess_render (reg # peers)))"

definition metrics_rotue :: "deploy_mode \<Rightarrow> registry \<Rightarrow> py_exc + response" where
  "metrics_rotue mode reg =
     (case get_latest_when_running_with_gunicorn mode reg of
        Inl e \<Rightarrow> Inl e
      | Inr txt \<Rightarrow> Inr \<lparr>resp_status = 200, resp_body = Exposition txt, resp_mimetype = ''text/plain''\<rparr>)"

definition error_response :: "nat \<Rightarrow> response" where
  "error_response code = \<lparr>resp_status = code, resp_body = ErrorPage code, resp_mimetype = ''text/html''\<rparr>"

definition options_response :: response where
  "options_response = \<lparr>resp_status = 200, resp_body = Text [], resp_mimetype = ''text/html''\<rparr>"

text \<open>
  Flask's \<open>dispatch_request\<close>: an unknown path is 404, a method the rule does not
  allow is 405, \<open>OPTIONS\<close> is answered automatically, \<open>GET\<close> and \<open>HEAD\<close> run the
  view.
\<close>

definition dispatch_request :: "app \<Rightarrow> request \<Rightarrow> app_state \<Rightarrow> (py_exc + response) \<times> app_state" where
  "dispatch_request a r st =
     (case match_route (req_path r) of
        None \<Rightarrow> (Inr (error_response 404), st)
      | Some rt \<Rightarrow>
          if req_method r = ''OPTIONS'' then (Inr options_response, st)
          else if req_method r \<noteq> ''GET'' \<and> req_method r \<noteq> ''HEAD'' then (Inr (error_response 405), st)
          else (case rt of
                  RHello \<Rightarrow> (Inr hello_route, st)
                | RWorld \<Rightarrow> (Inr world_route, st)
                | RComplex \<Rightarrow> complex_operation (app_collector a) (req_args r) st
                | RMetrics \<Rightarrow> (metrics_rotue (app_mode a) (st_registry st), st)))"

text \<open>\<open>before()\<close>: \<open>request.start_time = time.time()\<close>.\<close>

definition before :: "app_state \<Rightarrow> seconds \<times> app_state" where
  "before st = (let (t, clk) = time_time (st_clock st) in (t, st\<lparr>st_clock := clk\<rparr>))"

text \<open>
  \<open>after(response)\<close>: unless the path is \<open>/metrics\<close>, observe the request's
  latency under its path, method and the response's status code.
\<close>

definition after ::
  "metric_collector \<Rightarrow> request \<Rightarrow> seconds \<Rightarrow> response \<Rightarrow> app_state \<Rightarrow> (py_exc + response) \<times> app_state" where
  "after c r start_time resp st =
     (if req_path r \<noteq> ''/metrics''
      then (let (t, clk) = time_time (st_clock st); st1 = st\<lparr>st_clock := clk\<rparr> in
            case observe_myself c (req_path r) (req_method r) (resp_status resp) (t - start_time)
                   (st_registry st1) of
              Inl e \<Rightarrow> (Inl e, st1)
            | Inr reg \<Rightarrow> (Inr resp, st1\<lparr>st_registry := reg\<rparr>))
      else (Inr resp, st))"

text \<open>
  The hooks a Flask application runs around every request, as
  \<open>app.before_request\<close> and \<open>app.after_request\<close> register them.
\<close>

record hooks =
  before_request :: "app_state \<Rightarrow> seconds \<times> app_state"
  after_request :: "request \<Rightarrow> seconds \<Rightarrow> response \<Rightarrow> app_state \<Rightarrow> (py_exc + response) \<times> app_state"

text \<open>
  \<open>instrument_requests(app, collector)\<close>: define \<open>before\<close> and \<open>after\<close> over the
  collector and register them as the application's hooks.
\<close>

definition instrument_requests :: "metric_collector \<Rightarrow> hooks" where
  "instrument_requests collector = \<lparr>before_request = before, after_request = after collector\<rparr>"

text \<open>
  Flask's \<open>finalize_request\<close> after an error handler: the after-request hook runs
  on the 500 response; an exception in it is logged and the response returned.
\<close>

definition finalize_error ::
  "metric_collector \<Rightarrow> request \<Rightarrow> seconds \<Rightarrow> app_state \<Rightarrow> response \<times> app_state" where
  "finalize_error c r start_time st =
     (case after_request (instrument_requests c) r start_time (error_response 500) st of
        (Inr resp, st') \<Rightarrow> (resp, st')
      | (Inl _, st') \<Rightarrow> (error_response 500, st'))"

text \<open>
  One request through \<open>wsgi_app\<close>: the before hook, dispatch, and
  \<open>finalize_request\<close>; an exception escaping the view, or the after hook on a normal
  response, becomes \<open>InternalServerError\<close> and is finalized as an error.
\<close>

definition handle_request :: "app \<Rightarrow> request \<Rightarrow> app_state \<Rightarrow> response \<times> app_state" where
  "handle_request a r st =
     (let h = instrument_requests (app_collector a); (start_time, st1) = before_request h st in
      case dispatch_request a r st1 of
        (Inl _, st2) \<Rightarrow> finalize_error (app_collector a) r start_time st2
      | (Inr resp, st2) \<Rightarrow>
          (case after_request h r start_time resp st2 of
             (Inr resp', st3) \<Rightarrow> (resp', st3)
           | (Inl _, st3) \<Rightarrow> finalize_error (app_collector a) r start_time st3))"

text \<open>The server handling requests one after the other.\<close>

fun serve :: "app \<Rightarrow> request list \<Rightarrow> app_state \<Rightarrow> response list \<times> app_state" where
  "serve a [] st = ([], st)"
| "serve a (r # rs) st =
     (let (resp, st1) = handle_request a r st; (resps, st2) = serve a rs st1 in (resp # resps, st2))"

text \<open>
  \<open>get_app()\<close>: create the collector for \<open>order-mgmt\<close> in the default registry;
  registering the routes and hooks is the fixed pipeline above.
\<close>

definition get_app :: "deploy_mode \<Rightarrow> registry \<Rightarrow> (py_exc + app) \<times> registry" where
  "get_app mode reg =
     (case get_collector ''order-mgmt'' reg of
        (Inl e, reg') \<Rightarrow> (Inl e, reg')
      | (Inr c, reg') \<Rightarrow> (Inr \<lparr>app_collector = c, app_mode = mode\<rparr>, reg'))"

text \<open>
  The states the running service can reach: the state right after \<open>get_app\<close> on a
  fresh registry, any request handled, and any change of the wall clock by the
  environment between requests.
\<close>

inductive reachable :: "app \<Rightarrow> app_state \<Rightarrow> bool" where
  start: "get_app mode [] = (Inr a, reg) \<Longrightarrow> reachable a \<lparr>st_registry = reg, st_clock = clk\<rparr>"
| step: "reachable a st \<Longrightarrow> reachable a (snd (handle_request a r st))"
| tick: "reachable a st \<Longrightarrow> reachable a (st\<lparr>st_clock := clk\<rparr>)"

section \<open>The pipeline, step by step\<close>

lemma before_eq:
  "before st = (fst (time_time (st_clock st)), st\<lparr>st_clock := snd (time_time (st_clock st))\<rparr>)"
  by (simp add: before_def split_def Let_def)

lemma match_route_metrics [simp]:
  "match_route ''/metrics'' = Some RMetrics" "match_route ''/metrics/'' = Some RMetrics"
  by (simp_all add: match_route_def add_routes_rule_def metrics_rule_def)

lemma dispatch_request_wf [wf_simps]:
  "collector_wf (app_collector a) (st_registry st) \<Longrightarrow>
     collector_wf (app_collector a) (st_registry (snd (dispatch_request a r st)))"
  by (auto simp: dispatch_request_def complex_operation_wf split: option.split route.split)

text \<open>Only \<open>/complex\<close> changes the process state during dispatch.\<close>

lemma dispatch_request_state:
  "match_route (req_path r) \<noteq> Some RComplex \<Longrightarrow> snd (dispatch_request a r st) = st"
  by (auto simp: dispatch_request_def split: option.split route.split)

lemma after_metrics [simp]:
  "req_path r = ''/metrics'' \<Longrightarrow> after c r t resp st = (Inr resp, st)"
  by (simp add: after_def)

lemma after_observed:
  assumes "collector_wf c (st_registry st)" and "req_path r \<noteq> ''/metrics''"
  shows "after c r t resp st =
    (Inr resp, st\<lparr>st_clock := snd (time_time (st_clock st)),
       st_registry := obs_step c (ObsMyself (req_path r) (req_method r) (resp_status resp)
                                  (fst (time_time (st_clock st)) - t)) (st_registry st)\<rparr>)"
  using assms by (simp add: after_def observe_myself_eq obs_step_def split_def Let_def)

lemma after_Inr:
  "collector_wf c (st_registry st) \<Longrightarrow> fst (after c r t resp st) = Inr resp"
  by (cases "req_path r = ''/metrics''") (simp_all add: after_observed)

lemma after_wf [wf_simps]:
  "collector_wf c (st_registry st) \<Longrightarrow> collector_wf c (st_registry (snd (after c r t resp st)))"
  by (cases "req_path r = ''/metrics''") (simp_all add: after_observed collector_wf_obs_step)

text \<open>
  With the invariant, the after hook never raises, so a request's response is the
  view's response, or 500 when the view raised, and its last effect is the hook's.
\<close>

lemma handle_request_wf_eq:
  assumes wf: "collector_wf (app_collector a) (st_registry st)"
  shows "handle_request a r st =
    (let resp = (case fst (dispatch_request a r (snd (before st))) of Inr x \<Rightarrow> x | Inl _ \<Rightarrow> error_response 500)
     in (resp, snd (after (app_collector a) r (fst (before st)) resp (snd (dispatch_request a r (snd (before st)))))))"
proof -
  let ?st1 = "snd (before st)"
  let ?st2 = "snd (dispatch_request a r ?st1)"
  have "collector_wf (app_collector a) (st_registry ?st1)"
    using wf by (simp add: before_eq)
  then have wf2: "collector_wf (app_collector a) (st_registry ?st2)"
    by (rule dispatch_request_wf)
  show ?thesis
    using after_Inr [OF wf2]
    by (auto simp: handle_request_def finalize_error_def instrument_requests_def split_def Let_def split: sum.split prod.split)
qed

lemma handle_request_wf [wf_simps]:
  "collector_wf (app_collector a) (st_registry st) \<Longrightarrow>
     collector_wf (app_collector a) (st_registry (snd (handle_request a r st)))"
  by (simp add: handle_request_wf_eq Let_def after_wf dispatch_request_wf before_eq)

lemma serve_wf:
  "collector_wf (app_collector a) (st_registry st) \<Longrightarrow>
     collector_wf (app_collector a) (st_registry (snd (serve a rs st)))"
  by (induction rs arbitrary: st) (simp_all add: split_def Let_def handle_request_wf)

lemma handle_request_metrics_registry:
  "req_path r = ''/metrics'' \<Longrightarrow> st_registry (snd (handle_request a r st)) = st_registry st"
  by (simp add: handle_request_def instrument_requests_def before_eq Let_def dispatch_request_state finalize_error_def split_def
      split: sum.split prod.split)

lemma get_app_fresh:
  "get_app mode [] = (Inr a, reg) \<Longrightarrow>
     a = \<lparr>app_collector = \<lparr>mc_me = 0, mc_db = 1, mc_external = 2\<rparr>, app_mode = mode\<rparr> \<and>
     reg = snd (newCollector ''order-mgmt'' [])"
  using order_mgmt_collector by (auto simp: get_app_def get_collector_def split: prod.splits sum.splits)

lemma get_app_order_mgmt:
  "get_app mode [] = (Inr \<lparr>app_collector = \<lparr>mc_me = 0, mc_db = 1, mc_external = 2\<rparr>, app_mode = mode\<rparr>,
                      snd (newCollector ''order-mgmt'' []))"
  using order_mgmt_collector
  by (cases "newCollector ''order-mgmt'' []") (auto simp: get_app_def get_collector_def)

lemma app0_wf:
  "collector_wf (app_collector \<lparr>app_collector = \<lparr>mc_me = 0, mc_db = 1, mc_external = 2\<rparr>, app_mode = m\<rparr>)
     (st_registry \<lparr>st_registry = snd (newCollector ''order-mgmt'' []), st_clock = clk\<rparr>)"
  using order_mgmt_collector by simp

lemma metrics_rule_route:
  "metrics_rule p \<Longrightarrow> match_route p = Some RMetrics"
  by (auto simp: metrics_rule_def)

lemma after_resp:
  "fst (after c r t resp st) = Inr resp' \<Longrightarrow> resp' = resp"
  by (auto simp: after_def split_def Let_def split: if_splits sum.splits)

lemma finalize_error_resp:
  "fst (finalize_error c r t st) = error_response 500"
  using after_resp [of c r t "error_response 500" st]
  by (auto simp: finalize_error_def instrument_requests_def split: prod.split sum.split)

lemma literal_eval_exc:
  "literal_eval s = Inl e \<Longrightarrow> (\<exists>m. e = ValueError m) \<or> (\<exists>m. e = SyntaxError m)"
  by (auto simp: literal_eval_def Let_def split: if_splits option.splits prod.splits)

lemma dispatch_before_registry:
  "match_route (req_path r) \<noteq> Some RComplex \<Longrightarrow>
     st_registry (snd (dispatch_request a r (snd (before st)))) = st_registry st"
  by (simp add: dispatch_request_state before_eq)

lemma work_with_db_bad_flag:
  "arg_float args ''db_sleep'' = Inr x \<Longrightarrow> arg_literal args ''is_db_error'' = Inl e \<Longrightarrow>
     work_with_db c args st = (Inl e, st\<lparr>st_clock := snd (time_time (st_clock st))\<rparr>)"
  by (simp add: work_with_db_def split_def Let_def)

lemma complex_bad_flag:
  assumes "arg_float args ''db_sleep'' = Inr x" and "arg_literal args ''is_db_error'' = Inl e"
  shows "complex_operation c args st = (Inl e, st\<lparr>st_clock := snd (time_time (st_clock st))\<rparr>)"
proof -
  have "(\<exists>m. e = ValueError m) \<or> (\<exists>m. e = SyntaxError m)"
    using assms(2) by (simp add: arg_literal_def literal_eval_exc)
  then show ?thesis
    using work_with_db_bad_flag [OF assms] by (auto simp: complex_operation_def catch_runtime_error_def)
qed

lemma dispatch_plain:
  "match_route (req_path r) \<noteq> Some RComplex \<Longrightarrow> match_route (req_path r) \<noteq> Some RMetrics \<Longrightarrow>
     fst (dispatch_request a r st) =
       Inr (case match_route (req_path r) of
              None \<Rightarrow> error_response 404
            | Some rt \<Rightarrow>
                if req_method r = ''OPTIONS'' then options_response
                else if req_method r \<noteq> ''GET'' \<and> req_method r \<noteq> ''HEAD'' then error_response 405
                else if rt = RHello then hello_route else world_route)"
  by (auto simp: dispatch_request_def split: option.split route.split)

text \<open>A view that raises yields the 500 response, whatever the after hook does.\<close>

lemma handle_request_view_error:
  "fst (dispatch_request a r (snd (before st))) = Inl e \<Longrightarrow> fst (handle_request a r st) = error_response 500"
  by (cases "dispatch_request a r (snd (before st))") (simp add: handle_request_def instrument_requests_def split_def Let_def finalize_error_resp)

lemma dispatch_metrics_single:
  "app_mode a = SingleProcess \<Longrightarrow> metrics_rule (req_path r) \<Longrightarrow> req_method r = ''GET'' \<Longrightarrow>
     fst (dispatch_request a r st) =
       Inl (ValueError ''env PROMETHEUS_MULTIPROC_DIR is not set or not a directory'')"
  by (simp add: dispatch_request_def metrics_rule_route metrics_rotue_def get_latest_when_running_with_gunicorn_def)

lemma handle_request_observed:
  assumes wf: "collector_wf (app_collector a) (st_registry st)" and p: "req_path r \<noteq> ''/metrics''"
  shows "\<exists>l. apply_obs_list (app_collector a)
             [ObsMyself (req_path r) (req_method r) (resp_status (fst (handle_request a r st))) l]
             (st_registry (snd (dispatch_request a r (snd (before st))))) =
           Inr (st_registry (snd (handle_request a r st)))"
proof -
  let ?st2 = "snd (dispatch_request a r (snd (before st)))"
  have wf2: "collector_wf (app_collector a) (st_registry ?st2)"
    using wf by (simp add: before_eq dispatch_request_wf)
  let ?resp = "case fst (dispatch_request a r (snd (before st))) of Inr x \<Rightarrow> x | Inl _ \<Rightarrow> error_response 500"
  let ?l = "fst (time_time (st_clock ?st2)) - fst (before st)"
  have "apply_obs_list (app_collector a) [ObsMyself (req_path r) (req_method r) (resp_status ?resp) ?l]
          (st_registry ?st2) = Inr (st_registry (snd (handle_request a r st)))"
    by (simp only: apply_obs_list_fold [OF wf2])
      (simp add: handle_request_wf_eq [OF wf] Let_def after_observed [OF wf2 p])
  moreover have "fst (handle_request a r st) = ?resp"
    by (simp add: handle_request_wf_eq [OF wf] Let_def)
  ultimately show ?thesis by auto
qed

lemma metrics_multi_process_response:
  assumes "app_mode a = MultiProcess peers" and "req_path r = ''/metrics''" and "req_method r = ''GET''"
  shows "handle_request a r st =
    (\<lparr>resp_status = 200, resp_body = Exposition (multiprocess_render (st_registry st # peers)),
      resp_mimetype = ''text/plain''\<rparr>,
     st\<lparr>st_clock := snd (time_time (st_clock st))\<rparr>)"
  using assms by (simp add: handle_request_def instrument_requests_def before_eq dispatch_request_def metrics_rotue_def
      get_latest_when_running_with_gunicorn_def)

section \<open>Properties of the service\<close>

text \<open>
  C4: the collector invariant holds in every state the service can reach: the three
  references designate registered, well-formed families with their label names and
  kinds, so no observation ever raises.
\<close>

theorem reachable_collector_wf:
  "reachable a st \<Longrightarrow> collector_wf (app_collector a) (st_registry st)"
proof (induction rule: reachable.induct)
  case (start mode a reg clk)
  then show ?case using get_app_fresh [OF start] order_mgmt_collector by simp
next
  case (step a st r)
  from step.IH show ?case by (rule handle_request_wf)
next
  case (tick a st clk)
  then show ?case by simp
qed

theorem reachable_collector_wf_witness:
  "reachable \<lparr>app_collector = \<lparr>mc_me = 0, mc_db = 1, mc_external = 2\<rparr>, app_mode = SingleProcess\<rparr>
     \<lparr>st_registry = snd (newCollector ''order-mgmt'' []), st_clock = \<lparr>now = 0, adjust = []\<rparr>\<rparr> \<and>
   collector_wf \<lparr>mc_me = 0, mc_db = 1, mc_external = 2\<rparr> (snd (newCollector ''order-mgmt'' []))"
proof -
  note get_app_order_mgmt [of SingleProcess]
  then have r: "reachable \<lparr>app_collector = \<lparr>mc_me = 0, mc_db = 1, mc_external = 2\<rparr>, app_mode = SingleProcess\<rparr>
     \<lparr>st_registry = snd (newCollector ''order-mgmt'' []), st_clock = \<lparr>now = 0, adjust = []\<rparr>\<rparr>"
    by (rule reachable.start)
  from r reachable_collector_wf [OF r] show ?thesis by simp
qed

text \<open>
  C6: however many requests are made to \<open>/metrics\<close>, with any method and in either
  deployment mode, they leave every metric unchanged: the service never records the
  latency of its own scraping.
\<close>

theorem metrics_not_observed:
  assumes "\<forall>r \<in> set rs. req_path r = ''/metrics''"
  shows "st_registry (snd (serve a rs st)) = st_registry st"
  using assms by (induction rs arbitrary: st) (simp_all add: split_def Let_def handle_request_metrics_registry)

theorem metrics_not_observed_witness:
  "st_registry (snd (serve \<lparr>app_collector = \<lparr>mc_me = 0, mc_db = 1, mc_external = 2\<rparr>, app_mode = SingleProcess\<rparr>
      [\<lparr>req_path = ''/metrics'', req_method = ''GET'', req_args = []\<rparr>,
       \<lparr>req_path = ''/metrics'', req_method = ''POST'', req_args = []\<rparr>]
      \<lparr>st_registry = snd (newCollector ''order-mgmt'' []), st_clock = \<lparr>now = 0, adjust = []\<rparr>\<rparr>)) =
     snd (newCollector ''order-mgmt'' [])"
  using metrics_not_observed [of "[\<lparr>req_path = ''/metrics'', req_method = ''GET'', req_args = []\<rparr>,
       \<lparr>req_path = ''/metrics'', req_method = ''POST'', req_args = []\<rparr>]"
      "\<lparr>app_collector = \<lparr>mc_me = 0, mc_db = 1, mc_external = 2\<rparr>, app_mode = SingleProcess\<rparr>"
      "\<lparr>st_registry = snd (newCollector ''order-mgmt'' []), st_clock = \<lparr>now = 0, adjust = []\<rparr>\<rparr>"]
  by simp

text \<open>
  C5: every request to a path other than \<open>/metrics\<close> (unknown paths, refused
  methods and failing views included) adds exactly one self-latency observation,
  labelled with its path, its method and the status code of the response it gets, to
  the state its view left.
\<close>

theorem request_observed_once:
  assumes wf: "collector_wf (app_collector a) (st_registry st)" and p: "req_path r \<noteq> ''/metrics''"
  shows "\<exists>l. apply_obs_list (app_collector a)
             [ObsMyself (req_path r) (req_method r) (resp_status (fst (handle_request a r st))) l]
             (st_registry (snd (dispatch_request a r (snd (before st))))) =
           Inr (st_registry (snd (handle_request a r st)))"
  using wf p by (rule handle_request_observed)

theorem request_observed_once_witness:
  "collector_wf \<lparr>mc_me = 0, mc_db = 1, mc_external = 2\<rparr> (snd (newCollector ''order-mgmt'' [])) \<and>
   (\<exists>l. apply_obs_list \<lparr>mc_me = 0, mc_db = 1, mc_external = 2\<rparr>
      [ObsMyself ''/nowhere'' ''GET''
         (resp_status (fst (handle_request \<lparr>app_collector = \<lparr>mc_me = 0, mc_db = 1, mc_external = 2\<rparr>, app_mode = SingleProcess\<rparr>
            \<lparr>req_path = ''/nowhere'', req_method = ''GET'', req_args = []\<rparr>
            \<lparr>st_registry = snd (newCollector ''order-mgmt'' []), st_clock = \<lparr>now = 0, adjust = []\<rparr>\<rparr>))) l]
      (st_registry (snd (dispatch_request \<lparr>app_collector = \<lparr>mc_me = 0, mc_db = 1, mc_external = 2\<rparr>, app_mode = SingleProcess\<rparr>
            \<lparr>req_path = ''/nowhere'', req_method = ''GET'', req_args = []\<rparr>
            (snd (before \<lparr>st_registry = snd (newCollector ''order-mgmt'' []), st_clock = \<lparr>now = 0, adjust = []\<rparr>\<rparr>))))) =
      Inr (st_registry (snd (handle_request \<lparr>app_collector = \<lparr>mc_me = 0, mc_db = 1, mc_external = 2\<rparr>, app_mode = SingleProcess\<rparr>
            \<lparr>req_path = ''/nowhere'', req_method = ''GET'', req_args = []\<rparr>
            \<lparr>st_registry = snd (newCollector ''order-mgmt'' []), st_clock = \<lparr>now = 0, adjust = []\<rparr>\<rparr>))))"
  using app0_wf request_observed_once [OF app0_wf [of SingleProcess "\<lparr>now = 0, adjust = []\<rparr>"],
      where r = "\<lparr>req_path = ''/nowhere'', req_method = ''GET'', req_args = []\<rparr>"]
  by simp

text \<open>
  C21: the request interceptor never alters a response: what the client receives is
  the view's response, or the 500 page when the view raised.
\<close>

theorem response_not_altered:
  assumes wf: "collector_wf (app_collector a) (st_registry st)"
  shows "fst (handle_request a r st) =
           (case fst (dispatch_request a r (snd (before st))) of Inr resp \<Rightarrow> resp | Inl _ \<Rightarrow> error_response 500)"
  by (simp add: handle_request_wf_eq [OF wf] Let_def)

theorem response_not_altered_witness:
  "collector_wf \<lparr>mc_me = 0, mc_db = 1, mc_external = 2\<rparr> (snd (newCollector ''order-mgmt'' [])) \<and>
   fst (handle_request \<lparr>app_collector = \<lparr>mc_me = 0, mc_db = 1, mc_external = 2\<rparr>, app_mode = SingleProcess\<rparr>
        \<lparr>req_path = ''/world'', req_method = ''GET'', req_args = []\<rparr>
        \<lparr>st_registry = snd (newCollector ''order-mgmt'' []), st_clock = \<lparr>now = 0, adjust = []\<rparr>\<rparr>) =
     (case fst (dispatch_request \<lparr>app_collector = \<lparr>mc_me = 0, mc_db = 1, mc_external = 2\<rparr>, app_mode = SingleProcess\<rparr>
        \<lparr>req_path = ''/world'', req_method = ''GET'', req_args = []\<rparr>
        (snd (before \<lparr>st_registry = snd (newCollector ''order-mgmt'' []), st_clock = \<lparr>now = 0, adjust = []\<rparr>\<rparr>)))
      of Inr resp \<Rightarrow> resp | Inl _ \<Rightarrow> error_response 500)"
  using app0_wf response_not_altered [OF app0_wf [of SingleProcess "\<lparr>now = 0, adjust = []\<rparr>"],
      where r = "\<lparr>req_path = ''/world'', req_method = ''GET'', req_args = []\<rparr>"]
  by simp

text \<open>
  C17: \<open>/hello\<close> answers 200 with the HTML body \<open>hello\<close> and records one self
  observation under \<open>('/hello', 'GET', '200')\<close>; \<open>/world\<close> likewise with
  \<open>world\<close>.
\<close>

theorem hello_world_responses:
  assumes wf: "collector_wf (app_collector a) (st_registry st)"
    and p: "req_path r \<in> {''/hello'', ''/world''}" and m: "req_method r = ''GET''"
  shows "fst (handle_request a r st) = text_response (tl (req_path r)) \<and>
    (\<exists>l. apply_obs_list (app_collector a) [ObsMyself (req_path r) ''GET'' 200 l] (st_registry st) =
           Inr (st_registry (snd (handle_request a r st))))"
proof -
  have rt: "match_route (req_path r) = Some (if req_path r = ''/hello'' then RHello else RWorld)"
    using p by (auto simp: match_route_def add_routes_rule_def)
  have resp: "fst (handle_request a r st) = text_response (tl (req_path r))"
    using p m rt dispatch_plain [of r a "snd (before st)"]
    by (auto simp: handle_request_wf_eq [OF wf] Let_def hello_route_def world_route_def)
  have np: "req_path r \<noteq> ''/metrics''" and nc: "match_route (req_path r) \<noteq> Some RComplex"
    using p rt by auto
  show ?thesis
    using handle_request_observed [OF wf np] resp m dispatch_before_registry [OF nc, of a st]
    by (simp add: text_response_def)
qed

theorem hello_world_responses_witness:
  "fst (handle_request \<lparr>app_collector = \<lparr>mc_me = 0, mc_db = 1, mc_external = 2\<rparr>, app_mode = SingleProcess\<rparr>
      \<lparr>req_path = ''/hello'', req_method = ''GET'', req_args = []\<rparr>
      \<lparr>st_registry = snd (newCollector ''order-mgmt'' []), st_clock = \<lparr>now = 0, adjust = []\<rparr>\<rparr>) =
     text_response ''hello''"
  using hello_world_responses [OF app0_wf [of SingleProcess "\<lparr>now = 0, adjust = []\<rparr>"],
      where r = "\<lparr>req_path = ''/hello'', req_method = ''GET'', req_args = []\<rparr>"]
  by simp

text \<open>
  C10: run as \<open>main.py\<close> runs it, without a multi-process directory, the metrics
  endpoint cannot serve: every \<open>GET\<close> of \<open>/metrics\<close> or \<open>/metrics/\<close> gets a 500
  response, because \<open>MultiProcessCollector\<close> refuses to be built.
\<close>

theorem metrics_single_process_500:
  assumes "app_mode a = SingleProcess" and "metrics_rule (req_path r)" and "req_method r = ''GET''"
  shows "fst (handle_request a r st) = error_response 500"
  using assms by (simp add: handle_request_view_error dispatch_metrics_single)

theorem metrics_single_process_500_witness:
  "metrics_rule ''/metrics'' \<and>
   fst (handle_request \<lparr>app_collector = \<lparr>mc_me = 0, mc_db = 1, mc_external = 2\<rparr>, app_mode = SingleProcess\<rparr>
      \<lparr>req_path = ''/metrics'', req_method = ''GET'', req_args = []\<rparr> \<lparr>st_registry = snd (newCollector ''order-mgmt'' []), st_clock = \<lparr>now = 0, adjust = []\<rparr>\<rparr>) = error_response 500"
  using metrics_single_process_500 [of "\<lparr>app_collector = \<lparr>mc_me = 0, mc_db = 1, mc_external = 2\<rparr>, app_mode = SingleProcess\<rparr>"
      "\<lparr>req_path = ''/metrics'', req_method = ''GET'', req_args = []\<rparr>" "\<lparr>st_registry = snd (newCollector ''order-mgmt'' []), st_clock = \<lparr>now = 0, adjust = []\<rparr>\<rparr>"]
  by (simp add: metrics_rule_def)

text \<open>
  C18: with the multi-process directory configured, \<open>GET /metrics\<close> answers 200 with
  the \<open>text/plain\<close> exposition of the merged metrics of this worker, as they stand
  when the request arrives, and of the other workers, and changes nothing but the
  clock.
\<close>

theorem metrics_multi_process_exposition:
  assumes "app_mode a = MultiProcess peers" and "req_path r = ''/metrics''" and "req_method r = ''GET''"
  shows "handle_request a r st =
    (\<lparr>resp_status = 200, resp_body = Exposition (multiprocess_render (st_registry st # peers)),
      resp_mimetype = ''text/plain''\<rparr>,
     st\<lparr>st_clock := snd (time_time (st_clock st))\<rparr>)"
  using assms by (rule metrics_multi_process_response)

theorem metrics_multi_process_exposition_witness:
  "resp_status (fst (handle_request \<lparr>app_collector = \<lparr>mc_me = 0, mc_db = 1, mc_external = 2\<rparr>, app_mode = MultiProcess []\<rparr>
      \<lparr>req_path = ''/metrics'', req_method = ''GET'', req_args = []\<rparr> \<lparr>st_registry = snd (newCollector ''order-mgmt'' []), st_clock = \<lparr>now = 0, adjust = []\<rparr>\<rparr>)) = 200"
  using metrics_multi_process_exposition [of "\<lparr>app_collector = \<lparr>mc_me = 0, mc_db = 1, mc_external = 2\<rparr>, app_mode = MultiProcess []\<rparr>" "[]"
      "\<lparr>req_path = ''/metrics'', req_method = ''GET'', req_args = []\<rparr>" "\<lparr>st_registry = snd (newCollector ''order-mgmt'' []), st_clock = \<lparr>now = 0, adjust = []\<rparr>\<rparr>"]
  by simp

text \<open>
  The exclusion of the metrics endpoint from the self-latency channel compares the
  path with \<open>/metrics\<close> only, while the route also answers \<open>/metrics/\<close>: a request
  to \<open>/metrics/\<close> is recorded like any other, under its path, method and status.
\<close>

theorem metrics_slash_observed:
  assumes wf: "collector_wf (app_collector a) (st_registry st)" and p: "req_path r = ''/metrics/''"
  shows "\<exists>l. apply_obs_list (app_collector a)
             [ObsMyself ''/metrics/'' (req_method r) (resp_status (fst (handle_request a r st))) l]
             (st_registry st) = Inr (st_registry (snd (handle_request a r st)))"
proof -
  have np: "req_path r \<noteq> ''/metrics''" and nc: "match_route (req_path r) \<noteq> Some RComplex"
    using p by simp_all
  show ?thesis
    using handle_request_observed [OF wf np] dispatch_before_registry [OF nc, of a st] p by simp
qed

theorem metrics_slash_observed_witness:
  "\<exists>l. apply_obs_list \<lparr>mc_me = 0, mc_db = 1, mc_external = 2\<rparr> [ObsMyself ''/metrics/'' ''GET'' 500 l]
      (snd (newCollector ''order-mgmt'' [])) =
    Inr (st_registry (snd (handle_request \<lparr>app_collector = \<lparr>mc_me = 0, mc_db = 1, mc_external = 2\<rparr>, app_mode = SingleProcess\<rparr>
      \<lparr>req_path = ''/metrics/'', req_method = ''GET'', req_args = []\<rparr> \<lparr>st_registry = snd (newCollector ''order-mgmt'' []), st_clock = \<lparr>now = 0, adjust = []\<rparr>\<rparr>)))"
proof -
  have "resp_status (fst (handle_request \<lparr>app_collector = \<lparr>mc_me = 0, mc_db = 1, mc_external = 2\<rparr>, app_mode = SingleProcess\<rparr>
      \<lparr>req_path = ''/metrics/'', req_method = ''GET'', req_args = []\<rparr> \<lparr>st_registry = snd (newCollector ''order-mgmt'' []), st_clock = \<lparr>now = 0, adjust = []\<rparr>\<rparr>)) = 500"
    by (simp add: handle_request_view_error dispatch_metrics_single metrics_rule_def error_response_def)
  with metrics_slash_observed [OF app0_wf [of SingleProcess "\<lparr>now = 0, adjust = []\<rparr>"],
      where r = "\<lparr>req_path = ''/metrics/'', req_method = ''GET'', req_args = []\<rparr>"]
  show ?thesis by simp
qed

text \<open>
  C11: a flag written as a Python name other than \<open>True\<close>, \<open>False\<close> and
  \<open>None\<close>, such as \<open>is_db_error=true\<close>, makes \<open>ast.literal_eval\<close> raise, and
  \<open>/complex\<close> answers 500: the exception is neither caught by the handler nor
  recorded on the database channel, and the only observation is the self-latency one
  under status 500.
\<close>

theorem complex_unparsable_flag_500:
  assumes wf: "collector_wf (app_collector a) (st_registry st)"
    and p: "req_path r = ''/complex''" and m: "req_method r = ''GET''"
    and a1: "arg_float (req_args r) ''db_sleep'' = Inr x"
    and f: "map_of (req_args r) ''is_db_error'' = Some s"
    and n: "is_identifier s" and k: "s \<notin> {''True'', ''False'', ''None''}"
  shows "fst (handle_request a r st) = error_response 500 \<and>
    (\<exists>l. apply_obs_list (app_collector a) [ObsMyself ''/complex'' ''GET'' 500 l] (st_registry st) =
           Inr (st_registry (snd (handle_request a r st))))"
proof -
  obtain e where b1: "arg_literal (req_args r) ''is_db_error'' = Inl e"
    using literal_eval_name [OF n k] f by (auto simp: arg_literal_def)
  have rt: "match_route (req_path r) = Some RComplex"
    using p by (simp add: match_route_def add_routes_rule_def)
  have d: "dispatch_request a r (snd (before st)) =
             (Inl e, (snd (before st))\<lparr>st_clock := snd (time_time (st_clock (snd (before st))))\<rparr>)"
    using rt m complex_bad_flag [OF a1 b1] by (simp add: dispatch_request_def)
  have resp: "fst (handle_request a r st) = error_response 500"
    by (simp add: handle_request_wf_eq [OF wf] Let_def d)
  have np: "req_path r \<noteq> ''/metrics''"
    using p by simp
  show ?thesis
    using handle_request_observed [OF wf np] resp p m d by (simp add: before_eq error_response_def)
qed

theorem complex_unparsable_flag_500_witness:
  "is_identifier ''true'' \<and>
   fst (handle_request \<lparr>app_collector = \<lparr>mc_me = 0, mc_db = 1, mc_external = 2\<rparr>, app_mode = SingleProcess\<rparr>
      \<lparr>req_path = ''/complex'', req_method = ''GET'', req_args = [(''is_db_error'', ''true'')]\<rparr> \<lparr>st_registry = snd (newCollector ''order-mgmt'' []), st_clock = \<lparr>now = 0, adjust = []\<rparr>\<rparr>) =
     error_response 500"
proof -
  have a1: "arg_float [(''is_db_error'', ''true'')] ''db_sleep'' = Inr (Fin 0)"
    by (simp add: arg_float_def)
  have n: "is_identifier ''true''"
    by (simp add: is_identifier_def is_ident_start_def is_dec_digit_def)
  from complex_unparsable_flag_500 [OF app0_wf [of SingleProcess "\<lparr>now = 0, adjust = []\<rparr>"],
      where r = "\<lparr>req_path = ''/complex'', req_method = ''GET'', req_args = [(''is_db_error'', ''true'')]\<rparr>" and s = "''true''"]
    a1 n show ?thesis by simp
qed

end
