(* ===== verification/Requests.thy ===== *)
theory Requests
  imports App
begin

text \<open>
  Whole requests as runs of observation events. \<open>obs_reach c P r r'\<close> says that the
  registry \<open>r'\<close> is obtained from \<open>r\<close> by a sequence of observations through the
  collector \<open>c\<close>, each satisfying \<open>P\<close>. Every handler of src/src/main.py, and a whole
  request through the pipeline, changes the registry only in this way, with the
  events landing in the families its code names; a handler's clock only moves
  forward when the wall clock does. From these facts: only \<open>/complex\<close> writes the
  dependency channels, every request's self latency is non-negative on a monotonic
  clock, and every distinct path and method a client sends gets its own series.
\<close>

definition obs_reach :: "metric_collector \<Rightarrow> (obs_event \<Rightarrow> bool) \<Rightarrow> registry \<Rightarrow> registry \<Rightarrow> bool" where
  "obs_reach c P r r' \<longleftrightarrow> (\<exists>es. r' = fold (obs_step c) es r \<and> list_all P es)"

text \<open>The family an event lands in.\<close>

abbreviation lands_in :: "metric_collector \<Rightarrow> nat set \<Rightarrow> obs_event \<Rightarrow> bool" where
  "lands_in c I e \<equiv> fst (obs_target c e) \<in> I"

text \<open>The clock moves forward from \<open>clk\<close> to \<open>clk'\<close> whenever the wall clock is monotonic.\<close>

definition clock_advances :: "wall_clock \<Rightarrow> wall_clock \<Rightarrow> bool" where
  "clock_advances clk clk' \<longleftrightarrow> (monotonic clk \<longrightarrow> monotonic clk' \<and> now clk \<le> now clk')"

section \<open>Runs of observations\<close>

lemma obs_reach_refl [simp, intro]: "obs_reach c P r r"
  unfolding obs_reach_def by (rule exI [of _ "[]"]) simp

lemma obs_reach_step [intro]: "P e \<Longrightarrow> obs_reach c P r (obs_step c e r)"
  unfolding obs_reach_def by (rule exI [of _ "[e]"]) simp

lemma obs_reach_trans [trans]:
  assumes "obs_reach c P r1 r2" and "obs_reach c P r2 r3"
  shows "obs_reach c P r1 r3"
proof -
  obtain es1 es2 where "r2 = fold (obs_step c) es1 r1" "list_all P es1"
      "r3 = fold (obs_step c) es2 r2" "list_all P es2"
    using assms by (auto simp: obs_reach_def)
  then show ?thesis
    unfolding obs_reach_def by (intro exI [of _ "es1 @ es2"]) simp
qed

lemma obs_reach_mono:
  "obs_reach c P r r' \<Longrightarrow> (\<And>e. P e \<Longrightarrow> Q e) \<Longrightarrow> obs_reach c Q r r'"
  unfolding obs_reach_def by (auto simp: list_all_iff)

lemma obs_reach_wf:
  assumes "obs_reach c P r r'" and "collector_wf c r"
  shows "collector_wf c r'"
proof -
  obtain es where "r' = fold (obs_step c) es r"
    using assms(1) by (auto simp: obs_reach_def)
  then show ?thesis
    using assms(2) by (induction es arbitrary: r) (simp_all add: collector_wf_obs_step)
qed

lemma obs_step_nth_other:
  "fst (obs_target c e) \<noteq> i \<Longrightarrow> obs_step c e r ! i = r ! i"
  by (simp add: obs_step_def split_def Let_def)

lemma obs_step_keys:
  assumes "i < length r"
  shows "dom (map_of (fam_children (r ! i))) \<subseteq> dom (map_of (fam_children (obs_step c e r ! i)))"
proof (cases "fst (obs_target c e) = i")
  case True
  with assms show ?thesis
    by (auto simp: obs_step_def split_def Let_def map_of_observe_labelled)
next
  case False
  then show ?thesis by (simp add: obs_step_nth_other)
qed

lemma obs_reach_other:
  assumes "obs_reach c P r r'" and "\<And>e. P e \<Longrightarrow> fst (obs_target c e) \<noteq> i"
  shows "r' ! i = r ! i"
proof -
  obtain es where "r' = fold (obs_step c) es r" "list_all P es"
    using assms(1) by (auto simp: obs_reach_def)
  then show ?thesis
    using assms(2) by (induction es arbitrary: r) (simp_all add: obs_step_nth_other)
qed

lemma obs_reach_keys:
  assumes "obs_reach c P r r'" and "i < length r"
  shows "dom (map_of (fam_children (r ! i))) \<subseteq> dom (map_of (fam_children (r' ! i)))"
proof -
  obtain es where "r' = fold (obs_step c) es r"
    using assms(1) by (auto simp: obs_reach_def)
  then show ?thesis
    using assms(2)
  proof (induction es arbitrary: r)
    case Nil
    then show ?case by simp
  next
    case (Cons e es)
    have "length (obs_step c e r) = length r"
      by (simp add: obs_step_def split_def Let_def)
    with Cons.prems have "dom (map_of (fam_children (obs_step c e r ! i))) \<subseteq> dom (map_of (fam_children (r' ! i)))"
      by (intro Cons.IH) simp_all
    with obs_step_keys [OF Cons.prems(2), of c e] show ?case by blast
  qed
qed

section \<open>The clock along a handler\<close>

lemma clock_advances_refl [simp, intro]: "clock_advances clk clk"
  by (simp add: clock_advances_def)

lemma clock_advances_trans [trans]:
  "clock_advances c1 c2 \<Longrightarrow> clock_advances c2 c3 \<Longrightarrow> clock_advances c1 c3"
  by (auto simp: clock_advances_def)

lemma clock_advances_time_time [intro]: "clock_advances clk (snd (time_time clk))"
  using time_time_ge [of clk] time_time_monotonic [of clk] time_time_reading [of clk]
  by (simp add: clock_advances_def)

lemma clock_advances_mocked_call [intro]: "clock_advances clk (snd (mocked_call what s flag clk))"
  by (cases s) (auto simp: clock_advances_def mocked_call_def split: sum.split)

lemma clock_advances_reading:
  assumes "clock_advances (snd (time_time clk)) clk'" and "monotonic clk"
  shows "fst (time_time clk) \<le> fst (time_time clk')"
proof -
  have "monotonic (snd (time_time clk))"
    using assms(2) by (rule time_time_monotonic)
  with assms(1) have "monotonic clk'" and "now (snd (time_time clk)) \<le> now clk'"
    by (simp_all add: clock_advances_def)
  with time_time_ge [of clk'] time_time_reading [of clk] show ?thesis
    by linarith
qed

section \<open>The handlers as runs of observations\<close>

lemma record_latency_db:
  assumes "collector_wf c (st_registry st)"
  shows "snd (record_latency (observe_db c sc ss) t st) =
           st\<lparr>st_clock := snd (time_time (st_clock st)),
              st_registry := obs_step c (ObsDb sc ss (fst (time_time (st_clock st)) - t)) (st_registry st)\<rparr>"
  using assms by (simp add: record_latency_def split_def Let_def observe_db_eq obs_step_def)

lemma record_latency_external:
  assumes "collector_wf c (st_registry st)"
  shows "snd (record_latency (observe_external c sc) t st) =
           st\<lparr>st_clock := snd (time_time (st_clock st)),
              st_registry := obs_step c (ObsExternal sc (fst (time_time (st_clock st)) - t)) (st_registry st)\<rparr>"
  using assms by (simp add: record_latency_def split_def Let_def observe_external_eq obs_step_def)

lemma work_with_db_reach:
  assumes "collector_wf c (st_registry st)"
  shows "obs_reach c (lands_in c {mc_db c}) (st_registry st) (st_registry (snd (work_with_db c args st)))"
  using assms
  by (auto simp: work_with_db_def split_def Let_def record_latency_db split: sum.split py_exc.split prod.split)

lemma work_with_db_clock:
  "clock_advances (st_clock st) (st_clock (snd (work_with_db c args st)))"
proof -
  have "clock_advances (st_clock st) (snd (time_time (snd (mocked_call w s f (snd (time_time (st_clock st)))))))"
    and "clock_advances (st_clock st) (snd (mocked_call w s f (snd (time_time (st_clock st)))))"
    for w s f
    by (meson clock_advances_mocked_call clock_advances_time_time clock_advances_trans)+
  then show ?thesis
    by (auto simp: work_with_db_def split_def Let_def record_latency_clock call_db_def
        split: sum.split py_exc.split prod.split)
qed

lemma work_with_third_party_reach:
  assumes "collector_wf c (st_registry st)"
  shows "obs_reach c (lands_in c {mc_external c}) (st_registry st)
           (st_registry (snd (work_with_third_party c args st)))"
  using assms
  by (auto simp: work_with_third_party_def split_def Let_def record_latency_external
      split: sum.split py_exc.split prod.split)

lemma work_with_third_party_clock:
  "clock_advances (st_clock st) (st_clock (snd (work_with_third_party c args st)))"
proof -
  have "clock_advances (st_clock st) (snd (time_time (snd (mocked_call w s f (snd (time_time (st_clock st)))))))"
    and "clock_advances (st_clock st) (snd (mocked_call w s f (snd (time_time (st_clock st)))))"
    for w s f
    by (meson clock_advances_mocked_call clock_advances_time_time clock_advances_trans)+
  then show ?thesis
    by (auto simp: work_with_third_party_def split_def Let_def record_latency_clock call_external_def
        split: sum.split py_exc.split prod.split)
qed

lemma complex_operation_reach:
  assumes wf: "collector_wf c (st_registry st)"
  shows "obs_reach c (lands_in c {mc_db c, mc_external c}) (st_registry st)
           (st_registry (snd (complex_operation c args st)))"
proof -
  obtain r1 st1 where w1: "work_with_db c args st = (r1, st1)"
    by fastforce
  have o1: "obs_reach c (lands_in c {mc_db c, mc_external c}) (st_registry st) (st_registry st1)"
    using work_with_db_reach [OF wf, of args] w1 by (auto elim: obs_reach_mono)
  have wf1: "collector_wf c (st_registry st1)"
    using o1 wf by (rule obs_reach_wf)
  obtain r2 st2 where w2: "work_with_third_party c args st1 = (r2, st2)"
    by fastforce
  have o2: "obs_reach c (lands_in c {mc_db c, mc_external c}) (st_registry st1) (st_registry st2)"
    using work_with_third_party_reach [OF wf1, of args] w2 by (auto elim: obs_reach_mono)
  show ?thesis
    using w1 w2 o1 obs_reach_trans [OF o1 o2]
    by (auto simp: complex_operation_def catch_runtime_error_def split: sum.split py_exc.split)
qed

lemma complex_operation_clock:
  "clock_advances (st_clock st) (st_clock (snd (complex_operation c args st)))"
proof -
  obtain r1 st1 where w1: "work_with_db c args st = (r1, st1)"
    by fastforce
  obtain r2 st2 where w2: "work_with_third_party c args st1 = (r2, st2)"
    by fastforce
  have "clock_advances (st_clock st) (st_clock st1)" "clock_advances (st_clock st1) (st_clock st2)"
    using work_with_db_clock [of st c args] work_with_third_party_clock [of st1 c args] w1 w2 by simp_all
  then show ?thesis
    using w1 w2 by (auto simp: complex_operation_def catch_runtime_error_def
        split: sum.split py_exc.split intro: clock_advances_trans)
qed

lemma dispatch_request_reach:
  "collector_wf (app_collector a) (st_registry st) \<Longrightarrow>
     obs_reach (app_collector a) (lands_in (app_collector a) {mc_db (app_collector a), mc_external (app_collector a)})
       (st_registry st) (st_registry (snd (dispatch_request a r st)))"
  using complex_operation_reach [of "app_collector a" st "req_args r"]
  by (auto simp: dispatch_request_def split: option.split route.split)

lemma dispatch_request_clock:
  "clock_advances (st_clock st) (st_clock (snd (dispatch_request a r st)))"
  by (auto simp: dispatch_request_def complex_operation_clock split: option.split route.split)

section \<open>A request as a run of observations\<close>

text \<open>
  A request other than \<open>/metrics\<close>: the view's observations on the dependency
  channels, then one self observation whose latency is read from the clock the view
  left.
\<close>

lemma handle_request_registry:
  assumes wf: "collector_wf (app_collector a) (st_registry st)" and p: "req_path r \<noteq> ''/metrics''"
  shows "st_registry (snd (handle_request a r st)) =
    obs_step (app_collector a)
      (ObsMyself (req_path r) (req_method r) (resp_status (fst (handle_request a r st)))
         (fst (time_time (st_clock (snd (dispatch_request a r (snd (before st)))))) - fst (before st)))
      (st_registry (snd (dispatch_request a r (snd (before st)))))"
proof -
  have wf2: "collector_wf (app_collector a) (st_registry (snd (dispatch_request a r (snd (before st)))))"
    using wf by (simp add: before_eq dispatch_request_wf)
  show ?thesis
    by (simp add: handle_request_wf_eq [OF wf] Let_def after_observed [OF wf2 p])
qed

lemma handle_request_reach:
  assumes wf: "collector_wf (app_collector a) (st_registry st)"
  shows "obs_reach (app_collector a) (\<lambda>e. True) (st_registry st) (st_registry (snd (handle_request a r st)))"
proof (cases "req_path r = ''/metrics''")
  case True
  then show ?thesis by (simp add: handle_request_metrics_registry)
next
  case False
  have "obs_reach (app_collector a) (\<lambda>e. True) (st_registry st)
          (st_registry (snd (dispatch_request a r (snd (before st)))))"
    using dispatch_request_reach [of a "snd (before st)" r] wf by (simp add: before_eq obs_reach_mono)
  then show ?thesis
    unfolding handle_request_registry [OF wf False] by (rule obs_reach_trans) blast
qed

lemma serve_reach:
  "collector_wf (app_collector a) (st_registry st) \<Longrightarrow>
     obs_reach (app_collector a) (\<lambda>e. True) (st_registry st) (st_registry (snd (serve a rs st)))"
proof (induction rs arbitrary: st)
  case Nil
  then show ?case by simp
next
  case (Cons r rs)
  have "collector_wf (app_collector a) (st_registry (snd (handle_request a r st)))"
    using Cons.prems by (rule handle_request_wf)
  then show ?case
    using obs_reach_trans [OF handle_request_reach [OF Cons.prems, of r] Cons.IH]
    by (simp add: split_def Let_def)
qed

lemma handle_request_dependencies:
  assumes wf: "collector_wf (app_collector a) (st_registry st)"
    and nc: "match_route (req_path r) \<noteq> Some RComplex" and i: "i \<noteq> mc_me (app_collector a)"
  shows "st_registry (snd (handle_request a r st)) ! i = st_registry st ! i"
proof (cases "req_path r = ''/metrics''")
  case True
  then show ?thesis by (simp add: handle_request_metrics_registry)
next
  case False
  then show ?thesis
    using i by (simp add: handle_request_registry [OF wf False] dispatch_before_registry [OF nc]
        obs_step_nth_other)
qed

lemma handle_request_key:
  assumes wf: "collector_wf (app_collector a) (st_registry st)" and p: "req_path r \<noteq> ''/metrics''"
  shows "[req_path r, req_method r, decimal_digits (resp_status (fst (handle_request a r st)))] \<in>
           dom (map_of (fam_children (st_registry (snd (handle_request a r st)) ! mc_me (app_collector a))))"
proof -
  have "collector_wf (app_collector a) (st_registry (snd (dispatch_request a r (snd (before st)))))"
    using wf by (simp add: before_eq dispatch_request_wf)
  then have "mc_me (app_collector a) < length (st_registry (snd (dispatch_request a r (snd (before st)))))"
    by (simp add: collector_wf_def designates_def)
  then show ?thesis
    by (simp add: handle_request_registry [OF wf p] obs_step_def map_of_observe_labelled)
qed

text \<open>The database call moves a monotonic clock forward by at least its sleep.\<close>

lemma after_call_clock_now:
  assumes "monotonic clk"
  shows "now clk + max 0 d \<le> now (after_call_clock d clk) \<and> monotonic (after_call_clock d clk)"
proof -
  let ?c1 = "snd (time_time clk)"
  have m1: "monotonic ?c1" and n1: "now clk \<le> now ?c1"
    using assms time_time_ge [of clk] time_time_reading [of clk] time_time_monotonic [of clk] by simp_all
  have m2: "monotonic (sleep_clock d ?c1)"
    using m1 by simp
  have "now (sleep_clock d ?c1) \<le> now (snd (time_time (sleep_clock d ?c1)))"
    using time_time_ge [OF m2] time_time_reading [of "sleep_clock d ?c1"] by simp
  moreover have "now (sleep_clock d ?c1) = now ?c1 + max 0 d"
    by simp
  ultimately show ?thesis
    using n1 time_time_monotonic [OF m2] by simp
qed

lemma complex_operation_after_db:
  "work_with_db c args st = (r1, st1) \<Longrightarrow>
     clock_advances (st_clock st1) (st_clock (snd (complex_operation c args st)))"
  using work_with_third_party_clock [of st1 c args]
  by (auto simp: complex_operation_def catch_runtime_error_def split: sum.split prod.split py_exc.split)

section \<open>Properties of whole requests\<close>

text \<open>
  C7: the database and audit channels are written only by \<open>/complex\<close>: any sequence
  of requests none of which is routed to \<open>/complex\<close> (unknown paths, other methods,
  the metrics endpoint included) leaves both families exactly as they were.
\<close>

theorem dependency_channels_only_complex:
  assumes wf: "collector_wf (app_collector a) (st_registry st)"
    and nc: "\<forall>r \<in> set rs. match_route (req_path r) \<noteq> Some RComplex"
  shows "st_registry (snd (serve a rs st)) ! mc_db (app_collector a) = st_registry st ! mc_db (app_collector a) \<and>
         st_registry (snd (serve a rs st)) ! mc_external (app_collector a) =
           st_registry st ! mc_external (app_collector a)"
  using wf nc
proof (induction rs arbitrary: st)
  case Nil
  then show ?case by simp
next
  case (Cons r rs)
  have d: "mc_db (app_collector a) \<noteq> mc_me (app_collector a)"
      "mc_external (app_collector a) \<noteq> mc_me (app_collector a)"
    using Cons.prems(1) by (auto simp: collector_wf_def)
  have "collector_wf (app_collector a) (st_registry (snd (handle_request a r st)))"
    using Cons.prems(1) by (rule handle_request_wf)
  with Cons.IH [of "snd (handle_request a r st)"] Cons.prems
    handle_request_dependencies [OF Cons.prems(1) _ d(1)] handle_request_dependencies [OF Cons.prems(1) _ d(2)]
  show ?case by (simp add: split_def Let_def)
qed

theorem dependency_channels_only_complex_witness:
  "st_registry (snd (serve \<lparr>app_collector = \<lparr>mc_me = 0, mc_db = 1, mc_external = 2\<rparr>, app_mode = SingleProcess\<rparr>
      [\<lparr>req_path = ''/hello'', req_method = ''GET'', req_args = []\<rparr>,
       \<lparr>req_path = ''/nowhere'', req_method = ''POST'', req_args = []\<rparr>] \<lparr>st_registry = snd (newCollector ''order-mgmt'' []), st_clock = \<lparr>now = 0, adjust = []\<rparr>\<rparr>)) ! 1 =
     snd (newCollector ''order-mgmt'' []) ! 1"
  using dependency_channels_only_complex [OF app0_wf [of SingleProcess "\<lparr>now = 0, adjust = []\<rparr>"],
      of "[\<lparr>req_path = ''/hello'', req_method = ''GET'', req_args = []\<rparr>,
           \<lparr>req_path = ''/nowhere'', req_method = ''POST'', req_args = []\<rparr>]"]
  by (simp add: match_route_def add_routes_rule_def metrics_rule_def)

text \<open>
  C16: on a clock that never steps back, every request other than \<open>/metrics\<close> is
  recorded on the self-latency channel with a non-negative latency, after whatever
  its view recorded.
\<close>

theorem self_latency_nonneg:
  assumes wf: "collector_wf (app_collector a) (st_registry st)" and p: "req_path r \<noteq> ''/metrics''"
    and mono: "monotonic (st_clock st)"
  shows "\<exists>l \<ge> 0. st_registry (snd (handle_request a r st)) =
    obs_step (app_collector a) (ObsMyself (req_path r) (req_method r) (resp_status (fst (handle_request a r st))) l)
      (st_registry (snd (dispatch_request a r (snd (before st)))))"
proof -
  have "clock_advances (snd (time_time (st_clock st))) (st_clock (snd (dispatch_request a r (snd (before st)))))"
    using dispatch_request_clock [of "snd (before st)" a r] by (simp add: before_eq)
  then have "fst (time_time (st_clock st)) \<le> fst (time_time (st_clock (snd (dispatch_request a r (snd (before st))))))"
    using mono by (rule clock_advances_reading)
  then have "0 \<le> fst (time_time (st_clock (snd (dispatch_request a r (snd (before st)))))) - fst (before st)"
    by (simp add: before_eq)
  with handle_request_registry [OF wf p] show ?thesis
    by blast
qed

theorem self_latency_nonneg_witness:
  "\<exists>l \<ge> 0. st_registry (snd (handle_request \<lparr>app_collector = \<lparr>mc_me = 0, mc_db = 1, mc_external = 2\<rparr>, app_mode = SingleProcess\<rparr>
      \<lparr>req_path = ''/complex'', req_method = ''GET'', req_args = [(''db_sleep'', ''0.2'')]\<rparr> \<lparr>st_registry = snd (newCollector ''order-mgmt'' []), st_clock = \<lparr>now = 0, adjust = []\<rparr>\<rparr>)) =
    obs_step \<lparr>mc_me = 0, mc_db = 1, mc_external = 2\<rparr>
      (ObsMyself ''/complex'' ''GET'' (resp_status (fst (handle_request \<lparr>app_collector = \<lparr>mc_me = 0, mc_db = 1, mc_external = 2\<rparr>, app_mode = SingleProcess\<rparr>
         \<lparr>req_path = ''/complex'', req_method = ''GET'', req_args = [(''db_sleep'', ''0.2'')]\<rparr> \<lparr>st_registry = snd (newCollector ''order-mgmt'' []), st_clock = \<lparr>now = 0, adjust = []\<rparr>\<rparr>))) l)
      (st_registry (snd (dispatch_request \<lparr>app_collector = \<lparr>mc_me = 0, mc_db = 1, mc_external = 2\<rparr>, app_mode = SingleProcess\<rparr>
         \<lparr>req_path = ''/complex'', req_method = ''GET'', req_args = [(''db_sleep'', ''0.2'')]\<rparr>
         (snd (before \<lparr>st_registry = snd (newCollector ''order-mgmt'' []), st_clock = \<lparr>now = 0, adjust = []\<rparr>\<rparr>)))))"
proof -
  have m: "monotonic \<lparr>now = 0, adjust = []\<rparr>"
    by (simp add: monotonic_def)
  from self_latency_nonneg [OF app0_wf [of SingleProcess "\<lparr>now = 0, adjust = []\<rparr>"],
      where r = "\<lparr>req_path = ''/complex'', req_method = ''GET'', req_args = [(''db_sleep'', ''0.2'')]\<rparr>"] m
  show ?thesis by simp
qed

text \<open>
  C12: the self-latency channel has no bound on its series: after any sequence of
  requests to paths other than \<open>/metrics\<close>, every distinct path and method among
  them, unknown paths included, has its own child in the self-latency summary.
\<close>

theorem distinct_requests_distinct_series:
  assumes wf: "collector_wf (app_collector a) (st_registry st)"
    and p: "\<forall>r \<in> set rs. req_path r \<noteq> ''/metrics''"
  shows "(\<lambda>r. (req_path r, req_method r)) ` set rs \<subseteq>
    {(pa, m). \<exists>sc. [pa, m, sc] \<in> dom (map_of (fam_children (st_registry (snd (serve a rs st)) ! mc_me (app_collector a))))}"
  using wf p
proof (induction rs arbitrary: st)
  case Nil
  then show ?case by simp
next
  case (Cons r rs)
  let ?st1 = "snd (handle_request a r st)"
  have wf1: "collector_wf (app_collector a) (st_registry ?st1)"
    using Cons.prems(1) by (rule handle_request_wf)
  have k: "[req_path r, req_method r, decimal_digits (resp_status (fst (handle_request a r st)))] \<in>
             dom (map_of (fam_children (st_registry ?st1 ! mc_me (app_collector a))))"
    using Cons.prems by (intro handle_request_key) simp_all
  have "mc_me (app_collector a) < length (st_registry ?st1)"
    using wf1 by (simp add: collector_wf_def designates_def)
  with obs_reach_keys [OF serve_reach [OF wf1, of rs]] k
  have "[req_path r, req_method r, decimal_digits (resp_status (fst (handle_request a r st)))] \<in>
          dom (map_of (fam_children (st_registry (snd (serve a rs ?st1)) ! mc_me (app_collector a))))"
    by blast
  with Cons.IH [OF wf1] Cons.prems(2) show ?case
    by (auto simp: split_def Let_def)
qed

theorem distinct_requests_distinct_series_witness:
  "{(''/a'', ''GET''), (''/b'', ''GET'')} \<subseteq>
    {(pa, m). \<exists>sc. [pa, m, sc] \<in> dom (map_of (fam_children (st_registry (snd (serve \<lparr>app_collector = \<lparr>mc_me = 0, mc_db = 1, mc_external = 2\<rparr>, app_mode = SingleProcess\<rparr>
      [\<lparr>req_path = ''/a'', req_method = ''GET'', req_args = []\<rparr>,
       \<lparr>req_path = ''/b'', req_method = ''GET'', req_args = []\<rparr>] \<lparr>st_registry = snd (newCollector ''order-mgmt'' []), st_clock = \<lparr>now = 0, adjust = []\<rparr>\<rparr>)) ! 0)))}"
  using distinct_requests_distinct_series [OF app0_wf [of SingleProcess "\<lparr>now = 0, adjust = []\<rparr>"],
      of "[\<lparr>req_path = ''/a'', req_method = ''GET'', req_args = []\<rparr>,
           \<lparr>req_path = ''/b'', req_method = ''GET'', req_args = []\<rparr>]"]
  by simp



end
