(* ===== verification/Workers.thy ===== *)
theory Workers
  imports Requests
begin

text \<open>
  The service under a pre-fork multi-process server, the deployment
  \<open>get_latest_when_running_with_gunicorn\<close> (src/src/main.py lines 163-169) is
  written for: several worker processes, each running \<open>get_app()\<close> on its own
  fresh default registry and handling the requests the server hands it, and all of
  them writing their metrics to the shared multi-process directory. A worker's
  metrics view merges its own metrics with those the other workers have written.
  The server's state is the list of the workers' process states.
\<close>

text \<open>The metrics of the workers other than \<open>j\<close>, as worker \<open>j\<close> reads them.\<close>

definition peers :: "app_state list \<Rightarrow> nat \<Rightarrow> registry list" where
  "peers ws j = map st_registry (take j ws @ drop (Suc j) ws)"

definition worker_app :: "metric_collector \<Rightarrow> app_state list \<Rightarrow> nat \<Rightarrow> app" where
  "worker_app c ws j = \<lparr>app_collector = c, app_mode = MultiProcess (peers ws j)\<rparr>"

text \<open>The server hands request \<open>r\<close> to worker \<open>j\<close>, which answers it.\<close>

definition gunicorn_step ::
  "metric_collector \<Rightarrow> nat \<Rightarrow> request \<Rightarrow> app_state list \<Rightarrow> response option \<times> app_state list" where
  "gunicorn_step c j r ws =
     (if j < length ws
      then (let (resp, st') = handle_request (worker_app c ws j) r (ws ! j) in (Some resp, ws[j := st']))
      else (None, ws))"

text \<open>
  The reachable server states: workers that each ran \<open>get_app()\<close> on a fresh registry,
  then any request handled by any worker, any change of a worker's clock, and the
  start of a new worker (a worker restarted by the server runs \<open>get_app()\<close> on a fresh
  registry of its own). A worker that has exited keeps its place in the list: its
  metric files stay in the multi-process directory and every scrape still merges
  them, and the server hands it no more requests (the model lets the server choose
  any worker, so the states of a server that never chooses it are among those below).
\<close>

inductive gunicorn_reachable :: "metric_collector \<Rightarrow> app_state list \<Rightarrow> bool" where
  start: "get_app (MultiProcess []) [] = (Inr a, reg) \<Longrightarrow> ws \<noteq> [] \<Longrightarrow> \<forall>w \<in> set ws. st_registry w = reg \<Longrightarrow>
            gunicorn_reachable (app_collector a) ws"
| step: "gunicorn_reachable c ws \<Longrightarrow> gunicorn_reachable c (snd (gunicorn_step c j r ws))"
| tick: "gunicorn_reachable c ws \<Longrightarrow> j < length ws \<Longrightarrow>
           gunicorn_reachable c (ws[j := (ws ! j)\<lparr>st_clock := clk\<rparr>])"
| spawn: "gunicorn_reachable c ws \<Longrightarrow> get_app (MultiProcess []) [] = (Inr a, reg) \<Longrightarrow> app_collector a = c \<Longrightarrow>
            gunicorn_reachable c (ws @ [\<lparr>st_registry = reg, st_clock = clk\<rparr>])"

text \<open>The collector and registry \<open>get_app()\<close> gives every worker.\<close>

abbreviation order_mgmt_c :: metric_collector where
  "order_mgmt_c \<equiv> \<lparr>mc_me = 0, mc_db = 1, mc_external = 2\<rparr>"

abbreviation order_mgmt_reg :: registry where
  "order_mgmt_reg \<equiv> snd (newCollector ''order-mgmt'' [])"

section \<open>Every worker's metrics are a run of observations\<close>

lemma collector_wf_fold_obs_step:
  "collector_wf c reg \<Longrightarrow> collector_wf c (fold (obs_step c) es reg)"
  by (induction es arbitrary: reg) (simp_all add: collector_wf_obs_step)

lemma gunicorn_runs:
  "gunicorn_reachable c ws \<Longrightarrow>
     c = order_mgmt_c \<and> ws \<noteq> [] \<and>
     (\<exists>ess. length ess = length ws \<and>
        (\<forall>k < length ws. st_registry (ws ! k) = fold (obs_step c) (ess ! k) order_mgmt_reg))"
proof (induction rule: gunicorn_reachable.induct)
  case (start a reg ws)
  then have "app_collector a = order_mgmt_c" and "reg = order_mgmt_reg"
    using get_app_fresh [OF start(1)] by simp_all
  with start show ?case
    by (intro conjI exI [of _ "replicate (length ws) []"]) auto
next
  case (step c ws j r)
  then obtain ess where c: "c = order_mgmt_c" and ne: "ws \<noteq> []" and len: "length ess = length ws"
    and regs: "\<forall>k < length ws. st_registry (ws ! k) = fold (obs_step c) (ess ! k) order_mgmt_reg"
    by blast
  show ?case
  proof (cases "j < length ws")
    case False
    then show ?thesis
      using c ne len regs by (intro conjI exI [of _ ess]) (simp_all add: gunicorn_step_def)
  next
    case True
    let ?a = "worker_app c ws j"
    have wf: "collector_wf (app_collector ?a) (st_registry (ws ! j))"
      using regs True c order_mgmt_collector by (simp add: worker_app_def collector_wf_fold_obs_step)
    obtain es' where es': "st_registry (snd (handle_request ?a r (ws ! j))) =
                             fold (obs_step c) es' (st_registry (ws ! j))"
      using handle_request_reach [OF wf, of r] by (auto simp: obs_reach_def worker_app_def)
    let ?ess = "ess[j := ess ! j @ es']"
    have "\<forall>k < length ws. st_registry (snd (gunicorn_step c j r ws) ! k) =
            fold (obs_step c) (?ess ! k) order_mgmt_reg"
      using regs True es' len by (auto simp: gunicorn_step_def split_def Let_def nth_list_update)
    then show ?thesis
      using c ne len True by (intro conjI exI [of _ ?ess]) (simp_all add: gunicorn_step_def split_def Let_def)
  qed
next
  case (tick c ws j clk)
  then show ?case by (auto simp: nth_list_update)
next
  case (spawn c ws a reg clk)
  then obtain ess where c: "c = order_mgmt_c" and len: "length ess = length ws"
    and regs: "\<forall>k < length ws. st_registry (ws ! k) = fold (obs_step c) (ess ! k) order_mgmt_reg"
    by blast
  have "reg = order_mgmt_reg"
    using get_app_fresh [OF spawn(2)] by simp
  then have "\<forall>k < length (ws @ [\<lparr>st_registry = reg, st_clock = clk\<rparr>]).
      st_registry ((ws @ [\<lparr>st_registry = reg, st_clock = clk\<rparr>]) ! k) = fold (obs_step c) ((ess @ [[]]) ! k) order_mgmt_reg"
    using regs len by (auto simp: nth_append less_Suc_eq)
  then show ?case
    using c len by (intro conjI exI [of _ "ess @ [[]]"]) simp_all
qed

lemma map_st_registry_runs:
  "length ess = length ws \<Longrightarrow> \<forall>k < length ws. st_registry (ws ! k) = f (ess ! k) \<Longrightarrow>
     map st_registry ws = map f ess"
  by (rule nth_equalityI) auto

lemma peers_runs:
  "length ess = length ws \<Longrightarrow> \<forall>k < length ws. st_registry (ws ! k) = f (ess ! k) \<Longrightarrow>
     peers ws j = map f (take j ess @ drop (Suc j) ess)"
proof -
  assume "length ess = length ws" and "\<forall>k < length ws. st_registry (ws ! k) = f (ess ! k)"
  then have "map st_registry ws = map f ess"
    by (rule map_st_registry_runs)
  then show ?thesis
    by (simp add: peers_def take_map [symmetric] drop_map [symmetric])
qed

lemma two_workers_reachable:
  "gunicorn_reachable order_mgmt_c 
        [\<lparr>st_registry = order_mgmt_reg, st_clock = \<lparr>now = 0, adjust = []\<rparr>\<rparr>,
         \<lparr>st_registry = order_mgmt_reg, st_clock = \<lparr>now = 0, adjust = []\<rparr>\<rparr>]"
proof -
  have "gunicorn_reachable (app_collector \<lparr>app_collector = order_mgmt_c, app_mode = MultiProcess []\<rparr>) 
        [\<lparr>st_registry = order_mgmt_reg, st_clock = \<lparr>now = 0, adjust = []\<rparr>\<rparr>,
         \<lparr>st_registry = order_mgmt_reg, st_clock = \<lparr>now = 0, adjust = []\<rparr>\<rparr>]"
    by (rule gunicorn_reachable.start [OF get_app_order_mgmt]) simp_all
  then show ?thesis by simp
qed

text \<open>
  A scrape of worker \<open>j\<close> answers the exposition of the merged registries of the
  workers' runs, worker \<open>j\<close>'s first.
\<close>

lemma gunicorn_scrape_response:
  assumes reach: "gunicorn_reachable c ws" and j: "j < length ws"
    and p: "req_path r = ''/metrics''" and m: "req_method r = ''GET''"
  obtains ess where "c = order_mgmt_c" and "length ess = length ws"
    and "\<forall>k < length ws. st_registry (ws ! k) = fold (obs_step c) (ess ! k) order_mgmt_reg"
    and "fst (gunicorn_step c j r ws) =
           Some \<lparr>resp_status = 200,
                 resp_body = Exposition (multiprocess_render
                   (map (\<lambda>es. fold (obs_step c) es order_mgmt_reg) (ess ! j # take j ess @ drop (Suc j) ess))),
                 resp_mimetype = ''text/plain''\<rparr>"
proof -
  obtain ess where c: "c = order_mgmt_c" and len: "length ess = length ws"
    and regs: "\<forall>k < length ws. st_registry (ws ! k) = fold (obs_step c) (ess ! k) order_mgmt_reg"
    using gunicorn_runs [OF reach] by blast
  let ?W = "\<lambda>es. fold (obs_step c) es order_mgmt_reg"
  have "st_registry (ws ! j) # peers ws j = map ?W (ess ! j # take j ess @ drop (Suc j) ess)"
    using regs j peers_runs [OF len regs, of j] by simp
  moreover have "fst (gunicorn_step c j r ws) =
      Some \<lparr>resp_status = 200, resp_body = Exposition (multiprocess_render (st_registry (ws ! j) # peers ws j)),
            resp_mimetype = ''text/plain''\<rparr>"
    using j metrics_multi_process_response [of "worker_app c ws j" "peers ws j" r "ws ! j", OF _ p m]
    by (simp add: gunicorn_step_def split_def worker_app_def)
  ultimately show ?thesis
    using that c len regs by simp
qed

section \<open>Scraping a worker\<close>

text \<open>
  C9: in every state of a multi-process deployment, \<open>GET /metrics\<close> handed to any
  worker answers 200 with the merged exposition of all workers' metrics, and these
  merged metrics have the lookup view of a single process that made that worker's
  observations and then every other worker's: the scrape loses and duplicates none.
\<close>

theorem gunicorn_scrape_single_process_view:
  assumes reach: "gunicorn_reachable c ws" and j: "j < length ws"
    and p: "req_path r = ''/metrics''" and m: "req_method r = ''GET''"
  shows "\<exists>ess. length ess = length ws \<and>
           (\<forall>k < length ws. st_registry (ws ! k) = fold (obs_step c) (ess ! k) order_mgmt_reg) \<and>
           (\<exists>regs. fst (gunicorn_step c j r ws) =
               Some \<lparr>resp_status = 200, resp_body = Exposition (multiprocess_render regs),
                     resp_mimetype = ''text/plain''\<rparr> \<and>
             registry_view (multiprocess_collect regs) =
               registry_view (fold (obs_step c) (concat (ess ! j # take j ess @ drop (Suc j) ess)) order_mgmt_reg))"
proof -
  obtain ess where c: "c = order_mgmt_c" and len: "length ess = length ws"
    and regs: "\<forall>k < length ws. st_registry (ws ! k) = fold (obs_step c) (ess ! k) order_mgmt_reg"
    and resp: "fst (gunicorn_step c j r ws) =
           Some \<lparr>resp_status = 200,
                 resp_body = Exposition (multiprocess_render
                   (map (\<lambda>es. fold (obs_step c) es order_mgmt_reg) (ess ! j # take j ess @ drop (Suc j) ess))),
                 resp_mimetype = ''text/plain''\<rparr>"
    by (rule gunicorn_scrape_response [OF reach j p m])
  have "registry_view (multiprocess_collect (map (\<lambda>es. fold (obs_step c) es order_mgmt_reg) (ess ! j # take j ess @ drop (Suc j) ess))) =
          registry_view (fold (obs_step c) (concat (ess ! j # take j ess @ drop (Suc j) ess)) order_mgmt_reg)"
    using merge_workers_view [OF conjunct2 [OF order_mgmt_collector] order_mgmt_fresh,
        of "ess ! j # take j ess @ drop (Suc j) ess"] c by simp
  with resp len regs show ?thesis
    by blast
qed

theorem gunicorn_scrape_single_process_view_witness:
  "\<exists>ess. length ess = length [\<lparr>st_registry = order_mgmt_reg, st_clock = \<lparr>now = 0, adjust = []\<rparr>\<rparr>,
         \<lparr>st_registry = order_mgmt_reg, st_clock = \<lparr>now = 0, adjust = []\<rparr>\<rparr>] \<and>
     (\<forall>k < length [\<lparr>st_registry = order_mgmt_reg, st_clock = \<lparr>now = 0, adjust = []\<rparr>\<rparr>,
         \<lparr>st_registry = order_mgmt_reg, st_clock = \<lparr>now = 0, adjust = []\<rparr>\<rparr>].
        st_registry ([\<lparr>st_registry = order_mgmt_reg, st_clock = \<lparr>now = 0, adjust = []\<rparr>\<rparr>,
         \<lparr>st_registry = order_mgmt_reg, st_clock = \<lparr>now = 0, adjust = []\<rparr>\<rparr>] ! k) = fold (obs_step order_mgmt_c) (ess ! k) order_mgmt_reg) \<and>
     (\<exists>regs. fst (gunicorn_step order_mgmt_c 1 \<lparr>req_path = ''/metrics'', req_method = ''GET'', req_args = []\<rparr> [\<lparr>st_registry = order_mgmt_reg, st_clock = \<lparr>now = 0, adjust = []\<rparr>\<rparr>,
         \<lparr>st_registry = order_mgmt_reg, st_clock = \<lparr>now = 0, adjust = []\<rparr>\<rparr>]) =
         Some \<lparr>resp_status = 200, resp_body = Exposition (multiprocess_render regs),
               resp_mimetype = ''text/plain''\<rparr> \<and>
       registry_view (multiprocess_collect regs) =
         registry_view (fold (obs_step order_mgmt_c) (concat (ess ! 1 # take 1 ess @ drop (Suc 1) ess))
           order_mgmt_reg))"
  by (rule gunicorn_scrape_single_process_view [OF two_workers_reachable]) simp_all

end
