(* ===== verification/Exposition.thy ===== *)
theory Exposition
  imports Collector "HOL-Library.List_Lexorder" "HOL-Library.Char_ord" "HOL-Library.Product_Lexorder"
begin

text \<open>
  The text of the exposition that \<open>generate_latest\<close> writes for the metrics
  endpoint (src/src/main.py lines 159-160, 169): each sample is one line, its labels
  written as \<open>{name="value",...}\<close> in sorted order, with backslash, newline and
  double quote in a value escaped (\<open>v.replace('\\', r'\\').replace('\n',
  r'\n').replace('"', r'\"')\<close>). The self-latency channel's \<open>path\<close> label is
  the client's request path, so the escaping is what keeps every series on its line
  and its labels readable. The reader below is the label grammar of the text format;
  the round trip shows that the written labels read back to exactly the sample's
  labels, and that no value can break the line. \<open>sample_line\<close> prints a whole
  sample, the \<open>le\<close> label of a bucket included; the printing of numbers (Go float
  formatting) is a parameter, and the \<open># HELP\<close> and \<open># TYPE\<close> lines are not
  modelled.
\<close>

abbreviation dquote :: char where "dquote \<equiv> CHR 0x22"

abbreviation bslash :: char where "bslash \<equiv> CHR 0x5C"

abbreviation newline :: char where "newline \<equiv> CHR 0x0A"

text \<open>\<open>s.replace(c, new)\<close> for a one-character \<open>c\<close>.\<close>

definition py_replace :: "char \<Rightarrow> string \<Rightarrow> string \<Rightarrow> string" where
  "py_replace c new s = concat (map (\<lambda>x. if x = c then new else [x]) s)"

definition escape_label_value :: "string \<Rightarrow> string" where
  "escape_label_value v =
     py_replace dquote [bslash, dquote] (py_replace newline [bslash, CHR ''n''] (py_replace bslash [bslash, bslash] v))"

text \<open>The escaping of one character, the reference the three replacements implement.\<close>

definition escape_char :: "char \<Rightarrow> string" where
  "escape_char c =
     (if c = bslash then [bslash, bslash] else if c = newline then [bslash, CHR ''n'']
      else if c = dquote then [bslash, dquote] else [c])"

text \<open>\<open>sep.join(xs)\<close>\<close>

fun py_join :: "string \<Rightarrow> string list \<Rightarrow> string" where
  "py_join sep [] = []"
| "py_join sep [x] = x"
| "py_join sep (x # y # ys) = x @ sep @ py_join sep (y # ys)"

text \<open>\<open>'{}="{}"'.format(k, escaped v)\<close>, and the label part of a sample line.\<close>

definition label_text :: "string \<times> string \<Rightarrow> string" where
  "label_text kv = fst kv @ ''='' @ [dquote] @ escape_label_value (snd kv) @ [dquote]"

definition format_labels :: "(string \<times> string) list \<Rightarrow> string" where
  "format_labels ls =
     (if ls = [] then [] else ''{'' @ py_join '','' (map label_text (sort ls)) @ ''}'')"

fun sample_labels :: "sample \<Rightarrow> (string \<times> string) list" where
  "sample_labels (Sample n ls b v) = ls"

fun sample_name :: "sample \<Rightarrow> string" where
  "sample_name (Sample n ls b v) = n"

fun sample_bound :: "sample \<Rightarrow> bound option" where
  "sample_bound (Sample n ls b v) = b"

fun sample_value :: "sample \<Rightarrow> real" where
  "sample_value (Sample n ls b v) = v"

text \<open>
  The \<open>le\<close> label the library adds to a bucket sample. The printing of a float
  (\<open>floatToGoString\<close>) is the parameter \<open>fmt\<close> of the text, of which the
  theorems assume only that it writes no newline; the \<open>+Inf\<close> bound is printed
  as such.
\<close>

fun le_label :: "(real \<Rightarrow> string) \<Rightarrow> bound option \<Rightarrow> (string \<times> string) list" where
  "le_label fmt None = []"
| "le_label fmt (Some (Bound b)) = [(''le'', fmt b)]"
| "le_label fmt (Some PosInf) = [(''le'', ''+Inf'')]"

text \<open>\<open>sample_line\<close>: \<open>'{0}{1} {2}\n'.format(name, labelstr, floatToGoString(value))\<close>.\<close>

fun sample_line :: "(real \<Rightarrow> string) \<Rightarrow> sample \<Rightarrow> string" where
  "sample_line fmt (Sample n ls b v) = n @ format_labels (ls @ le_label fmt b) @ '' '' @ fmt v @ [newline]"

text \<open>The sample lines of an exposition, metric after metric.\<close>

definition exposition_text :: "(real \<Rightarrow> string) \<Rightarrow> (string \<times> sample list) list \<Rightarrow> string" where
  "exposition_text fmt e = concat (map (\<lambda>(n, ss). concat (map (sample_line fmt) ss)) e)"

section \<open>Reading the labels back\<close>

text \<open>A quoted label value, after its opening quote: the value and what follows the closing quote.\<close>

fun read_label_value :: "string \<Rightarrow> (string \<times> string) option" where
  "read_label_value [] = None"
| "read_label_value [c] = (if c = dquote then Some ([], []) else None)"
| "read_label_value (c # d # ds) =
     (if c = dquote then Some ([], d # ds)
      else if c = bslash then map_option (apfst (Cons (if d = CHR ''n'' then newline else d))) (read_label_value ds)
      else map_option (apfst (Cons c)) (read_label_value (d # ds)))"

lemma read_label_value_shorter:
  "read_label_value s = Some (v, rest) \<Longrightarrow> length rest < length s"
  by (induction s arbitrary: v rule: read_label_value.induct) (auto split: if_splits)

lemma length_dropWhile_Cons2:
  "dropWhile P s = x # y # r \<Longrightarrow> length r < length s"
  using length_dropWhile_le [of P s] by simp

text \<open>
  The pairs \<open>name="value"\<close> separated by commas up to the closing brace: the pairs
  and what follows the brace. Each round consumes a name, a quoted value and a
  separator, so the reader terminates on every input.
\<close>

function read_labels :: "string \<Rightarrow> ((string \<times> string) list \<times> string) option" where
  "read_labels s =
     (case dropWhile (\<lambda>c. c \<noteq> CHR ''='') s of
        _ # q # r' \<Rightarrow>
          (if q \<noteq> dquote then None
           else case read_label_value r' of
                  None \<Rightarrow> None
                | Some (v, []) \<Rightarrow> None
                | Some (v, c # nxt) \<Rightarrow>
                    (if c = CHR '','' then
                       map_option (apfst (Cons (takeWhile (\<lambda>c. c \<noteq> CHR ''='') s, v))) (read_labels nxt)
                     else if c = CHR ''}'' then Some ([(takeWhile (\<lambda>c. c \<noteq> CHR ''='') s, v)], nxt)
                     else None))
      | _ \<Rightarrow> None)"
  by pat_completeness auto

termination
  by (relation "measure length") (auto dest!: read_label_value_shorter length_dropWhile_Cons2)

declare read_labels.simps [simp del]

definition parse_labels :: "string \<Rightarrow> ((string \<times> string) list \<times> string) option" where
  "parse_labels s = (case s of c # cs \<Rightarrow> if c = CHR ''{'' then read_labels cs else None | [] \<Rightarrow> None)"

section \<open>Escaping\<close>

lemma py_replace_Nil [simp]: "py_replace c new [] = []"
  by (simp add: py_replace_def)

lemma py_replace_Cons:
  "py_replace c new (x # xs) = (if x = c then new else [x]) @ py_replace c new xs"
  by (simp add: py_replace_def)

lemma py_replace_append:
  "py_replace c new (xs @ ys) = py_replace c new xs @ py_replace c new ys"
  by (simp add: py_replace_def)

text \<open>The three replacements, in the library's order, escape character by character.\<close>

lemma escape_label_value_eq:
  "escape_label_value v = concat (map escape_char v)"
proof (induction v)
  case Nil
  then show ?case by (simp add: escape_label_value_def py_replace_def)
next
  case (Cons x xs)
  then show ?case
    by (simp add: escape_label_value_def py_replace_Cons py_replace_append escape_char_def)
qed

lemma newline_not_in_escape: "newline \<notin> set (escape_label_value v)"
  by (auto simp: escape_label_value_eq escape_char_def split: if_splits)

lemma read_label_value_Cons:
  "s \<noteq> [] \<Longrightarrow> read_label_value (c # s) =
     (if c = dquote then Some ([], s)
      else if c = bslash then map_option (apfst (Cons (if hd s = CHR ''n'' then newline else hd s))) (read_label_value (tl s))
      else map_option (apfst (Cons c)) (read_label_value s))"
  by (cases s) simp_all

text \<open>Reading an escaped value up to its closing quote gives the value back.\<close>

lemma read_label_value_escape:
  "read_label_value (escape_label_value v @ dquote # rest) = Some (v, rest)"
proof (induction v)
  case Nil
  then show ?case by (cases rest) (simp_all add: escape_label_value_def py_replace_def)
next
  case (Cons x xs)
  then show ?case
    by (simp add: escape_label_value_eq escape_char_def read_label_value_Cons)
qed

section \<open>The round trip of a label set\<close>

lemma read_labels_step:
  assumes "CHR ''='' \<notin> set k"
  shows "read_labels (label_text (k, v) @ c # nxt) =
    (if c = CHR '','' then map_option (apfst (Cons (k, v))) (read_labels nxt)
     else if c = CHR ''}'' then Some ([(k, v)], nxt) else None)"
proof -
  have "dropWhile (\<lambda>c. c \<noteq> CHR ''='') (label_text (k, v) @ c # nxt) =
          CHR ''='' # dquote # escape_label_value v @ dquote # c # nxt"
    and "takeWhile (\<lambda>c. c \<noteq> CHR ''='') (label_text (k, v) @ c # nxt) = k"
    using assms by (simp_all add: label_text_def dropWhile_append takeWhile_append)
  then show ?thesis
    by (simp only: read_labels.simps [of "label_text (k, v) @ c # nxt"]) (simp add: read_label_value_escape)
qed

lemma read_labels_texts:
  assumes "ls \<noteq> []" and "\<forall>kv \<in> set ls. CHR ''='' \<notin> set (fst kv)"
  shows "read_labels (py_join '','' (map label_text ls) @ ''}'' @ rest) = Some (ls, rest)"
  using assms
proof (induction ls rule: induct_list012)
  case 1
  then show ?case by simp
next
  case (2 kv)
  then show ?case
    using read_labels_step [of "fst kv" "snd kv" "CHR ''}''" rest] by simp
next
  case (3 kv kv' ls)
  then show ?case
    using read_labels_step [of "fst kv" "snd kv" "CHR '',''"] by simp
qed

text \<open>The labels of a sample line read back as the sorted labels, whatever the values.\<close>

lemma parse_format_labels:
  assumes "ls \<noteq> []" and "\<forall>kv \<in> set ls. CHR ''='' \<notin> set (fst kv)"
  shows "parse_labels (format_labels ls @ rest) = Some (sort ls, rest)"
proof -
  have "sort ls \<noteq> []"
    using assms(1) by (metis length_0_conv length_sort)
  moreover have "\<forall>kv \<in> set (sort ls). CHR ''='' \<notin> set (fst kv)"
    using assms(2) by simp
  ultimately show ?thesis
    using assms(1) read_labels_texts [of "sort ls" rest] by (simp add: format_labels_def parse_labels_def)
qed

lemma set_py_join: "set (py_join sep xs) \<subseteq> set sep \<union> (\<Union>x \<in> set xs. set x)"
  by (induction sep xs rule: py_join.induct) auto

lemma newline_not_in_format_labels:
  assumes "\<forall>kv \<in> set ls. newline \<notin> set (fst kv)"
  shows "newline \<notin> set (format_labels ls)"
proof -
  have "newline \<notin> set (label_text kv)" if "kv \<in> set ls" for kv
    using assms that by (auto simp: label_text_def newline_not_in_escape)
  then have "newline \<notin> set (py_join '','' (map label_text (sort ls)))"
    using set_py_join [of "'',''" "map label_text (sort ls)"] by auto
  then show ?thesis
    by (simp add: format_labels_def)
qed

section \<open>Sample lines\<close>

lemma le_label_names: "\<forall>kv \<in> set (le_label fmt b). fst kv = ''le''"
  by (cases "(fmt, b)" rule: le_label.cases) simp_all

text \<open>
  A sample whose name and label names hold no newline, printed by a \<open>fmt\<close> that writes
  none, is one line: a newline ends it and none is inside it.
\<close>

lemma sample_line_one_line:
  assumes fmt: "\<forall>x. newline \<notin> set (fmt x)" and n: "newline \<notin> set (sample_name s)"
    and ls: "\<forall>kv \<in> set (sample_labels s). newline \<notin> set (fst kv)"
  shows "\<exists>body. sample_line fmt s = body @ [newline] \<and> newline \<notin> set body"
proof (cases s)
  case (Sample nm lbs b v)
  have "\<forall>kv \<in> set (lbs @ le_label fmt b). newline \<notin> set (fst kv)"
    using ls Sample le_label_names [of fmt b] by auto
  then have "newline \<notin> set (format_labels (lbs @ le_label fmt b))"
    by (rule newline_not_in_format_labels)
  with fmt n Sample show ?thesis
    by simp
qed

lemma newline_count_one_line:
  "sample_line fmt s = body @ [newline] \<Longrightarrow> newline \<notin> set body \<Longrightarrow>
     length (filter (\<lambda>ch. ch = newline) (sample_line fmt s)) = 1"
  by (auto simp: filter_empty_conv)

lemma newline_count_exposition_text:
  assumes "\<forall>s \<in> set (concat (map snd e)). length (filter (\<lambda>ch. ch = newline) (sample_line fmt s)) = 1"
  shows "length (filter (\<lambda>ch. ch = newline) (exposition_text fmt e)) = length (concat (map snd e))"
proof -
  have "length (filter (\<lambda>ch. ch = newline) (concat (map (sample_line fmt) ss))) = length ss"
    if "\<forall>s \<in> set ss. length (filter (\<lambda>ch. ch = newline) (sample_line fmt s)) = 1" for ss
    using that by (induction ss) simp_all
  then show ?thesis
    using assms by (induction e) (auto simp: exposition_text_def)
qed

text \<open>Reading a sample line after its name gives the labels back, \<open>le\<close> included.\<close>

lemma parse_sample_line:
  assumes "sample_labels s \<noteq> []" and "\<forall>kv \<in> set (sample_labels s). CHR ''='' \<notin> set (fst kv)"
  shows "parse_labels (drop (length (sample_name s)) (sample_line fmt s)) =
           Some (sort (sample_labels s @ le_label fmt (sample_bound s)), '' '' @ fmt (sample_value s) @ [newline])"
proof (cases s)
  case (Sample nm lbs b v)
  have "\<forall>kv \<in> set (lbs @ le_label fmt b). CHR ''='' \<notin> set (fst kv)"
    using assms(2) Sample le_label_names [of fmt b] by auto
  moreover have "lbs @ le_label fmt b \<noteq> []"
    using assms(1) Sample by simp
  ultimately show ?thesis
    using parse_format_labels [of "lbs @ le_label fmt b" "'' '' @ fmt v @ [newline]"] Sample by simp
qed

section \<open>The samples of the program's metrics\<close>

lemma child_samples_labels:
  assumes "child_fits (fam_kind f) ch" and "s \<in> set (child_samples f lv ch)"
  shows "sample_labels s = zip (fam_labelnames f) lv \<and> sample_name s \<in> set (family_names f)"
  using assms by (cases ch; cases "fam_kind f") (auto simp: family_names_def)

lemma family_samples_labels:
  assumes "family_wf f" and "s \<in> set (family_samples f)"
  shows "\<exists>lv. length lv = length (fam_labelnames f) \<and> sample_labels s = zip (fam_labelnames f) lv \<and>
           sample_name s \<in> set (family_names f)"
proof -
  obtain lv ch where "(lv, ch) \<in> set (fam_children f)" and "s \<in> set (child_samples f lv ch)"
    using assms(2) by (auto simp: family_samples_def)
  moreover from this assms(1) have "length lv = length (fam_labelnames f)" and "child_fits (fam_kind f) ch"
    by (auto simp: family_wf_def)
  ultimately show ?thesis
    using child_samples_labels by blast
qed

text \<open>The three families the collector designates, and their label names.\<close>

lemma collector_family_labelnames:
  assumes "collector_wf c reg" and "i \<in> {mc_me c, mc_db c, mc_external c}"
  shows "family_wf (reg ! i) \<and>
    fam_labelnames (reg ! i) \<in> {[''path'', ''method'', ''status_code''], [''status_code'', ''sql_state''], [''status_code'']}"
  using assms by (auto simp: collector_wf_def designates_def)

lemma collector_sample_labels:
  assumes "collector_wf c reg" and "i \<in> {mc_me c, mc_db c, mc_external c}" and "s \<in> set (family_samples (reg ! i))"
  shows "map fst (sample_labels s) = fam_labelnames (reg ! i) \<and> sample_name s \<in> set (family_names (reg ! i)) \<and>
         sample_labels s \<noteq> [] \<and> (\<forall>kv \<in> set (sample_labels s). CHR ''='' \<notin> set (fst kv) \<and> newline \<notin> set (fst kv))"
proof -
  from collector_family_labelnames [OF assms(1,2)]
  have wf: "family_wf (reg ! i)"
    and lns: "fam_labelnames (reg ! i) \<in> {[''path'', ''method'', ''status_code''], [''status_code'', ''sql_state''], [''status_code'']}"
    by simp_all
  obtain lv where len: "length lv = length (fam_labelnames (reg ! i))"
    and sl: "sample_labels s = zip (fam_labelnames (reg ! i)) lv" and nm: "sample_name s \<in> set (family_names (reg ! i))"
    using family_samples_labels [OF wf assms(3)] by blast
  have fst: "map fst (sample_labels s) = fam_labelnames (reg ! i)"
    using sl len by simp
  moreover have "sample_labels s \<noteq> []"
    using fst lns by auto
  moreover have "\<forall>kv \<in> set (sample_labels s). CHR ''='' \<notin> set (fst kv) \<and> newline \<notin> set (fst kv)"
  proof
    fix kv assume "kv \<in> set (sample_labels s)"
    then have "fst kv \<in> set (fam_labelnames (reg ! i))"
      using fst by (metis image_eqI list.set_map)
    with lns show "CHR ''='' \<notin> set (fst kv) \<and> newline \<notin> set (fst kv)"
      by auto
  qed
  ultimately show ?thesis
    using nm by blast
qed

text \<open>
  The self-latency family after one request to a path holding a double quote and a
  newline: its two samples, labelled with the raw path.
\<close>

lemma self_family_after_request:
  "family_samples (obs_step \<lparr>mc_me = 0, mc_db = 1, mc_external = 2\<rparr> (ObsMyself (''/a'' @ [dquote, newline] @ ''b'') ''GET'' 200 (1/2)) (snd (newCollector ''order-mgmt'' [])) ! 0) =
     [Sample ''order_mgmt_duration_seconds_count'' [(''path'', ''/a'' @ [dquote, newline] @ ''b''), (''method'', ''GET''), (''status_code'', ''200'')] None 1,
      Sample ''order_mgmt_duration_seconds_sum'' [(''path'', ''/a'' @ [dquote, newline] @ ''b''), (''method'', ''GET''), (''status_code'', ''200'')] None (1/2)]"
  using service_name_ok collector_names_ok [OF service_name_ok]
  by (simp add: newCollector_unfold obs_step_def observe_labelled_def get_or_create_child_def
      family_samples_def replace_char_def decimal_digits.simps char_of_def bit_0)

lemma self_family_after_request_wf:
  "collector_wf \<lparr>mc_me = 0, mc_db = 1, mc_external = 2\<rparr> (obs_step \<lparr>mc_me = 0, mc_db = 1, mc_external = 2\<rparr> (ObsMyself (''/a'' @ [dquote, newline] @ ''b'') ''GET'' 200 (1/2)) (snd (newCollector ''order-mgmt'' [])))"
  using collector_wf_obs_step [OF conjunct2 [OF order_mgmt_collector]] by simp

section \<open>Properties of the exposition\<close>

text \<open>
  Every sample the program's three families expose is well typed: its label
  names are exactly the family's label names, in order, and its name is one of the
  names the family claimed when it was registered (its own name with a sample
  suffix of its type).
\<close>

theorem exposition_samples_typed:
  assumes wf: "collector_wf c reg" and i: "i \<in> {mc_me c, mc_db c, mc_external c}"
    and s: "s \<in> set (family_samples (reg ! i))"
  shows "map fst (sample_labels s) = fam_labelnames (reg ! i) \<and> sample_name s \<in> set (family_names (reg ! i))"
  using collector_sample_labels [OF wf i s] by blast

theorem exposition_samples_typed_witness:
  "map fst [(''path'', ''/a'' @ [dquote, newline] @ ''b''), (''method'', ''GET''), (''status_code'', ''200'')] = [''path'', ''method'', ''status_code''] \<and>
   ''order_mgmt_duration_seconds_count'' \<in> set (family_names (obs_step \<lparr>mc_me = 0, mc_db = 1, mc_external = 2\<rparr> (ObsMyself (''/a'' @ [dquote, newline] @ ''b'') ''GET'' 200 (1/2)) (snd (newCollector ''order-mgmt'' [])) ! 0))"
proof -
  have "Sample ''order_mgmt_duration_seconds_count'' [(''path'', ''/a'' @ [dquote, newline] @ ''b''), (''method'', ''GET''), (''status_code'', ''200'')] None 1 \<in> set (family_samples (obs_step \<lparr>mc_me = 0, mc_db = 1, mc_external = 2\<rparr> (ObsMyself (''/a'' @ [dquote, newline] @ ''b'') ''GET'' 200 (1/2)) (snd (newCollector ''order-mgmt'' [])) ! 0))"
    using self_family_after_request by simp
  from exposition_samples_typed [OF self_family_after_request_wf _ this] show ?thesis
    by simp
qed

text \<open>
  The label part of every sample line the program's metrics produce reads back
  as exactly the sample's labels (sorted by name), whatever the label values hold,
  the client's request path included, and contains no newline: no request path can
  break a line of the exposition or forge a label.
\<close>

theorem exposition_labels_roundtrip:
  assumes wf: "collector_wf c reg" and i: "i \<in> {mc_me c, mc_db c, mc_external c}"
    and s: "s \<in> set (family_samples (reg ! i))"
  shows "parse_labels (format_labels (sample_labels s) @ rest) = Some (sort (sample_labels s), rest) \<and>
         newline \<notin> set (format_labels (sample_labels s))"
proof -
  have "sample_labels s \<noteq> []" and "\<forall>kv \<in> set (sample_labels s). CHR ''='' \<notin> set (fst kv)"
    and "\<forall>kv \<in> set (sample_labels s). newline \<notin> set (fst kv)"
    using collector_sample_labels [OF wf i s] by auto
  then show ?thesis
    using parse_format_labels newline_not_in_format_labels by blast
qed

theorem exposition_labels_roundtrip_witness:
  "parse_labels (format_labels [(''path'', ''/a'' @ [dquote, newline] @ ''b''), (''method'', ''GET''), (''status_code'', ''200'')] @ '' 1'') = Some (sort [(''path'', ''/a'' @ [dquote, newline] @ ''b''), (''method'', ''GET''), (''status_code'', ''200'')], '' 1'') \<and> newline \<notin> set (format_labels [(''path'', ''/a'' @ [dquote, newline] @ ''b''), (''method'', ''GET''), (''status_code'', ''200'')])"
proof -
  have "Sample ''order_mgmt_duration_seconds_count'' [(''path'', ''/a'' @ [dquote, newline] @ ''b''), (''method'', ''GET''), (''status_code'', ''200'')] None 1 \<in> set (family_samples (obs_step \<lparr>mc_me = 0, mc_db = 1, mc_external = 2\<rparr> (ObsMyself (''/a'' @ [dquote, newline] @ ''b'') ''GET'' 200 (1/2)) (snd (newCollector ''order-mgmt'' [])) ! 0))"
    using self_family_after_request by simp
  from exposition_labels_roundtrip [OF self_family_after_request_wf _ this, of "'' 1''"] show ?thesis
    by simp
qed

end
