(* ===== verification/Scrape.thy ===== *)
theory Scrape
  imports Workers Exposition
begin

text \<open>
  The text a scrape of the deployed service returns: the metrics view of any worker
  (\<open>metrics_rotue\<close> calling \<open>get_latest_when_running_with_gunicorn\<close>, src/src/main.py
  lines 159-169) renders the merged metrics of all workers, and \<open>generate_latest\<close>
  prints one line per sample. This theory joins the server model (\<open>Workers\<close>), the
  merge (\<open>Multiprocess\<close>) and the text format (\<open>Exposition\<close>).
\<close>

section \<open>The families of the deployed service\<close>

lemma order_mgmt_reg_names:
  "length order_mgmt_reg = 3 \<and> (\<forall>f \<in> set order_mgmt_reg. \<forall>n \<in> set (family_names f). newline \<notin> set n)"
  using service_name_ok collector_names_ok [OF service_name_ok]
  by (simp add: newCollector_unfold replace_char_def family_names_def db_bounds_def)

lemma order_mgmt_run_wf: "collector_wf order_mgmt_c (fold (obs_step order_mgmt_c) es order_mgmt_reg)"
  using collector_wf_fold_obs_step [OF conjunct2 [OF order_mgmt_collector]] by simp

text \<open>The merged registry of workers' runs: the invariant, three families, their names.\<close>

lemma merged_runs:
  assumes "ess \<noteq> []"
  shows "collector_wf order_mgmt_c (multiprocess_collect (map (\<lambda>es. fold (obs_step order_mgmt_c) es order_mgmt_reg) ess)) \<and>
    length (multiprocess_collect (map (\<lambda>es. fold (obs_step order_mgmt_c) es order_mgmt_reg) ess)) = 3 \<and>
    (\<forall>i < 3. family_names (multiprocess_collect (map (\<lambda>es. fold (obs_step order_mgmt_c) es order_mgmt_reg) ess) ! i) =
              family_names (order_mgmt_reg ! i))"
proof -
  obtain es ess' where ess: "ess = es # ess'"
    using assms by (cases ess) simp_all
  let ?W = "\<lambda>es. fold (obs_step order_mgmt_c) es order_mgmt_reg"
  have len: "\<forall>r' \<in> set (map ?W ess'). length r' = length (?W es)"
    by simp
  have "collector_wf order_mgmt_c (multiprocess_collect (?W es # map ?W ess'))"
    using order_mgmt_run_wf by (intro collector_wf_multiprocess_collect) auto
  moreover have "length (multiprocess_collect (?W es # map ?W ess')) = 3"
    using length_multiprocess_collect [OF len] order_mgmt_reg_names by simp
  moreover have "family_names (multiprocess_collect (?W es # map ?W ess') ! i) = family_names (order_mgmt_reg ! i)"
    if "i < 3" for i
    using that order_mgmt_reg_names multiprocess_collect_nth [OF len, of i] fold_merge_family_meta
      fold_obs_step_nth [OF conjunct2 [OF order_mgmt_collector], of i es]
    by (simp add: family_names_def)
  ultimately show ?thesis
    using ess by simp
qed

text \<open>Every sample a scrape reports is of one of the collector's three families.\<close>

lemma render_sample:
  "s \<in> set (concat (map snd (multiprocess_render rs))) \<Longrightarrow>
     \<exists>i < length (multiprocess_collect rs). s \<in> set (family_samples (multiprocess_collect rs ! i))"
  by (auto simp: multiprocess_render_def render_def in_set_conv_nth)

lemma merged_sample_ok:
  assumes "ess \<noteq> []"
    and s: "s \<in> set (concat (map snd (multiprocess_render (map (\<lambda>es. fold (obs_step order_mgmt_c) es order_mgmt_reg) ess))))"
  shows "sample_labels s \<noteq> [] \<and> newline \<notin> set (sample_name s) \<and>
    (\<forall>kv \<in> set (sample_labels s). CHR ''='' \<notin> set (fst kv) \<and> newline \<notin> set (fst kv))"
proof -
  let ?M = "multiprocess_collect (map (\<lambda>es. fold (obs_step order_mgmt_c) es order_mgmt_reg) ess)"
  obtain i where i: "i < length ?M" and si: "s \<in> set (family_samples (?M ! i))"
    using render_sample [OF s] by blast
  have wf: "collector_wf order_mgmt_c ?M" and three: "length ?M = 3"
    and names: "family_names (?M ! i) = family_names (order_mgmt_reg ! i)"
    using merged_runs [OF assms(1)] i by simp_all
  have "i \<in> {mc_me order_mgmt_c, mc_db order_mgmt_c, mc_external order_mgmt_c}"
    using i three by auto
  from collector_sample_labels [OF wf this si] names
  have "sample_labels s \<noteq> [] \<and> (\<forall>kv \<in> set (sample_labels s). CHR ''='' \<notin> set (fst kv) \<and> newline \<notin> set (fst kv))"
    and "sample_name s \<in> set (family_names (order_mgmt_reg ! i))"
    by simp_all
  moreover have "newline \<notin> set (sample_name s)"
    using calculation(2) order_mgmt_reg_names i three by (metis nth_mem)
  ultimately show ?thesis
    by blast
qed

lemma nth_mem_reordered:
  assumes "j < length xs" and "k < length xs"
  shows "xs ! j \<in> set (xs ! k # take k xs @ drop (Suc k) xs)"
proof -
  have "set xs = set (take k xs @ xs ! k # drop (Suc k) xs)"
    using id_take_nth_drop [OF assms(2)] by simp
  then show ?thesis
    using nth_mem [OF assms(1)] by auto
qed

lemma order_mgmt_reg_me_name: "fam_name (order_mgmt_reg ! 0) = ''order_mgmt_duration_seconds''"
  using service_name_ok collector_names_ok [OF service_name_ok]
  by (simp add: newCollector_unfold replace_char_def)

text \<open>A request handled by a worker leaves a child of its tuple in the worker's self family.\<close>

lemma handle_request_self_child:
  assumes wf: "collector_wf (app_collector a) (st_registry st)" and p: "req_path r \<noteq> ''/metrics''"
  shows "[req_path r, req_method r, decimal_digits (resp_status (fst (handle_request a r st)))] \<in>
           fst ` set (fam_children (st_registry (snd (handle_request a r st)) ! mc_me (app_collector a)))"
proof -
  let ?R = "st_registry (snd (dispatch_request a r (snd (before st))))"
  have wf2: "collector_wf (app_collector a) ?R"
    using wf by (simp add: before_eq dispatch_request_wf)
  then have me: "mc_me (app_collector a) < length ?R"
    by (simp add: collector_wf_def designates_def)
  obtain l where "apply_obs_list (app_collector a)
      [ObsMyself (req_path r) (req_method r) (resp_status (fst (handle_request a r st))) l] ?R =
        Inr (st_registry (snd (handle_request a r st)))"
    using handle_request_observed [OF wf p] by blast
  then have "st_registry (snd (handle_request a r st)) =
      fold (obs_step (app_collector a))
        [ObsMyself (req_path r) (req_method r) (resp_status (fst (handle_request a r st))) l] ?R"
    by (simp only: apply_obs_list_fold [OF wf2] sum.inject eq_commute)
  also have "\<dots> = ?R[mc_me (app_collector a) := observe_labelled
      [req_path r, req_method r, decimal_digits (resp_status (fst (handle_request a r st)))] l (?R ! mc_me (app_collector a))]"
    by (simp add: obs_step_def)
  finally show ?thesis
    using me by (simp add: keys_observe_labelled)
qed

text \<open>The merged self family holds every tuple a worker's self family holds.\<close>

lemma merged_self_keys:
  assumes "ess \<noteq> []" and "es \<in> set ess"
  shows "fst ` set (fam_children (fold (obs_step order_mgmt_c) es order_mgmt_reg ! 0)) \<subseteq>
    fst ` set (fam_children (multiprocess_collect (map (\<lambda>es. fold (obs_step order_mgmt_c) es order_mgmt_reg) ess) ! 0))"
proof -
  obtain e0 ess' where ess: "ess = e0 # ess'"
    using assms by (cases ess) simp_all
  let ?W = "\<lambda>es. fold (obs_step order_mgmt_c) es order_mgmt_reg"
  have "\<forall>r' \<in> set (map ?W ess'). length r' = length (?W e0)"
    by simp
  from multiprocess_collect_nth [OF this, of 0] order_mgmt_reg_names
  have "multiprocess_collect (map ?W ess) ! 0 = fold (\<lambda>r' f. merge_family f (r' ! 0)) (map ?W ess') (?W e0 ! 0)"
    using ess by simp
  then show ?thesis
    using assms(2) ess by (auto simp: keys_fold_merge_family)
qed

lemma render_sample_in:
  "f \<in> set (multiprocess_collect rs) \<Longrightarrow> fam_children f \<noteq> [] \<Longrightarrow> s \<in> set (family_samples f) \<Longrightarrow>
     s \<in> set (concat (map snd (multiprocess_render rs)))"
  by (auto simp: multiprocess_render_def render_def)

section \<open>The text of a scrape\<close>

text \<open>
  In every state of the deployment, a \<open>GET /metrics\<close> handed to any worker
  answers 200 with an exposition whose text has exactly one line per sample: each
  sample line ends with the only newline it holds, and reading it after the sample's
  name gives back exactly the sample's labels (with \<open>le\<close> for a bucket) and then its
  value. No request path the workers have recorded, however it is written, can add
  a line to the scrape or change a label of it.
\<close>

theorem scrape_one_line_per_sample:
  assumes reach: "gunicorn_reachable c ws" and j: "j < length ws"
    and p: "req_path r = ''/metrics''" and m: "req_method r = ''GET''"
    and fmt: "\<forall>x. newline \<notin> set (fmt x)"
  shows "\<exists>E. fst (gunicorn_step c j r ws) =
             Some \<lparr>resp_status = 200, resp_body = Exposition E, resp_mimetype = ''text/plain''\<rparr> \<and>
           length (filter (\<lambda>ch. ch = newline) (exposition_text fmt E)) = length (concat (map snd E)) \<and>
           (\<forall>s \<in> set (concat (map snd E)).
              (\<exists>body. sample_line fmt s = body @ [newline] \<and> newline \<notin> set body) \<and>
              parse_labels (drop (length (sample_name s)) (sample_line fmt s)) =
                Some (sort (sample_labels s @ le_label fmt (sample_bound s)), '' '' @ fmt (sample_value s) @ [newline]))"
proof -
  obtain ess where c: "c = order_mgmt_c" and len: "length ess = length ws"
    and resp: "fst (gunicorn_step c j r ws) =
           Some \<lparr>resp_status = 200,
                 resp_body = Exposition (multiprocess_render
                   (map (\<lambda>es. fold (obs_step c) es order_mgmt_reg) (ess ! j # take j ess @ drop (Suc j) ess))),
                 resp_mimetype = ''text/plain''\<rparr>"
    by (rule gunicorn_scrape_response [OF reach j p m])
  let ?E = "multiprocess_render (map (\<lambda>es. fold (obs_step c) es order_mgmt_reg) (ess ! j # take j ess @ drop (Suc j) ess))"
  have ok: "sample_labels s \<noteq> [] \<and> newline \<notin> set (sample_name s) \<and>
      (\<forall>kv \<in> set (sample_labels s). CHR ''='' \<notin> set (fst kv) \<and> newline \<notin> set (fst kv))"
    if "s \<in> set (concat (map snd ?E))" for s
    using merged_sample_ok [of "ess ! j # take j ess @ drop (Suc j) ess" s] that c by simp
  have lines: "\<exists>body. sample_line fmt s = body @ [newline] \<and> newline \<notin> set body"
    if "s \<in> set (concat (map snd ?E))" for s
    using ok [OF that] by (intro sample_line_one_line [OF fmt]) simp_all
  have "length (filter (\<lambda>ch. ch = newline) (exposition_text fmt ?E)) = length (concat (map snd ?E))"
    using lines by (intro newline_count_exposition_text) (blast intro: newline_count_one_line)
  moreover have "parse_labels (drop (length (sample_name s)) (sample_line fmt s)) =
      Some (sort (sample_labels s @ le_label fmt (sample_bound s)), '' '' @ fmt (sample_value s) @ [newline])"
    if "s \<in> set (concat (map snd ?E))" for s
    using ok [OF that] by (intro parse_sample_line) simp_all
  ultimately show ?thesis
    using resp lines by blast
qed

theorem scrape_one_line_per_sample_witness:
  "\<exists>E. fst (gunicorn_step order_mgmt_c 1 \<lparr>req_path = ''/metrics'', req_method = ''GET'', req_args = []\<rparr>
          [\<lparr>st_registry = order_mgmt_reg, st_clock = \<lparr>now = 0, adjust = []\<rparr>\<rparr>,
           \<lparr>st_registry = order_mgmt_reg, st_clock = \<lparr>now = 0, adjust = []\<rparr>\<rparr>]) =
         Some \<lparr>resp_status = 200, resp_body = Exposition E, resp_mimetype = ''text/plain''\<rparr> \<and>
       length (filter (\<lambda>ch. ch = newline) (exposition_text (\<lambda>x. ''1.0'') E)) = length (concat (map snd E)) \<and>
       (\<forall>s \<in> set (concat (map snd E)).
          (\<exists>body. sample_line (\<lambda>x. ''1.0'') s = body @ [newline] \<and> newline \<notin> set body) \<and>
          parse_labels (drop (length (sample_name s)) (sample_line (\<lambda>x. ''1.0'') s)) =
            Some (sort (sample_labels s @ le_label (\<lambda>x. ''1.0'') (sample_bound s)), '' '' @ ''1.0'' @ [newline]))"
  by (rule scrape_one_line_per_sample [OF two_workers_reachable]) simp_all

text \<open>
  Once a worker has answered a request to any path but \<open>/metrics\<close>, the next
  scrape handed to any worker, the same or another, answers 200 and reports the
  \<open>_count\<close> sample of that request's series (its path, method and final status):
  every worker's observation becomes visible in every worker's scrape.
\<close>

theorem scrape_sees_request:
  assumes reach: "gunicorn_reachable c ws" and j: "j < length ws" and k: "k < length ws"
    and p: "req_path r \<noteq> ''/metrics''"
    and qp: "req_path q = ''/metrics''" and qm: "req_method q = ''GET''"
  shows "\<exists>resp E v. fst (gunicorn_step c j r ws) = Some resp \<and>
           fst (gunicorn_step c k q (snd (gunicorn_step c j r ws))) =
             Some \<lparr>resp_status = 200, resp_body = Exposition E, resp_mimetype = ''text/plain''\<rparr> \<and>
           Sample ''order_mgmt_duration_seconds_count''
             [(''path'', req_path r), (''method'', req_method r), (''status_code'', decimal_digits (resp_status resp))]
             None v \<in> set (concat (map snd E))"
proof -
  let ?a = "worker_app c ws j"
  let ?ws' = "snd (gunicorn_step c j r ws)"
  let ?resp = "fst (handle_request ?a r (ws ! j))"
  let ?lv = "[req_path r, req_method r, decimal_digits (resp_status ?resp)]"
  obtain ess where c: "c = order_mgmt_c" and len: "length ess = length ws"
    and regs: "\<forall>k < length ws. st_registry (ws ! k) = fold (obs_step c) (ess ! k) order_mgmt_reg"
    using gunicorn_runs [OF reach] by blast
  have wf: "collector_wf (app_collector ?a) (st_registry (ws ! j))"
    using regs j c order_mgmt_run_wf by (simp add: worker_app_def)
  have step: "fst (gunicorn_step c j r ws) = Some ?resp"
    and regj: "st_registry (?ws' ! j) = st_registry (snd (handle_request ?a r (ws ! j)))"
    and len': "length ?ws' = length ws"
    using j by (simp_all add: gunicorn_step_def split_def Let_def)
  have lvj: "?lv \<in> fst ` set (fam_children (st_registry (?ws' ! j) ! 0))"
    using handle_request_self_child [OF wf p] regj c by (simp add: worker_app_def)
  have reach': "gunicorn_reachable c ?ws'"
    using reach by (rule gunicorn_reachable.step)
  obtain ess' where len2: "length ess' = length ?ws'"
    and regs': "\<forall>k < length ?ws'. st_registry (?ws' ! k) = fold (obs_step c) (ess' ! k) order_mgmt_reg"
    and resp': "fst (gunicorn_step c k q ?ws') =
           Some \<lparr>resp_status = 200,
                 resp_body = Exposition (multiprocess_render
                   (map (\<lambda>es. fold (obs_step c) es order_mgmt_reg) (ess' ! k # take k ess' @ drop (Suc k) ess'))),
                 resp_mimetype = ''text/plain''\<rparr>"
    using gunicorn_scrape_response [OF reach'] k qp qm len' by metis
  let ?L = "ess' ! k # take k ess' @ drop (Suc k) ess'"
  let ?M = "multiprocess_collect (map (\<lambda>es. fold (obs_step order_mgmt_c) es order_mgmt_reg) ?L)"
  have "?lv \<in> fst ` set (fam_children (?M ! 0))"
    using merged_self_keys [of ?L "ess' ! j"] nth_mem_reordered [of j ess' k] lvj regs' j k len' len2 c
    by auto
  then obtain ch where ch: "(?lv, ch) \<in> set (fam_children (?M ! 0))"
    by auto
  have wfM: "collector_wf order_mgmt_c ?M" and three: "length ?M = 3"
    and names: "family_names (?M ! 0) = family_names (order_mgmt_reg ! 0)"
    using merged_runs [of ?L] by simp_all
  then have fam: "family_wf (?M ! 0)" "fam_labelnames (?M ! 0) = [''path'', ''method'', ''status_code'']"
    "fam_kind (?M ! 0) = KSummary"
    by (simp_all add: collector_wf_def designates_def)
  then obtain n sm where chs: "ch = SummaryChild n sm"
    using ch by (cases ch) (auto simp: family_wf_def)
  have "fam_name (?M ! 0) = ''order_mgmt_duration_seconds''"
    using names order_mgmt_reg_me_name by (simp add: family_names_def)
  then have samp: "Sample ''order_mgmt_duration_seconds_count'' (zip [''path'', ''method'', ''status_code''] ?lv) None (real n)
               \<in> set (family_samples (?M ! 0))"
    using ch chs fam(2) by (force simp: family_samples_def)
  have "Sample ''order_mgmt_duration_seconds_count'' (zip [''path'', ''method'', ''status_code''] ?lv) None (real n)
               \<in> set (concat (map snd (multiprocess_render (map (\<lambda>es. fold (obs_step order_mgmt_c) es order_mgmt_reg) ?L))))"
  proof (rule render_sample_in [OF _ _ samp])
    show "?M ! 0 \<in> set ?M"
      using three by (simp add: nth_mem)
    show "fam_children (?M ! 0) \<noteq> []"
      using ch by auto
  qed
  then show ?thesis
    using step resp' c by auto
qed

theorem scrape_sees_request_witness:
  "\<exists>resp E v. fst (gunicorn_step order_mgmt_c 0 \<lparr>req_path = ''/hello'', req_method = ''GET'', req_args = []\<rparr>
          [\<lparr>st_registry = order_mgmt_reg, st_clock = \<lparr>now = 0, adjust = []\<rparr>\<rparr>,
           \<lparr>st_registry = order_mgmt_reg, st_clock = \<lparr>now = 0, adjust = []\<rparr>\<rparr>]) = Some resp \<and>
     fst (gunicorn_step order_mgmt_c 1 \<lparr>req_path = ''/metrics'', req_method = ''GET'', req_args = []\<rparr>
          (snd (gunicorn_step order_mgmt_c 0 \<lparr>req_path = ''/hello'', req_method = ''GET'', req_args = []\<rparr>
          [\<lparr>st_registry = order_mgmt_reg, st_clock = \<lparr>now = 0, adjust = []\<rparr>\<rparr>,
           \<lparr>st_registry = order_mgmt_reg, st_clock = \<lparr>now = 0, adjust = []\<rparr>\<rparr>]))) =
       Some \<lparr>resp_status = 200, resp_body = Exposition E, resp_mimetype = ''text/plain''\<rparr> \<and>
     Sample ''order_mgmt_duration_seconds_count''
       [(''path'', ''/hello''), (''method'', ''GET''), (''status_code'', decimal_digits (resp_status resp))]
       None v \<in> set (concat (map snd E))"
  using scrape_sees_request [OF two_workers_reachable, of 0 1 "\<lparr>req_path = ''/hello'', req_method = ''GET'', req_args = []\<rparr>"
      "\<lparr>req_path = ''/metrics'', req_method = ''GET'', req_args = []\<rparr>"]
  by simp

end
