(* ===== verification/Counters.thy ===== *)
theory Counters
  imports Scrape "HOL-Library.Sublist"
begin

text \<open>
  The \<open>_count\<close> of a series as successive scrapes of the deployment report it.
  Prometheus treats \<open>_count\<close> as a counter: between two scrapes it may only grow,
  a decrease being read as a restart of the process. Each worker only adds
  observations to its metrics, and \<open>MultiProcessCollector\<close> adds the workers' counts
  up, so the count a scrape reports never decreases along a run of the deployment,
  whichever workers answer the scrapes.
\<close>

text \<open>The number of observations a child holds: the value of its \<open>_count\<close> sample.\<close>

fun child_count :: "child \<Rightarrow> nat" where
  "child_count (SummaryChild n s) = n"
| "child_count (HistogramChild cs s) = sum_list cs"

fun opt_count :: "child option \<Rightarrow> nat" where
  "opt_count None = 0"
| "opt_count (Some ch) = child_count ch"

text \<open>A later child of the same tuple: present whenever the earlier one is, and not fewer.\<close>

fun child_le :: "child option \<Rightarrow> child option \<Rightarrow> bool" where
  "child_le None _ = True"
| "child_le (Some a) None = False"
| "child_le (Some a) (Some b) = (child_count a \<le> child_count b)"

text \<open>
  One move of the deployment: a worker answers a request, a worker's clock changes, or
  a new worker starts on a fresh registry (the exited worker it replaces keeps its
  place, as its metric files do).
\<close>

inductive gunicorn_move :: "metric_collector \<Rightarrow> app_state list \<Rightarrow> app_state list \<Rightarrow> bool" for c where
  serve: "gunicorn_move c ws (snd (gunicorn_step c j r ws))"
| tick: "j < length ws \<Longrightarrow> gunicorn_move c ws (ws[j := (ws ! j)\<lparr>st_clock := clk\<rparr>])"
| spawn: "get_app (MultiProcess []) [] = (Inr a, reg) \<Longrightarrow> app_collector a = c \<Longrightarrow>
            gunicorn_move c ws (ws @ [\<lparr>st_registry = reg, st_clock = clk\<rparr>])"

text \<open>Every worker's children of one run are covered by its children of a later state.\<close>

definition counts_grow :: "app_state list \<Rightarrow> app_state list \<Rightarrow> bool" where
  "counts_grow ws ws' \<longleftrightarrow> length ws \<le> length ws' \<and>
     (\<forall>k < length ws. \<forall>i lv. child_le (map_of (fam_children (st_registry (ws ! k) ! i)) lv)
                                      (map_of (fam_children (st_registry (ws' ! k) ! i)) lv))"

section \<open>A worker's counts only grow\<close>

lemma sum_list_observe_buckets: "sum_list cs \<le> sum_list (observe_buckets v bs cs)"
  by (induction v bs cs rule: observe_buckets.induct) simp_all

lemma child_count_observe: "child_count c \<le> child_count (observe_child k v c)"
  by (cases "(k, v, c)" rule: observe_child.cases) (simp_all add: sum_list_observe_buckets)

lemma child_le_refl [simp]: "child_le x x"
  by (cases x) simp_all

lemma child_le_trans: "child_le x y \<Longrightarrow> child_le y z \<Longrightarrow> child_le x z"
  by (cases x; cases y; cases z) simp_all

lemma nth_list_update_out: "length xs \<le> i \<Longrightarrow> xs[k := v] ! i = xs ! i"
proof (induction xs arbitrary: i k)
  case Nil
  then show ?case by simp
next
  case (Cons x xs)
  then show ?case by (cases i; cases k) simp_all
qed

lemma child_le_obs_step:
  "child_le (map_of (fam_children (r ! i)) lv) (map_of (fam_children (obs_step c e r ! i)) lv)"
proof -
  obtain i' lv' d where t: "obs_target c e = (i', lv', d)"
    by (cases "obs_target c e") blast
  show ?thesis
  proof (cases "i' = i \<and> i < length r")
    case True
    then show ?thesis
      using t by (cases "map_of (fam_children (r ! i)) lv'")
        (auto simp: obs_step_def map_of_observe_labelled child_count_observe)
  next
    case False
    then show ?thesis
      using t by (cases "i < length r") (auto simp: obs_step_def nth_list_update nth_list_update_out)
  qed
qed

lemma child_le_fold_obs_step:
  "child_le (map_of (fam_children (r ! i)) lv) (map_of (fam_children (fold (obs_step c) es r ! i)) lv)"
proof (induction es arbitrary: r)
  case Nil
  then show ?case by simp
next
  case (Cons e es)
  then show ?case
    using child_le_trans child_le_obs_step by fastforce
qed

lemma counts_grow_refl [simp]: "counts_grow ws ws"
  by (simp add: counts_grow_def)

lemma counts_grow_trans:
  assumes "counts_grow ws ws'" and "counts_grow ws' ws''"
  shows "counts_grow ws ws''"
  unfolding counts_grow_def
proof (intro conjI allI impI)
  show "length ws \<le> length ws''"
    using assms by (simp add: counts_grow_def)
next
  fix k i lv
  assume "k < length ws"
  then show "child_le (map_of (fam_children (st_registry (ws ! k) ! i)) lv)
                      (map_of (fam_children (st_registry (ws'' ! k) ! i)) lv)"
  proof -
    have "length ws \<le> length ws'" and "k < length ws'"
      using assms \<open>k < length ws\<close> by (simp_all add: counts_grow_def)
    with assms \<open>k < length ws\<close> show ?thesis
      unfolding counts_grow_def by (blast intro: child_le_trans)
  qed
qed

lemma length_gunicorn_step [simp]: "length (snd (gunicorn_step c j r ws)) = length ws"
  by (simp add: gunicorn_step_def split_def Let_def)

lemma gunicorn_move_reachable:
  "gunicorn_reachable c ws \<Longrightarrow> gunicorn_move c ws ws' \<Longrightarrow> gunicorn_reachable c ws'"
  by (erule gunicorn_move.cases) (simp_all add: gunicorn_reachable.step gunicorn_reachable.tick gunicorn_reachable.spawn)

lemma gunicorn_move_grows:
  assumes reach: "gunicorn_reachable c ws" and move: "gunicorn_move c ws ws'"
  shows "counts_grow ws ws'"
  using move
proof cases
  case (serve j r)
  show ?thesis
  proof (cases "j < length ws")
    case True
    obtain ess where c: "c = order_mgmt_c"
      and regs: "\<forall>k < length ws. st_registry (ws ! k) = fold (obs_step c) (ess ! k) order_mgmt_reg"
      using gunicorn_runs [OF reach] by blast
    have "collector_wf (app_collector (worker_app c ws j)) (st_registry (ws ! j))"
      using regs True c order_mgmt_run_wf by (simp add: worker_app_def)
    from handle_request_reach [OF this, of r] obtain es where
      es: "st_registry (snd (handle_request (worker_app c ws j) r (ws ! j))) = fold (obs_step c) es (st_registry (ws ! j))"
      by (auto simp: obs_reach_def worker_app_def)
    have ws': "ws' = ws[j := snd (handle_request (worker_app c ws j) r (ws ! j))]"
      using serve True by (simp add: gunicorn_step_def split_def Let_def)
    show ?thesis
      unfolding counts_grow_def
    proof (intro conjI allI impI)
      show "length ws \<le> length ws'"
        using ws' by simp
    next
      fix k i lv
      assume k: "k < length ws"
      show "child_le (map_of (fam_children (st_registry (ws ! k) ! i)) lv)
                     (map_of (fam_children (st_registry (ws' ! k) ! i)) lv)"
      proof (cases "k = j")
        case True
        then show ?thesis
          using ws' k es child_le_fold_obs_step by simp
      next
        case False
        then show ?thesis
          using ws' by simp
      qed
    qed
  next
    case False
    then show ?thesis
      using serve by (simp add: gunicorn_step_def)
  qed
next
  case (tick j clk)
  then show ?thesis
    by (auto simp: counts_grow_def nth_list_update)
next
  case (spawn a reg clk)
  then show ?thesis
    by (auto simp: counts_grow_def nth_append)
qed

text \<open>Along any run of the deployment every worker's children only gain observations.\<close>

lemma gunicorn_run_grows:
  assumes "(gunicorn_move c)\<^sup>*\<^sup>* ws ws'" and "gunicorn_reachable c ws"
  shows "gunicorn_reachable c ws' \<and> counts_grow ws ws'"
  using assms
proof (induction rule: rtranclp_induct)
  case base
  then show ?case by simp
next
  case (step ws1 ws2)
  then show ?case
    using gunicorn_move_reachable gunicorn_move_grows counts_grow_trans by blast
qed

section \<open>The merged count is the sum of the workers' counts\<close>

lemma sum_list_map2_plus:
  "length cs = length ds \<Longrightarrow> sum_list (map2 (+) cs ds) = sum_list cs + sum_list (ds :: nat list)"
proof (induction cs arbitrary: ds)
  case Nil
  then show ?case by simp
next
  case (Cons c cs)
  then show ?case by (cases ds) simp_all
qed

lemma child_count_add:
  "child_fits k a \<Longrightarrow> child_fits k b \<Longrightarrow> child_count (child_add a b) = child_count a + child_count b"
  by (cases k; cases a; cases b) (simp_all add: sum_list_map2_plus)

text \<open>The children of one tuple that the workers have, all of the family's kind.\<close>

definition opt_fits :: "kind \<Rightarrow> child option \<Rightarrow> bool" where
  "opt_fits k co = (case co of None \<Rightarrow> True | Some ch \<Rightarrow> child_fits k ch)"

lemma child_opt_add_count:
  "opt_fits k a \<Longrightarrow> opt_fits k b \<Longrightarrow>
     opt_fits k (child_opt_add a b) \<and> opt_count (child_opt_add a b) = opt_count a + opt_count b"
  by (cases a; cases b) (simp_all add: opt_fits_def child_count_add child_fits_add)

lemma child_opt_add_None: "child_opt_add a b = None \<longleftrightarrow> a = None \<and> b = None"
  by (cases a; cases b) simp_all

lemma fold_child_opt_add_count:
  assumes "opt_fits k x" and "\<forall>r \<in> set rs. opt_fits k (g r)"
  shows "opt_count (fold (\<lambda>r co. child_opt_add co (g r)) rs x) = opt_count x + sum_list (map (opt_count \<circ> g) rs)"
  using assms
proof (induction rs arbitrary: x)
  case Nil
  then show ?case by simp
next
  case (Cons r rs)
  then show ?case
    using child_opt_add_count [of k x "g r"] by simp
qed

lemma fold_child_opt_add_None:
  "fold (\<lambda>r co. child_opt_add co (g r)) rs x = None \<longleftrightarrow> x = None \<and> (\<forall>r \<in> set rs. g r = None)"
  by (induction rs arbitrary: x) (auto simp: child_opt_add_None)

lemma opt_fits_map_of:
  "family_wf f \<Longrightarrow> opt_fits (fam_kind f) (map_of (fam_children f) lv)"
  by (cases "map_of (fam_children f) lv") (auto simp: opt_fits_def family_wf_def dest!: map_of_SomeD)

text \<open>
  The child of a tuple in family \<open>i\<close> of the merged metrics: absent exactly when no
  worker has one, and holding the sum of the workers' counts.
\<close>

lemma merged_child:
  assumes "\<forall>r' \<in> set (r # rs). length r' = length r \<and> family_wf (r' ! i) \<and> fam_kind (r' ! i) = k"
    and "i < length r"
  shows "opt_count (map_of (fam_children (multiprocess_collect (r # rs) ! i)) lv) =
           sum_list (map (\<lambda>r'. opt_count (map_of (fam_children (r' ! i)) lv)) (r # rs)) \<and>
         (map_of (fam_children (multiprocess_collect (r # rs) ! i)) lv = None \<longleftrightarrow>
           (\<forall>r' \<in> set (r # rs). map_of (fam_children (r' ! i)) lv = None))"
proof -
  have len: "\<forall>r' \<in> set rs. length r' = length r"
    using assms(1) by simp
  have dist: "\<forall>r' \<in> set rs. distinct (map fst (fam_children (r' ! i)))"
    using assms(1) by (simp add: family_wf_def)
  have eq: "map_of (fam_children (multiprocess_collect (r # rs) ! i)) lv =
      fold (\<lambda>r' co. child_opt_add co (map_of (fam_children (r' ! i)) lv)) rs (map_of (fam_children (r ! i)) lv)"
    using multiprocess_collect_nth [OF len assms(2)] map_of_fold_merge_family [OF dist] by simp
  have fits: "opt_fits k (map_of (fam_children (r' ! i)) lv)" if "r' \<in> set (r # rs)" for r'
    using assms(1) that opt_fits_map_of by fastforce
  have "opt_count (fold (\<lambda>r' co. child_opt_add co (map_of (fam_children (r' ! i)) lv)) rs (map_of (fam_children (r ! i)) lv)) =
      opt_count (map_of (fam_children (r ! i)) lv) + sum_list (map (\<lambda>r'. opt_count (map_of (fam_children (r' ! i)) lv)) rs)"
    using fold_child_opt_add_count [where k = k and x = "map_of (fam_children (r ! i)) lv" and rs = rs
        and g = "\<lambda>r'. map_of (fam_children (r' ! i)) lv"] fits by (simp add: comp_def)
  then show ?thesis
    using eq fold_child_opt_add_None by simp
qed

section \<open>Scrapes along a run\<close>

text \<open>A scrape of worker \<open>j\<close> merges the registries of all workers, \<open>j\<close>'s first.\<close>

lemma scrape_response_regs:
  assumes "j < length ws" and "req_path q = ''/metrics''" and "req_method q = ''GET''"
  shows "fst (gunicorn_step c j q ws) =
    Some \<lparr>resp_status = 200,
          resp_body = Exposition (multiprocess_render (map st_registry (ws ! j # take j ws @ drop (Suc j) ws))),
          resp_mimetype = ''text/plain''\<rparr>"
  using assms metrics_multi_process_response [of "worker_app c ws j" "peers ws j" q "ws ! j"]
  by (simp add: gunicorn_step_def split_def worker_app_def peers_def)

text \<open>The metadata of family \<open>i\<close> of the fresh registry.\<close>

abbreviation same_meta :: "family \<Rightarrow> nat \<Rightarrow> bool" where
  "same_meta f i \<equiv> fam_name f = fam_name (order_mgmt_reg ! i) \<and>
     fam_labelnames f = fam_labelnames (order_mgmt_reg ! i) \<and> fam_kind f = fam_kind (order_mgmt_reg ! i)"

lemma run_meta:
  "length (fold (obs_step order_mgmt_c) es order_mgmt_reg) = 3 \<and>
   (\<forall>i < 3. same_meta (fold (obs_step order_mgmt_c) es order_mgmt_reg ! i) i)"
  using order_mgmt_reg_names fold_obs_step_nth [OF conjunct2 [OF order_mgmt_collector]] by simp

text \<open>In a reachable state every worker's registry has the fresh registry's families.\<close>

lemma reachable_workers:
  assumes "gunicorn_reachable c ws"
  shows "c = order_mgmt_c \<and> (\<forall>w \<in> set ws. collector_wf c (st_registry w) \<and> length (st_registry w) = 3 \<and>
           (\<forall>i < 3. same_meta (st_registry w ! i) i))"
proof -
  obtain ess where c: "c = order_mgmt_c" and len: "length ess = length ws"
    and regs: "\<forall>k < length ws. st_registry (ws ! k) = fold (obs_step c) (ess ! k) order_mgmt_reg"
    using gunicorn_runs [OF assms] by blast
  have "collector_wf c (st_registry w) \<and> length (st_registry w) = 3 \<and> (\<forall>i < 3. same_meta (st_registry w ! i) i)"
    if wi: "w \<in> set ws" for w
  proof -
    obtain k where k: "k < length ws" and w: "ws ! k = w"
      using wi by (auto simp: in_set_conv_nth)
    have "st_registry w = fold (obs_step c) (ess ! k) order_mgmt_reg"
      using regs k w by auto
    then show ?thesis
      using order_mgmt_run_wf [of "ess ! k"] run_meta [of "ess ! k"] c by simp
  qed
  with c show ?thesis
    by blast
qed

text \<open>Merging such registries keeps the invariant, the three families and their metadata.\<close>

lemma merged_meta:
  assumes "\<forall>r \<in> set (r0 # rs). collector_wf order_mgmt_c r \<and> length r = 3 \<and> (\<forall>i < 3. same_meta (r ! i) i)"
  shows "collector_wf order_mgmt_c (multiprocess_collect (r0 # rs)) \<and> length (multiprocess_collect (r0 # rs)) = 3 \<and>
    (\<forall>i < 3. same_meta (multiprocess_collect (r0 # rs) ! i) i)"
proof -
  have len: "\<forall>r' \<in> set rs. length r' = length r0"
    using assms by simp
  have "collector_wf order_mgmt_c (multiprocess_collect (r0 # rs))"
    using assms by (intro collector_wf_multiprocess_collect) auto
  moreover have "length (multiprocess_collect (r0 # rs)) = 3"
    using assms length_multiprocess_collect [OF len] by simp
  moreover have "same_meta (multiprocess_collect (r0 # rs) ! i) i" if "i < 3" for i
    using that assms multiprocess_collect_nth [OF len, of i] fold_merge_family_meta [of i rs "r0 ! i"] by simp
  ultimately show ?thesis
    by blast
qed

lemma collector_wf_family_wf:
  assumes "collector_wf order_mgmt_c r" and "i < 3"
  shows "family_wf (r ! i)"
proof -
  have "i = 0 \<or> i = 1 \<or> i = 2"
    using assms(2) by arith
  then show ?thesis
    using assms(1) by (elim disjE) (simp_all add: collector_wf_def designates_def)
qed

lemma set_reordered:
  "j < length xs \<Longrightarrow> set (xs ! j # take j xs @ drop (Suc j) xs) = set xs"
  using id_take_nth_drop [of j xs] by (metis Un_insert_right list.simps(15) set_append)

lemma sum_list_reordered:
  assumes "j < length xs"
  shows "sum_list (map f (xs ! j # take j xs @ drop (Suc j) xs)) = sum_list (map f xs :: nat list)"
proof -
  have "sum_list (map f xs) = sum_list (map f (take j xs @ xs ! j # drop (Suc j) xs))"
    by (rule arg_cong [where f = "\<lambda>ys. sum_list (map f ys)", OF id_take_nth_drop [OF assms]])
  then show ?thesis
    by (simp add: add_ac)
qed

lemma sum_list_pointwise_le:
  "length xs = length ys \<Longrightarrow> \<forall>k < length xs. f (xs ! k) \<le> g (ys ! k) \<Longrightarrow>
     sum_list (map f xs) \<le> sum_list (map g ys :: nat list)"
proof (induction xs arbitrary: ys)
  case Nil
  then show ?case by simp
next
  case (Cons x xs)
  then obtain y ys' where ys: "ys = y # ys'"
    by (cases ys) simp_all
  have "f x \<le> g y"
    using Cons.prems ys by fastforce
  moreover have "sum_list (map f xs) \<le> sum_list (map g ys')"
    using Cons.prems ys by (intro Cons.IH) fastforce+
  ultimately show ?case
    using ys by simp
qed

lemma sum_list_prefix_le:
  assumes "length xs \<le> length ys" and "\<forall>k < length xs. f (xs ! k) \<le> g (ys ! k)"
  shows "sum_list (map f xs) \<le> sum_list (map g ys :: nat list)"
proof -
  have "sum_list (map f xs) \<le> sum_list (map g (take (length xs) ys))"
    using assms by (intro sum_list_pointwise_le) simp_all
  moreover have "sum_list (map g ys) = sum_list (map g (take (length xs) ys)) + sum_list (map g (drop (length xs) ys))"
    by (metis append_take_drop_id map_append sum_list_append)
  ultimately show ?thesis
    by linarith
qed

lemma opt_count_le: "child_le a b \<Longrightarrow> opt_count a \<le> opt_count b"
  by (cases a; cases b) simp_all

text \<open>The \<open>_count\<close> sample of a child, and the only sample of it whose name ends so.\<close>

lemma count_sample_in:
  "Sample (fam_name f @ ''_count'') (zip (fam_labelnames f) lv) None (real (child_count ch)) \<in> set (child_samples f lv ch)"
  by (cases ch) simp_all

lemma count_sample_is:
  assumes "s \<in> set (child_samples f lv ch)" and "suffix ''_count'' (sample_name s)"
  shows "s = Sample (fam_name f @ ''_count'') (zip (fam_labelnames f) lv) None (real (child_count ch))"
  using assms by (cases ch) (auto simp: suffix_append suffix_def)

text \<open>
  The merged child of a tuple in a scrape: absent exactly when no worker has one, and
  holding the sum of all workers' counts, whichever worker answers.
\<close>

lemma scrape_child:
  assumes reach: "gunicorn_reachable c ws" and j: "j < length ws" and i: "i < 3"
  shows "opt_count (map_of (fam_children (multiprocess_collect (map st_registry (ws ! j # take j ws @ drop (Suc j) ws)) ! i)) lv) =
           sum_list (map (\<lambda>w. opt_count (map_of (fam_children (st_registry w ! i)) lv)) ws) \<and>
         (map_of (fam_children (multiprocess_collect (map st_registry (ws ! j # take j ws @ drop (Suc j) ws)) ! i)) lv = None \<longleftrightarrow>
           (\<forall>w \<in> set ws. map_of (fam_children (st_registry w ! i)) lv = None))"
proof -
  let ?L = "ws ! j # take j ws @ drop (Suc j) ws"
  have ws: "c = order_mgmt_c \<and> (\<forall>w \<in> set ws. collector_wf c (st_registry w) \<and> length (st_registry w) = 3 \<and>
           (\<forall>i < 3. same_meta (st_registry w ! i) i))"
    by (rule reachable_workers [OF reach])
  have set: "set ?L = set ws"
    by (rule set_reordered [OF j])
  have P: "\<forall>w \<in> set ws. length (st_registry w) = 3 \<and> family_wf (st_registry w ! i) \<and>
      fam_kind (st_registry w ! i) = fam_kind (order_mgmt_reg ! i)"
    using ws i collector_wf_family_wf by fastforce
  have "ws ! j \<in> set ws"
    using j by simp
  with P set have "\<forall>r' \<in> set (map st_registry ?L).
      length r' = length (st_registry (ws ! j)) \<and> family_wf (r' ! i) \<and> fam_kind (r' ! i) = fam_kind (order_mgmt_reg ! i)"
    by (simp only: set_map) auto
  then have "\<forall>r' \<in> set (st_registry (ws ! j) # map st_registry (take j ws @ drop (Suc j) ws)).
      length r' = length (st_registry (ws ! j)) \<and> family_wf (r' ! i) \<and> fam_kind (r' ! i) = fam_kind (order_mgmt_reg ! i)"
    by (simp only: list.map(2) map_append)
  from merged_child [OF this] i ws j
  have "opt_count (map_of (fam_children (multiprocess_collect (map st_registry ?L) ! i)) lv) =
          sum_list (map (\<lambda>w. opt_count (map_of (fam_children (st_registry w ! i)) lv)) ?L) \<and>
        (map_of (fam_children (multiprocess_collect (map st_registry ?L) ! i)) lv = None \<longleftrightarrow>
          (\<forall>w \<in> set ?L. map_of (fam_children (st_registry w ! i)) lv = None))"
    by (simp add: comp_def ball_Un)
  then show ?thesis
    by (simp only: sum_list_reordered [OF j] set)
qed

text \<open>A tuple a scrape reports is reported by every later scrape, with no smaller count.\<close>

lemma scrape_child_grows:
  assumes reach: "gunicorn_reachable c ws" and reach': "gunicorn_reachable c ws'"
    and grow: "counts_grow ws ws'" and j: "j < length ws" and k: "k < length ws'" and i: "i < 3"
  shows "child_le
    (map_of (fam_children (multiprocess_collect (map st_registry (ws ! j # take j ws @ drop (Suc j) ws)) ! i)) lv)
    (map_of (fam_children (multiprocess_collect (map st_registry (ws' ! k # take k ws' @ drop (Suc k) ws')) ! i)) lv)"
proof (cases "map_of (fam_children (multiprocess_collect (map st_registry (ws ! j # take j ws @ drop (Suc j) ws)) ! i)) lv")
  case None
  then show ?thesis by simp
next
  case (Some a)
  let ?f = "\<lambda>w. map_of (fam_children (st_registry w ! i)) lv"
  note A = scrape_child [OF reach j i, of lv] and B = scrape_child [OF reach' k i, of lv]
  have len: "length ws \<le> length ws'" and le: "\<forall>m < length ws. child_le (?f (ws ! m)) (?f (ws' ! m))"
    using grow by (simp_all add: counts_grow_def)
  obtain w where "w \<in> set ws" and "?f w \<noteq> None"
    using A Some by auto
  then obtain m where m: "m < length ws" and "?f (ws ! m) \<noteq> None"
    by (metis in_set_conv_nth)
  then have "?f (ws' ! m) \<noteq> None"
    using le by (cases "?f (ws ! m)"; cases "?f (ws' ! m)") fastforce+
  moreover have "ws' ! m \<in> set ws'"
    using m len by simp
  ultimately obtain b where b: "map_of (fam_children (multiprocess_collect (map st_registry (ws' ! k # take k ws' @ drop (Suc k) ws')) ! i)) lv = Some b"
    using B by fastforce
  have "sum_list (map (opt_count \<circ> ?f) ws) \<le> sum_list (map (opt_count \<circ> ?f) ws')"
    using len le opt_count_le by (intro sum_list_prefix_le) simp_all
  then show ?thesis
    using A B Some b by (simp add: comp_def)
qed

lemma scrape_meta:
  assumes reach: "gunicorn_reachable c ws" and j: "j < length ws"
  shows "collector_wf order_mgmt_c (multiprocess_collect (map st_registry (ws ! j # take j ws @ drop (Suc j) ws))) \<and>
    length (multiprocess_collect (map st_registry (ws ! j # take j ws @ drop (Suc j) ws))) = 3 \<and>
    (\<forall>i < 3. same_meta (multiprocess_collect (map st_registry (ws ! j # take j ws @ drop (Suc j) ws)) ! i) i)"
proof -
  let ?L = "ws ! j # take j ws @ drop (Suc j) ws"
  have ws: "c = order_mgmt_c \<and> (\<forall>w \<in> set ws. collector_wf c (st_registry w) \<and> length (st_registry w) = 3 \<and>
           (\<forall>i < 3. same_meta (st_registry w ! i) i))"
    by (rule reachable_workers [OF reach])
  then have "\<forall>r \<in> set (map st_registry ?L). collector_wf order_mgmt_c r \<and> length r = 3 \<and> (\<forall>i < 3. same_meta (r ! i) i)"
    using set_reordered [OF j] by (simp only: set_map) auto
  then have all: "\<forall>r \<in> set (st_registry (ws ! j) # map st_registry (take j ws @ drop (Suc j) ws)).
      collector_wf order_mgmt_c r \<and> length r = 3 \<and> (\<forall>i < 3. same_meta (r ! i) i)"
    by (simp only: list.map(2))
  have eq: "map st_registry ?L = st_registry (ws ! j) # map st_registry (take j ws @ drop (Suc j) ws)"
    by (simp only: list.map(2))
  show ?thesis
    unfolding eq by (rule merged_meta [OF all])
qed

section \<open>Counts never go back between scrapes\<close>

text \<open>
  C22: along any run of the deployment, restarts of workers included, every
  \<open>_count\<close> sample a scrape of any worker
  reports is reported again, under the same name and labels and with no smaller
  value, by any later scrape of any worker: the counts behave as Prometheus
  counters, without resets, whichever workers answer the scrapes.
\<close>

theorem scrape_counts_monotone:
  assumes reach: "gunicorn_reachable c ws" and run: "(gunicorn_move c)\<^sup>*\<^sup>* ws ws'"
    and j: "j < length ws" and k: "k < length ws'"
    and qp: "req_path q = ''/metrics''" and qm: "req_method q = ''GET''"
  shows "\<exists>E E'. fst (gunicorn_step c j q ws) =
             Some \<lparr>resp_status = 200, resp_body = Exposition E, resp_mimetype = ''text/plain''\<rparr> \<and>
           fst (gunicorn_step c k q ws') =
             Some \<lparr>resp_status = 200, resp_body = Exposition E', resp_mimetype = ''text/plain''\<rparr> \<and>
           (\<forall>s \<in> set (concat (map snd E)). suffix ''_count'' (sample_name s) \<longrightarrow>
              (\<exists>s' \<in> set (concat (map snd E')). sample_name s' = sample_name s \<and>
                 sample_labels s' = sample_labels s \<and> sample_value s \<le> sample_value s'))"
proof -
  have reach': "gunicorn_reachable c ws'" and grow: "counts_grow ws ws'"
    using gunicorn_run_grows [OF run reach] by simp_all
  let ?R = "map st_registry (ws ! j # take j ws @ drop (Suc j) ws)"
  let ?R' = "map st_registry (ws' ! k # take k ws' @ drop (Suc k) ws')"
  let ?M = "multiprocess_collect ?R" and ?M' = "multiprocess_collect ?R'"
  have M: "collector_wf order_mgmt_c ?M \<and> length ?M = 3 \<and> (\<forall>i < 3. same_meta (?M ! i) i)"
    by (rule scrape_meta [OF reach j])
  have M': "collector_wf order_mgmt_c ?M' \<and> length ?M' = 3 \<and> (\<forall>i < 3. same_meta (?M' ! i) i)"
    by (rule scrape_meta [OF reach' k])
  have "\<exists>s' \<in> set (concat (map snd (multiprocess_render ?R'))). sample_name s' = sample_name s \<and>
          sample_labels s' = sample_labels s \<and> sample_value s \<le> sample_value s'"
    if s: "s \<in> set (concat (map snd (multiprocess_render ?R)))" and sfx: "suffix ''_count'' (sample_name s)" for s
  proof -
    obtain i where i3: "i < 3" and si: "s \<in> set (family_samples (?M ! i))"
      using render_sample [OF s] M by auto
    then obtain lv ch where ch: "(lv, ch) \<in> set (fam_children (?M ! i))" and sc: "s \<in> set (child_samples (?M ! i) lv ch)"
      by (auto simp: family_samples_def)
    have s_eq: "s = Sample (fam_name (?M ! i) @ ''_count'') (zip (fam_labelnames (?M ! i)) lv) None (real (child_count ch))"
      by (rule count_sample_is [OF sc sfx])
    have "distinct (map fst (fam_children (?M ! i)))"
      using collector_wf_family_wf [of ?M i] M i3 by (simp add: family_wf_def)
    then have "map_of (fam_children (?M ! i)) lv = Some ch"
      using ch by (rule map_of_is_SomeI)
    moreover have "child_le (map_of (fam_children (?M ! i)) lv) (map_of (fam_children (?M' ! i)) lv)"
      by (rule scrape_child_grows [OF reach reach' grow j k i3])
    ultimately obtain ch' where ch': "map_of (fam_children (?M' ! i)) lv = Some ch'"
      and cnt: "child_count ch \<le> child_count ch'"
      by (cases "map_of (fam_children (?M' ! i)) lv") auto
    let ?s' = "Sample (fam_name (?M' ! i) @ ''_count'') (zip (fam_labelnames (?M' ! i)) lv) None (real (child_count ch'))"
    have mem: "(lv, ch') \<in> set (fam_children (?M' ! i))"
      using ch' by (rule map_of_SomeD)
    then have "?s' \<in> set (family_samples (?M' ! i))"
      using count_sample_in [of "?M' ! i" lv ch'] by (force simp: family_samples_def)
    moreover have "?M' ! i \<in> set ?M'"
      using M' i3 by simp
    ultimately have "?s' \<in> set (concat (map snd (multiprocess_render ?R')))"
      using mem by (intro render_sample_in) auto
    moreover have "sample_name ?s' = sample_name s \<and> sample_labels ?s' = sample_labels s \<and> sample_value s \<le> sample_value ?s'"
      using s_eq M M' i3 cnt by simp
    ultimately show ?thesis
      by blast
  qed
  then show ?thesis
    using scrape_response_regs [OF j qp qm, of c] scrape_response_regs [OF k qp qm, of c] by blast
qed

theorem scrape_counts_monotone_witness:
  "\<exists>E E'. fst (gunicorn_step order_mgmt_c 1 \<lparr>req_path = ''/metrics'', req_method = ''GET'', req_args = []\<rparr>
          [\<lparr>st_registry = order_mgmt_reg, st_clock = \<lparr>now = 0, adjust = []\<rparr>\<rparr>,
           \<lparr>st_registry = order_mgmt_reg, st_clock = \<lparr>now = 0, adjust = []\<rparr>\<rparr>]) =
       Some \<lparr>resp_status = 200, resp_body = Exposition E, resp_mimetype = ''text/plain''\<rparr> \<and>
     fst (gunicorn_step order_mgmt_c 0 \<lparr>req_path = ''/metrics'', req_method = ''GET'', req_args = []\<rparr>
          (snd (gunicorn_step order_mgmt_c 0 \<lparr>req_path = ''/hello'', req_method = ''GET'', req_args = []\<rparr>
          [\<lparr>st_registry = order_mgmt_reg, st_clock = \<lparr>now = 0, adjust = []\<rparr>\<rparr>,
           \<lparr>st_registry = order_mgmt_reg, st_clock = \<lparr>now = 0, adjust = []\<rparr>\<rparr>]))) =
       Some \<lparr>resp_status = 200, resp_body = Exposition E', resp_mimetype = ''text/plain''\<rparr> \<and>
     (\<forall>s \<in> set (concat (map snd E)). suffix ''_count'' (sample_name s) \<longrightarrow>
        (\<exists>s' \<in> set (concat (map snd E')). sample_name s' = sample_name s \<and>
           sample_labels s' = sample_labels s \<and> sample_value s \<le> sample_value s'))"
  by (rule scrape_counts_monotone [OF two_workers_reachable r_into_rtranclp [where r = "gunicorn_move order_mgmt_c",
      OF gunicorn_move.serve]]) simp_all

section \<open>The sum is not a counter\<close>

text \<open>A request to \<open>/hello\<close> answered by a worker whose registry satisfies the invariant.\<close>

lemma worker_hello:
  assumes wf: "collector_wf c (st_registry w)"
  shows "handle_request (worker_app c ws j) \<lparr>req_path = ''/hello'', req_method = ''GET'', req_args = []\<rparr> w =
    (text_response ''hello'',
     w\<lparr>st_clock := snd (time_time (snd (time_time (st_clock w)))),
       st_registry := obs_step c (ObsMyself ''/hello'' ''GET'' 200
          (fst (time_time (snd (time_time (st_clock w)))) - fst (time_time (st_clock w)))) (st_registry w)\<rparr>)"
proof -
  have "collector_wf (app_collector (worker_app c ws j)) (st_registry w)"
    using wf by (simp add: worker_app_def)
  then show ?thesis
    using wf by (simp add: handle_request_wf_eq dispatch_request_def match_route_def add_routes_rule_def
        before_eq after_observed hello_route_def worker_app_def Let_def text_response_def)
qed

lemma hello_twice_samples:
  "family_samples (obs_step order_mgmt_c (ObsMyself ''/hello'' ''GET'' 200 (-5))
       (obs_step order_mgmt_c (ObsMyself ''/hello'' ''GET'' 200 1) order_mgmt_reg) ! 0) =
     [Sample ''order_mgmt_duration_seconds_count'' [(''path'', ''/hello''), (''method'', ''GET''), (''status_code'', ''200'')] None 2,
      Sample ''order_mgmt_duration_seconds_sum'' [(''path'', ''/hello''), (''method'', ''GET''), (''status_code'', ''200'')] None (-4)]"
  using service_name_ok collector_names_ok [OF service_name_ok]
  by (simp add: newCollector_unfold obs_step_def observe_labelled_def get_or_create_child_def
      family_samples_def replace_char_def decimal_digits.simps char_of_def bit_0)

lemma hello_once_samples:
  "family_samples (obs_step order_mgmt_c (ObsMyself ''/hello'' ''GET'' 200 1) order_mgmt_reg ! 0) =
     [Sample ''order_mgmt_duration_seconds_count'' [(''path'', ''/hello''), (''method'', ''GET''), (''status_code'', ''200'')] None 1,
      Sample ''order_mgmt_duration_seconds_sum'' [(''path'', ''/hello''), (''method'', ''GET''), (''status_code'', ''200'')] None 1]"
  using service_name_ok collector_names_ok [OF service_name_ok]
  by (simp add: newCollector_unfold obs_step_def observe_labelled_def get_or_create_child_def
      family_samples_def replace_char_def decimal_digits.simps char_of_def bit_0)

text \<open>A sample of the first family of a one-worker scrape.\<close>

lemma single_scrape_sample:
  "s \<in> set (family_samples (r ! 0)) \<Longrightarrow> r \<noteq> [] \<Longrightarrow> s \<in> set (concat (map snd (multiprocess_render [r])))"
  by (rule render_sample_in) (auto simp: family_samples_def)

text \<open>
  C23: the \<open>_sum\<close> of a series is not a counter: with the wall clock stepped back by five
  seconds while a second request to \<open>/hello\<close> runs, a later scrape reports a smaller
  \<open>_sum\<close> (minus four) than an earlier one (one) for the same series, which Prometheus
  reads as a counter reset.
\<close>

theorem scrape_sum_decreases:
  "\<exists>ws ws' E E'. gunicorn_reachable order_mgmt_c ws \<and> (gunicorn_move order_mgmt_c)\<^sup>*\<^sup>* ws ws' \<and>
     fst (gunicorn_step order_mgmt_c 0 \<lparr>req_path = ''/metrics'', req_method = ''GET'', req_args = []\<rparr> ws) =
       Some \<lparr>resp_status = 200, resp_body = Exposition E, resp_mimetype = ''text/plain''\<rparr> \<and>
     fst (gunicorn_step order_mgmt_c 0 \<lparr>req_path = ''/metrics'', req_method = ''GET'', req_args = []\<rparr> ws') =
       Some \<lparr>resp_status = 200, resp_body = Exposition E', resp_mimetype = ''text/plain''\<rparr> \<and>
     Sample ''order_mgmt_duration_seconds_sum'' [(''path'', ''/hello''), (''method'', ''GET''), (''status_code'', ''200'')] None 1 \<in> set (concat (map snd E)) \<and>
     Sample ''order_mgmt_duration_seconds_sum'' [(''path'', ''/hello''), (''method'', ''GET''), (''status_code'', ''200'')] None (-4) \<in> set (concat (map snd E'))"
proof -
  let ?w0 = "\<lparr>st_registry = order_mgmt_reg, st_clock = \<lparr>now = 0, adjust = [0, 1]\<rparr>\<rparr>"
  let ?w1 = "\<lparr>st_registry = obs_step order_mgmt_c (ObsMyself ''/hello'' ''GET'' 200 1) order_mgmt_reg, st_clock = \<lparr>now = 1, adjust = []\<rparr>\<rparr>"
  let ?w1' = "\<lparr>st_registry = obs_step order_mgmt_c (ObsMyself ''/hello'' ''GET'' 200 1) order_mgmt_reg, st_clock = \<lparr>now = 1, adjust = [0, -5]\<rparr>\<rparr>"
  let ?w2 = "\<lparr>st_registry = obs_step order_mgmt_c (ObsMyself ''/hello'' ''GET'' 200 (-5)) (obs_step order_mgmt_c (ObsMyself ''/hello'' ''GET'' 200 1) order_mgmt_reg), st_clock = \<lparr>now = -4, adjust = []\<rparr>\<rparr>"
  have wf0: "collector_wf order_mgmt_c order_mgmt_reg"
    using order_mgmt_collector by simp
  have wf1: "collector_wf order_mgmt_c (obs_step order_mgmt_c (ObsMyself ''/hello'' ''GET'' 200 1) order_mgmt_reg)"
    using collector_wf_obs_step [OF wf0] by simp
  have s1: "snd (gunicorn_step order_mgmt_c 0 \<lparr>req_path = ''/hello'', req_method = ''GET'', req_args = []\<rparr> [?w0]) = [?w1]"
    using worker_hello [of order_mgmt_c ?w0 "[?w0]" 0] wf0 by (simp add: gunicorn_step_def time_time_def)
  have s2: "snd (gunicorn_step order_mgmt_c 0 \<lparr>req_path = ''/hello'', req_method = ''GET'', req_args = []\<rparr> [?w1']) = [?w2]"
    using worker_hello [of order_mgmt_c ?w1' "[?w1']" 0] wf1 by (simp add: gunicorn_step_def time_time_def)
  have "gunicorn_reachable order_mgmt_c [?w0]"
    using gunicorn_reachable.start [OF get_app_order_mgmt [of "MultiProcess []"], of "[?w0]"] by simp
  then have reach: "gunicorn_reachable order_mgmt_c [?w1]"
    using gunicorn_reachable.step [of order_mgmt_c "[?w0]" 0 "\<lparr>req_path = ''/hello'', req_method = ''GET'', req_args = []\<rparr>"] s1 by simp
  have "gunicorn_move order_mgmt_c [?w1] [?w1']"
    using gunicorn_move.tick [of 0 "[?w1]" order_mgmt_c "\<lparr>now = 1, adjust = [0, -5]\<rparr>"] by simp
  moreover have "gunicorn_move order_mgmt_c [?w1'] [?w2]"
    using gunicorn_move.serve [of order_mgmt_c "[?w1']" 0 "\<lparr>req_path = ''/hello'', req_method = ''GET'', req_args = []\<rparr>"] s2 by simp
  ultimately have run: "(gunicorn_move order_mgmt_c)\<^sup>*\<^sup>* [?w1] [?w2]"
    by (meson converse_rtranclp_into_rtranclp r_into_rtranclp)
  have wf2: "collector_wf order_mgmt_c (obs_step order_mgmt_c (ObsMyself ''/hello'' ''GET'' 200 (-5)) (obs_step order_mgmt_c (ObsMyself ''/hello'' ''GET'' 200 1) order_mgmt_reg))"
    using collector_wf_obs_step [OF wf1] by simp
  have ne1: "obs_step order_mgmt_c (ObsMyself ''/hello'' ''GET'' 200 1) order_mgmt_reg \<noteq> []" and ne2: "obs_step order_mgmt_c (ObsMyself ''/hello'' ''GET'' 200 (-5)) (obs_step order_mgmt_c (ObsMyself ''/hello'' ''GET'' 200 1) order_mgmt_reg) \<noteq> []"
    using wf1 wf2 by (auto simp: collector_wf_def designates_def)
  have "Sample ''order_mgmt_duration_seconds_sum'' [(''path'', ''/hello''), (''method'', ''GET''), (''status_code'', ''200'')] None 1 \<in> set (family_samples ((obs_step order_mgmt_c (ObsMyself ''/hello'' ''GET'' 200 1) order_mgmt_reg) ! 0))"
    by (simp only: hello_once_samples) simp
  from single_scrape_sample [OF this ne1]
  have "Sample ''order_mgmt_duration_seconds_sum'' [(''path'', ''/hello''), (''method'', ''GET''), (''status_code'', ''200'')] None 1 \<in> set (concat (map snd (multiprocess_render [obs_step order_mgmt_c (ObsMyself ''/hello'' ''GET'' 200 1) order_mgmt_reg])))" .
  moreover have "Sample ''order_mgmt_duration_seconds_sum'' [(''path'', ''/hello''), (''method'', ''GET''), (''status_code'', ''200'')] None (-4) \<in> set (family_samples ((obs_step order_mgmt_c (ObsMyself ''/hello'' ''GET'' 200 (-5)) (obs_step order_mgmt_c (ObsMyself ''/hello'' ''GET'' 200 1) order_mgmt_reg)) ! 0))"
    by (simp only: hello_twice_samples) simp
  from single_scrape_sample [OF this ne2]
  have "Sample ''order_mgmt_duration_seconds_sum'' [(''path'', ''/hello''), (''method'', ''GET''), (''status_code'', ''200'')] None (-4) \<in> set (concat (map snd (multiprocess_render [obs_step order_mgmt_c (ObsMyself ''/hello'' ''GET'' 200 (-5)) (obs_step order_mgmt_c (ObsMyself ''/hello'' ''GET'' 200 1) order_mgmt_reg)])))" .
  ultimately show ?thesis
    using reach run scrape_response_regs [of 0 "[?w1]" "\<lparr>req_path = ''/metrics'', req_method = ''GET'', req_args = []\<rparr>" order_mgmt_c]
      scrape_response_regs [of 0 "[?w2]" "\<lparr>req_path = ''/metrics'', req_method = ''GET'', req_args = []\<rparr>" order_mgmt_c]
    by (intro exI [of _ "[?w1]"] exI [of _ "[?w2]"]) simp
qed

end
