(* ===== verification/Entry.thy ===== *)
theory Entry
  imports App
begin

text \<open>
  The entry point \<open>if __name__ == "__main__"\<close> (src/src/main.py lines 181-184):
  \<open>get_app()\<close> in a fresh process, then \<open>app.run\<close>, Flask's development server,
  which answers the requests it receives one after the other. Run this way the
  process has no multi-process directory. The socket itself (host, port) is not
  modelled: a run is the list of requests the server receives.
\<close>

definition main_py :: "wall_clock \<Rightarrow> request list \<Rightarrow> py_exc + response list" where
  "main_py clk rs =
     (case get_app SingleProcess [] of
        (Inl e, reg) \<Rightarrow> Inl e
      | (Inr a, reg) \<Rightarrow> Inr (fst (serve a rs \<lparr>st_registry = reg, st_clock = clk\<rparr>)))"

section \<open>Serving a sequence of requests\<close>

lemma serve_nth:
  "length (fst (serve a rs st)) = length rs \<and>
   (\<forall>i < length rs. \<exists>st'. fst (serve a rs st) ! i = fst (handle_request a (rs ! i) st'))"
proof (induction rs arbitrary: st)
  case Nil
  then show ?case by simp
next
  case (Cons r rs)
  let ?st1 = "snd (handle_request a r st)"
  have IH: "length (fst (serve a rs ?st1)) = length rs \<and>
      (\<forall>i < length rs. \<exists>st'. fst (serve a rs ?st1) ! i = fst (handle_request a (rs ! i) st'))"
    by (rule Cons.IH)
  have eq: "fst (serve a (r # rs) st) = fst (handle_request a r st) # fst (serve a rs ?st1)"
    by (simp add: split_def Let_def)
  show ?case
  proof (intro conjI allI impI)
    show "length (fst (serve a (r # rs) st)) = length (r # rs)"
      using IH eq by simp
  next
    fix i assume i: "i < length (r # rs)"
    show "\<exists>st'. fst (serve a (r # rs) st) ! i = fst (handle_request a ((r # rs) ! i) st')"
    proof (cases i)
      case 0
      then show ?thesis using eq by auto
    next
      case (Suc i')
      then show ?thesis using eq IH i by auto
    qed
  qed
qed

section \<open>Scraping the process started as a script\<close>

text \<open>
  Started as a script, the service answers every request it receives, and
  answers every \<open>GET\<close> of \<open>/metrics\<close> or \<open>/metrics/\<close> with 500, whatever came before:
  the metrics it records can never be scraped.
\<close>

theorem main_py_metrics_500:
  "\<exists>resps. main_py clk rs = Inr resps \<and> length resps = length rs \<and>
     (\<forall>i < length rs. metrics_rule (req_path (rs ! i)) \<and> req_method (rs ! i) = ''GET'' \<longrightarrow>
        resps ! i = error_response 500)"
proof -
  let ?a = "\<lparr>app_collector = \<lparr>mc_me = 0, mc_db = 1, mc_external = 2\<rparr>, app_mode = SingleProcess\<rparr>"
  let ?st = "\<lparr>st_registry = snd (newCollector ''order-mgmt'' []), st_clock = clk\<rparr>"
  have main: "main_py clk rs = Inr (fst (serve ?a rs ?st))"
    by (simp add: main_py_def get_app_order_mgmt)
  have "fst (serve ?a rs ?st) ! i = error_response 500"
    if i: "i < length rs" and p: "metrics_rule (req_path (rs ! i))" and m: "req_method (rs ! i) = ''GET''" for i
  proof -
    obtain st' where "fst (serve ?a rs ?st) ! i = fst (handle_request ?a (rs ! i) st')"
      using serve_nth [of ?a rs ?st] i by blast
    then show ?thesis
      using p m by (simp add: handle_request_view_error dispatch_metrics_single)
  qed
  then show ?thesis
    using main serve_nth [of ?a rs ?st] by auto
qed

theorem main_py_metrics_500_witness:
  "\<exists>resps. main_py \<lparr>now = 0, adjust = []\<rparr> [\<lparr>req_path = ''/hello'', req_method = ''GET'', req_args = []\<rparr>, \<lparr>req_path = ''/metrics'', req_method = ''GET'', req_args = []\<rparr>] = Inr resps \<and>
     length resps = 2 \<and> resps ! 1 = error_response 500"
proof -
  obtain resps where "main_py \<lparr>now = 0, adjust = []\<rparr> [\<lparr>req_path = ''/hello'', req_method = ''GET'', req_args = []\<rparr>, \<lparr>req_path = ''/metrics'', req_method = ''GET'', req_args = []\<rparr>] = Inr resps"
    and "length resps = length [\<lparr>req_path = ''/hello'', req_method = ''GET'', req_args = []\<rparr>, \<lparr>req_path = ''/metrics'', req_method = ''GET'', req_args = []\<rparr>]"
    and "\<forall>i < length [\<lparr>req_path = ''/hello'', req_method = ''GET'', req_args = []\<rparr>, \<lparr>req_path = ''/metrics'', req_method = ''GET'', req_args = []\<rparr>]. metrics_rule (req_path ([\<lparr>req_path = ''/hello'', req_method = ''GET'', req_args = []\<rparr>, \<lparr>req_path = ''/metrics'', req_method = ''GET'', req_args = []\<rparr>] ! i)) \<and>
           req_method ([\<lparr>req_path = ''/hello'', req_method = ''GET'', req_args = []\<rparr>, \<lparr>req_path = ''/metrics'', req_method = ''GET'', req_args = []\<rparr>] ! i) = ''GET'' \<longrightarrow> resps ! i = error_response 500"
    using main_py_metrics_500 [of "\<lparr>now = 0, adjust = []\<rparr>" "[\<lparr>req_path = ''/hello'', req_method = ''GET'', req_args = []\<rparr>, \<lparr>req_path = ''/metrics'', req_method = ''GET'', req_args = []\<rparr>]"] by blast
  then show ?thesis
    by (auto simp: metrics_rule_def)
qed

end
