(* ===== verification/Visibility.thy ===== *)
theory Visibility
  imports Counters
begin

text \<open>
  Requests stay visible. A request a worker has answered adds an observation to its
  self-latency series, and the merged count Prometheus reads from any worker is the
  sum of the workers' counts, which only grow along a run of the deployment. So
  the request is reported with a count of at least one by every later scrape of
  every worker, whatever requests, clock changes and worker restarts come between.
\<close>

section \<open>The count of the series a request is observed on\<close>

lemma self_count_obs_step:
  assumes wf: "collector_wf c reg"
  shows "1 \<le> opt_count (map_of (fam_children (obs_step c (ObsMyself p m sc d) reg ! mc_me c))
                          [p, m, decimal_digits sc])"
proof -
  let ?f = "reg ! mc_me c" and ?lv = "[p, m, decimal_digits sc]"
  have me: "mc_me c < length reg" "fam_kind ?f = KSummary" "family_wf ?f"
    using wf by (simp_all add: collector_wf_def designates_def)
  have fits: "child_fits KSummary ch" if "map_of (fam_children ?f) ?lv = Some ch" for ch
    using me(2,3) map_of_SomeD [OF that] by (auto simp: family_wf_def)
  have eq: "obs_step c (ObsMyself p m sc d) reg ! mc_me c = observe_labelled ?lv d ?f"
    using me(1) by (simp add: obs_step_def)
  show ?thesis
  proof (cases "map_of (fam_children ?f) ?lv")
    case None
    then show ?thesis
      using me(2) by (simp add: eq map_of_observe_labelled)
  next
    case (Some ch)
    then obtain n s where "ch = SummaryChild n s"
      using fits by (cases ch) auto
    then show ?thesis
      using Some me(2) by (simp add: eq map_of_observe_labelled)
  qed
qed

lemma handle_request_self_count:
  assumes wf: "collector_wf (app_collector a) (st_registry st)" and p: "req_path r \<noteq> ''/metrics''"
  shows "1 \<le> opt_count (map_of (fam_children (st_registry (snd (handle_request a r st)) ! mc_me (app_collector a)))
            [req_path r, req_method r, decimal_digits (resp_status (fst (handle_request a r st)))])"
proof -
  let ?c = "app_collector a" and ?R = "st_registry (snd (dispatch_request a r (snd (before st))))"
  have wf2: "collector_wf ?c ?R"
    using wf by (simp add: before_eq dispatch_request_wf)
  obtain l where e: "apply_obs_list ?c [ObsMyself (req_path r) (req_method r) (resp_status (fst (handle_request a r st))) l] ?R =
      Inr (st_registry (snd (handle_request a r st)))"
    using handle_request_observed [OF wf p] by blast
  have "apply_obs_list ?c [ObsMyself (req_path r) (req_method r) (resp_status (fst (handle_request a r st))) l] ?R =
      Inr (fold (obs_step ?c) [ObsMyself (req_path r) (req_method r) (resp_status (fst (handle_request a r st))) l] ?R)"
    using apply_obs_list_eq [OF wf2] by blast
  then have "st_registry (snd (handle_request a r st)) =
      obs_step ?c (ObsMyself (req_path r) (req_method r) (resp_status (fst (handle_request a r st))) l) ?R"
    using e by simp
  then show ?thesis
    using self_count_obs_step [OF wf2] by simp
qed

section \<open>A request stays visible\<close>

text \<open>
  C24: once a worker has answered a request to a path other than \<open>/metrics\<close>, every
  later \<open>GET /metrics\<close> at any worker, after any run of the deployment (requests,
  clock changes, new workers), answers 200 and reports the \<open>_count\<close> sample of the
  request's path, method and status with a value of at least one.
\<close>

theorem request_stays_visible:
  assumes reach: "gunicorn_reachable c ws" and j: "j < length ws" and p: "req_path r \<noteq> ''/metrics''"
    and run: "(gunicorn_move c)\<^sup>*\<^sup>* (snd (gunicorn_step c j r ws)) ws'" and k: "k < length ws'"
    and qp: "req_path q = ''/metrics''" and qm: "req_method q = ''GET''"
  shows "\<exists>resp E v. fst (gunicorn_step c j r ws) = Some resp \<and>
           fst (gunicorn_step c k q ws') =
             Some \<lparr>resp_status = 200, resp_body = Exposition E, resp_mimetype = ''text/plain''\<rparr> \<and>
           1 \<le> v \<and>
           Sample ''order_mgmt_duration_seconds_count''
             [(''path'', req_path r), (''method'', req_method r), (''status_code'', decimal_digits (resp_status resp))]
             None v \<in> set (concat (map snd E))"
proof -
  let ?a = "worker_app c ws j"
  let ?ws1 = "snd (gunicorn_step c j r ws)"
  let ?resp = "fst (handle_request ?a r (ws ! j))"
  let ?lv = "[req_path r, req_method r, decimal_digits (resp_status ?resp)]"
  let ?cnt = "\<lambda>w. opt_count (map_of (fam_children (st_registry w ! 0)) ?lv)"
  have c: "c = order_mgmt_c" and wfs: "\<forall>w \<in> set ws. collector_wf c (st_registry w)"
    using reachable_workers [OF reach] by blast+
  have wf: "collector_wf (app_collector ?a) (st_registry (ws ! j))"
    using wfs j by (simp add: worker_app_def)
  have step: "fst (gunicorn_step c j r ws) = Some ?resp"
    and reg1: "st_registry (?ws1 ! j) = st_registry (snd (handle_request ?a r (ws ! j)))"
    and len1: "length ?ws1 = length ws"
    using j by (simp_all add: gunicorn_step_def split_def Let_def)
  have cnt1: "1 \<le> ?cnt (?ws1 ! j)"
    using handle_request_self_count [OF wf p] reg1 c by (simp add: worker_app_def)
  have reach1: "gunicorn_reachable c ?ws1"
    using reach by (rule gunicorn_reachable.step)
  have reach': "gunicorn_reachable c ws'" and grow: "counts_grow ?ws1 ws'"
    using gunicorn_run_grows [OF run reach1] by simp_all
  have jw: "j < length ws'" and "child_le (map_of (fam_children (st_registry (?ws1 ! j) ! 0)) ?lv)
                                         (map_of (fam_children (st_registry (ws' ! j) ! 0)) ?lv)"
    using grow j len1 by (auto simp: counts_grow_def)
  then have cntj: "1 \<le> ?cnt (ws' ! j)"
    using cnt1 opt_count_le by (meson order_trans)
  let ?M = "multiprocess_collect (map st_registry (ws' ! k # take k ws' @ drop (Suc k) ws'))"
  have "opt_count (map_of (fam_children (?M ! 0)) ?lv) = sum_list (map ?cnt ws')"
    using scrape_child [OF reach' k, of 0 ?lv] by simp
  moreover have "?cnt (ws' ! j) \<le> sum_list (map ?cnt ws')"
    using jw by (simp add: member_le_sum_list)
  ultimately have "1 \<le> opt_count (map_of (fam_children (?M ! 0)) ?lv)"
    using cntj by linarith
  then obtain ch where ch: "map_of (fam_children (?M ! 0)) ?lv = Some ch" and n: "1 \<le> child_count ch"
    by (cases "map_of (fam_children (?M ! 0)) ?lv") auto
  have meta: "collector_wf order_mgmt_c ?M \<and> length ?M = 3 \<and> (\<forall>i < 3. same_meta (?M ! i) i)"
    by (rule scrape_meta [OF reach' k])
  then have lns: "fam_labelnames (?M ! 0) = [''path'', ''method'', ''status_code'']"
    and name: "fam_name (?M ! 0) = ''order_mgmt_duration_seconds''"
    using order_mgmt_reg_me_name by (simp_all add: collector_wf_def designates_def)
  have chs: "(?lv, ch) \<in> set (fam_children (?M ! 0))"
    using ch by (rule map_of_SomeD)
  then have "Sample (fam_name (?M ! 0) @ ''_count'') (zip (fam_labelnames (?M ! 0)) ?lv) None (real (child_count ch))
      \<in> set (family_samples (?M ! 0))"
    using count_sample_in [of "?M ! 0" ?lv ch] by (force simp: family_samples_def)
  moreover have "?M ! 0 \<in> set ?M"
    using meta by simp
  ultimately have "Sample (fam_name (?M ! 0) @ ''_count'') (zip (fam_labelnames (?M ! 0)) ?lv) None (real (child_count ch))
      \<in> set (concat (map snd (multiprocess_render (map st_registry (ws' ! k # take k ws' @ drop (Suc k) ws')))))"
    using chs by (intro render_sample_in) auto
  then show ?thesis
    using step scrape_response_regs [OF k qp qm, of c] n name lns
    by (intro exI [of _ ?resp] exI [of _ "multiprocess_render (map st_registry (ws' ! k # take k ws' @ drop (Suc k) ws'))"]
        exI [of _ "real (child_count ch)"]) simp
qed

text \<open>
  An instance: worker 0 of two answers \<open>/hello\<close>, then the server starts a third
  worker, and a scrape of the new worker reports the request.
\<close>

theorem request_stays_visible_witness:
  "\<exists>resp E v. fst (gunicorn_step order_mgmt_c 0 \<lparr>req_path = ''/hello'', req_method = ''GET'', req_args = []\<rparr>
            [\<lparr>st_registry = order_mgmt_reg, st_clock = \<lparr>now = 0, adjust = []\<rparr>\<rparr>,
            \<lparr>st_registry = order_mgmt_reg, st_clock = \<lparr>now = 0, adjust = []\<rparr>\<rparr>]) = Some resp \<and>
     fst (gunicorn_step order_mgmt_c 2 \<lparr>req_path = ''/metrics'', req_method = ''GET'', req_args = []\<rparr>
          (snd (gunicorn_step order_mgmt_c 0 \<lparr>req_path = ''/hello'', req_method = ''GET'', req_args = []\<rparr>
            [\<lparr>st_registry = order_mgmt_reg, st_clock = \<lparr>now = 0, adjust = []\<rparr>\<rparr>,
            \<lparr>st_registry = order_mgmt_reg, st_clock = \<lparr>now = 0, adjust = []\<rparr>\<rparr>]) @
           [\<lparr>st_registry = order_mgmt_reg, st_clock = \<lparr>now = 0, adjust = []\<rparr>\<rparr>])) =
       Some \<lparr>resp_status = 200, resp_body = Exposition E, resp_mimetype = ''text/plain''\<rparr> \<and>
     1 \<le> v \<and>
     Sample ''order_mgmt_duration_seconds_count''
       [(''path'', ''/hello''), (''method'', ''GET''), (''status_code'', decimal_digits (resp_status resp))]
       None v \<in> set (concat (map snd E))"
proof -
  have "(gunicorn_move order_mgmt_c)\<^sup>*\<^sup>* (snd (gunicorn_step order_mgmt_c 0 \<lparr>req_path = ''/hello'', req_method = ''GET'', req_args = []\<rparr>
            [\<lparr>st_registry = order_mgmt_reg, st_clock = \<lparr>now = 0, adjust = []\<rparr>\<rparr>,
            \<lparr>st_registry = order_mgmt_reg, st_clock = \<lparr>now = 0, adjust = []\<rparr>\<rparr>]))
          (snd (gunicorn_step order_mgmt_c 0 \<lparr>req_path = ''/hello'', req_method = ''GET'', req_args = []\<rparr>
            [\<lparr>st_registry = order_mgmt_reg, st_clock = \<lparr>now = 0, adjust = []\<rparr>\<rparr>,
            \<lparr>st_registry = order_mgmt_reg, st_clock = \<lparr>now = 0, adjust = []\<rparr>\<rparr>]) @
           [\<lparr>st_registry = order_mgmt_reg, st_clock = \<lparr>now = 0, adjust = []\<rparr>\<rparr>])"
    by (rule r_into_rtranclp, rule gunicorn_move.spawn [OF get_app_order_mgmt]) simp
  then show ?thesis
    using request_stays_visible [OF two_workers_reachable, of 0 "\<lparr>req_path = ''/hello'', req_method = ''GET'', req_args = []\<rparr>" _ 2 "\<lparr>req_path = ''/metrics'', req_method = ''GET'', req_args = []\<rparr>"]
    by simp
qed

end
