(* ===== verification/Registration.thy ===== *)
theory Registration
  imports Collector
begin

text \<open>
  What a failed \<open>newCollector\<close> leaves behind. Each metric constructor registers its
  family in the process's default registry as soon as it is built, and
  \<open>newCollector\<close> does not unregister anything when a later constructor raises. A
  name clash on the database histogram therefore leaves the service's own latency
  Summary registered, and every later attempt to build the collector in the same
  process fails on that Summary.
\<close>

lemma about_me_registers:
  "about_me p s reg = Inr (i, reg1) \<Longrightarrow>
     length reg1 = Suc (length reg) \<and>
     about_me p s reg1 = Inl (ValueError ''Duplicated timeseries in CollectorRegistry'')"
  by (auto simp: about_me_def new_summary_def metric_init_def register_def registry_names_def
      family_names_def split: sum.splits if_splits)

text \<open>
  C25: when the database histogram cannot be registered after the self-latency Summary
  was, \<open>newCollector\<close> raises the histogram's error with the Summary left in the
  registry, and calling it again on that registry raises \<open>ValueError\<close> for a
  duplicated time series: a half-built collector blocks every retry.
\<close>

theorem newCollector_partial_registration:
  assumes me: "about_me (replace_char (CHR ''-'') (CHR ''_'') s) s reg = Inr (i, reg1)"
    and db: "about_db (replace_char (CHR ''-'') (CHR ''_'') s) reg1 = Inl e"
  shows "newCollector s reg = (Inl e, reg1) \<and> length reg1 = Suc (length reg) \<and>
         newCollector s reg1 = (Inl (ValueError ''Duplicated timeseries in CollectorRegistry''), reg1)"
  using about_me_registers [OF me] me db by (simp add: newCollector_def Let_def)

theorem newCollector_partial_registration_witness:
  "about_me (replace_char (CHR ''-'') (CHR ''_'') ''a'') ''a'' (snd (newCollector ''a-database'' [])) =
     Inr (3, snd (newCollector ''a-database'' []) @
             [\<lparr>fam_name = ''a_duration_seconds'', fam_doc = ''a latency request distribution'',
               fam_labelnames = [''path'', ''method'', ''status_code''], fam_kind = KSummary, fam_children = []\<rparr>]) \<and>
   about_db (replace_char (CHR ''-'') (CHR ''_'') ''a'')
     (snd (newCollector ''a-database'' []) @
             [\<lparr>fam_name = ''a_duration_seconds'', fam_doc = ''a latency request distribution'',
               fam_labelnames = [''path'', ''method'', ''status_code''], fam_kind = KSummary, fam_children = []\<rparr>]) =
     Inl (ValueError ''Duplicated timeseries in CollectorRegistry'') \<and>
   newCollector ''a'' (snd (newCollector ''a-database'' [])) =
     (Inl (ValueError ''Duplicated timeseries in CollectorRegistry''),
      snd (newCollector ''a-database'' []) @
             [\<lparr>fam_name = ''a_duration_seconds'', fam_doc = ''a latency request distribution'',
               fam_labelnames = [''path'', ''method'', ''status_code''], fam_kind = KSummary, fam_children = []\<rparr>]) \<and>
   length (snd (newCollector ''a-database'' []) @
             [\<lparr>fam_name = ''a_duration_seconds'', fam_doc = ''a latency request distribution'',
               fam_labelnames = [''path'', ''method'', ''status_code''], fam_kind = KSummary, fam_children = []\<rparr>]) =
     Suc (length (snd (newCollector ''a-database'' []))) \<and>
   newCollector ''a''
     (snd (newCollector ''a-database'' []) @
             [\<lparr>fam_name = ''a_duration_seconds'', fam_doc = ''a latency request distribution'',
               fam_labelnames = [''path'', ''method'', ''status_code''], fam_kind = KSummary, fam_children = []\<rparr>]) =
     (Inl (ValueError ''Duplicated timeseries in CollectorRegistry''),
      snd (newCollector ''a-database'' []) @
             [\<lparr>fam_name = ''a_duration_seconds'', fam_doc = ''a latency request distribution'',
               fam_labelnames = [''path'', ''method'', ''status_code''], fam_kind = KSummary, fam_children = []\<rparr>])"
proof -
  have me: "about_me (replace_char (CHR ''-'') (CHR ''_'') ''a'') ''a'' (snd (newCollector ''a-database'' [])) =
     Inr (3, snd (newCollector ''a-database'' []) @
             [\<lparr>fam_name = ''a_duration_seconds'', fam_doc = ''a latency request distribution'',
               fam_labelnames = [''path'', ''method'', ''status_code''], fam_kind = KSummary, fam_children = []\<rparr>])"
    by (simp add: newCollector_unfold replace_char_def metric_name_ok_def)
  moreover have db: "about_db (replace_char (CHR ''-'') (CHR ''_'') ''a'')
     (snd (newCollector ''a-database'' []) @
             [\<lparr>fam_name = ''a_duration_seconds'', fam_doc = ''a latency request distribution'',
               fam_labelnames = [''path'', ''method'', ''status_code''], fam_kind = KSummary, fam_children = []\<rparr>]) =
     Inl (ValueError ''Duplicated timeseries in CollectorRegistry'')"
    by (simp add: newCollector_unfold replace_char_def metric_name_ok_def)
  ultimately show ?thesis
    using newCollector_partial_registration [OF me db] by simp
qed

end
