(* ===== verification/ComplexErrors.thy ===== *)
theory ComplexErrors
  imports App
begin

text \<open>
  Exceptions of \<open>/complex\<close> that no \<open>except\<close> clause catches. \<open>work_with_db\<close>
  passes \<open>db_sleep\<close> to \<open>time.sleep\<close> through \<open>mocked_call\<close>, inside a \<open>try\<close>
  that catches only \<open>RuntimeError\<close>; \<open>complex_operation\<close> also catches only
  \<open>RuntimeError\<close>. A \<open>db_sleep\<close> beyond the range of \<open>time.sleep\<close> (more than
  \<open>2^63\<close> nanoseconds, e.g. \<open>1e10\<close> or \<open>inf\<close>) makes it raise
  \<open>OverflowError\<close>, which escapes the view: Flask answers 500, and the database
  histogram records nothing although the request reached the simulated call.
\<close>

lemma work_with_db_overflow:
  assumes big: "arg_float args ''db_sleep'' = Inr PInf \<or>
                (\<exists>d. arg_float args ''db_sleep'' = Inr (Fin d) \<and> 10 ^ 10 \<le> d)"
    and b: "arg_literal args ''is_db_error'' = Inr v"
  shows "\<exists>st'. work_with_db c args st =
           (Inl (OverflowError ''timestamp too large to convert to C _PyTime_t''), st') \<and>
           st_registry st' = st_registry st"
  using big
proof
  assume "arg_float args ''db_sleep'' = Inr PInf"
  then show ?thesis
    using b by (simp add: work_with_db_def call_db_def mocked_call_def split_def Let_def)
next
  assume "\<exists>d. arg_float args ''db_sleep'' = Inr (Fin d) \<and> 10 ^ 10 \<le> d"
  then obtain d where a: "arg_float args ''db_sleep'' = Inr (Fin d)" and d: "10 ^ 10 \<le> d"
    by blast
  have "0 < d" and "pytime_overflow d"
    using d by (simp_all add: pytime_overflow_def)
  then show ?thesis
    using a b by (simp add: work_with_db_def call_db_def mocked_call_overflow split_def Let_def)
qed

lemma complex_escapes:
  assumes "\<exists>e' st'. work_with_db c args st = (Inl e', st') \<and> st_registry st' = st_registry st \<and>
           (\<forall>m. e' \<noteq> RuntimeError m)"
  shows "\<exists>e' st'. complex_operation c args st = (Inl e', st') \<and> st_registry st' = st_registry st"
  using assms by (auto simp: complex_operation_def catch_runtime_error_def split: py_exc.splits)

text \<open>
  C26: \<open>GET /complex\<close> whose \<open>db_sleep\<close> is beyond the range of \<open>time.sleep\<close>
  (\<open>inf\<close>, or a finite value of at least \<open>10^10\<close> seconds) with a valid error flag
  answers 500: the \<open>OverflowError\<close> escapes both \<open>except RuntimeError\<close> clauses.
  The request's only observation is its self latency under status 500; no database
  or audit latency is recorded.
\<close>

theorem complex_uncaught_500:
  assumes wf: "collector_wf (app_collector a) (st_registry st)"
    and p: "req_path r = ''/complex''" and m: "req_method r = ''GET''"
    and big: "arg_float (req_args r) ''db_sleep'' = Inr PInf \<or>
              (\<exists>d. arg_float (req_args r) ''db_sleep'' = Inr (Fin d) \<and> 10 ^ 10 \<le> d)"
    and b: "arg_literal (req_args r) ''is_db_error'' = Inr v"
  shows "fst (handle_request a r st) = error_response 500 \<and>
    (\<exists>l. apply_obs_list (app_collector a) [ObsMyself ''/complex'' ''GET'' 500 l] (st_registry st) =
           Inr (st_registry (snd (handle_request a r st))))"
proof -
  have rt: "match_route (req_path r) = Some RComplex"
    using p by (simp add: match_route_def add_routes_rule_def)
  obtain st1 where w: "work_with_db (app_collector a) (req_args r) (snd (before st)) =
      (Inl (OverflowError ''timestamp too large to convert to C _PyTime_t''), st1)"
    and r1: "st_registry st1 = st_registry (snd (before st))"
    using work_with_db_overflow [OF big b] by blast
  have "\<exists>e' st'. work_with_db (app_collector a) (req_args r) (snd (before st)) = (Inl e', st') \<and>
           st_registry st' = st_registry (snd (before st)) \<and> (\<forall>m. e' \<noteq> RuntimeError m)"
    using w r1 by blast
  then obtain e' st' where c: "complex_operation (app_collector a) (req_args r) (snd (before st)) = (Inl e', st')"
    and reg: "st_registry st' = st_registry (snd (before st))"
    using complex_escapes by blast
  have d: "dispatch_request a r (snd (before st)) = (Inl e', st')"
    using rt m c by (simp add: dispatch_request_def)
  have resp: "fst (handle_request a r st) = error_response 500"
    by (rule handle_request_view_error) (simp add: d)
  have np: "req_path r \<noteq> ''/metrics''"
    using p by simp
  show ?thesis
    using handle_request_observed [OF wf np] resp p m d reg by (simp add: before_eq error_response_def)
qed

theorem complex_uncaught_500_witness:
  "arg_float [(''db_sleep'', ''1e10'')] ''db_sleep'' = Inr (Fin (10 ^ 10)) \<and>
   arg_literal [(''db_sleep'', ''1e10'')] ''is_db_error'' = Inr (PyBool False) \<and>
   fst (handle_request \<lparr>app_collector = \<lparr>mc_me = 0, mc_db = 1, mc_external = 2\<rparr>, app_mode = SingleProcess\<rparr>
      \<lparr>req_path = ''/complex'', req_method = ''GET'', req_args = [(''db_sleep'', ''1e10'')]\<rparr>
      \<lparr>st_registry = snd (newCollector ''order-mgmt'' []), st_clock = \<lparr>now = 0, adjust = []\<rparr>\<rparr>) =
     error_response 500"
proof -
  have a1: "arg_float [(''db_sleep'', ''1e10'')] ''db_sleep'' = Inr (Fin (10 ^ 10))"
    by (simp add: arg_float_def float_literal_defs parse_exponent_def scale10_def)
  have b1: "arg_literal [(''db_sleep'', ''1e10'')] ''is_db_error'' = Inr (PyBool False)"
    by (simp add: query_defaults)
  from complex_uncaught_500 [OF app0_wf [of SingleProcess "\<lparr>now = 0, adjust = []\<rparr>"],
      where r = "\<lparr>req_path = ''/complex'', req_method = ''GET'', req_args = [(''db_sleep'', ''1e10'')]\<rparr>"]
    a1 b1 show ?thesis by simp
qed

end
