(* ===== verification/Spec2Isabelle.thy ===== *)
theory Spec2Isabelle
  imports Counters Entry Visibility Registration ComplexErrors
begin

text \<open>
  \<^bold>\<open>Verification of the RED-metrics demonstration service\<close> (src/src/main.py).

  \<^bold>\<open>The program.\<close> A Flask application that records Rate, Errors and Duration
  metrics with prometheus_client. \<open>MetricCollector.newCollector\<close> creates three
  metric families in the process's default registry: a Summary of the service's own
  request latencies labelled (path, method, status_code), a Histogram of database
  latencies labelled (status_code, sql_state) with buckets .1 .25 .5 .75 .90 1.0 2.5,
  and a Summary of audit-service latencies labelled (status_code). \<open>add_routes\<close>
  serves \<open>/hello\<close>, \<open>/world\<close> and \<open>/complex\<close>; the last calls the simulated
  database (\<open>work_with_db\<close>) and then the simulated audit service
  (\<open>work_with_third_party\<close>), each of which sleeps, may raise \<open>RuntimeError\<close>, and
  records its latency with an outcome label. \<open>instrument_requests\<close> installs a
  before hook that reads \<open>time.time()\<close> and an after hook that records every
  request's latency except for the path \<open>/metrics\<close>, which
  \<open>add_metrics_route\<close> serves through a \<open>MultiProcessCollector\<close>.

  \<^bold>\<open>Theories, in import order.\<close>
  \<^item> \<open>Prelude\<close>: the Python exception type \<open>py_exc\<close> (errors are \<open>Inl\<close> of a sum),
    the collections \<open>obs_simps\<close> and \<open>wf_simps\<close>, and generic facts on folds of
    commuting functions, association lists and lists.
  \<^item> \<open>Clock\<close>: \<open>time.time()\<close> and \<open>time.sleep()\<close> on a \<open>wall_clock\<close> record, the
    current reading and the adjustments the environment makes before each further
    reading; a negative adjustment is a step back of the system clock, and a clock
    with none is \<open>monotonic\<close>. No fuel or bound is needed anywhere: the program has
    no loop, every definition is total, and the two recursions that are not
    structural, \<open>decimal_digits\<close> (\<open>str\<close> of a status code) and the label reader
    \<open>read_labels\<close>, terminate by a measure.
  \<^item> \<open>PyArgs\<close>: the CPython built-ins applied to query arguments, over the code
    points below 256 (a \<open>char\<close> is one code point): \<open>float(str)\<close> over the full
    decimal grammar with Python's white space, \<open>py_double\<close> for the doubles a decimal
    overflows or underflows to, \<open>ast.literal_eval\<close> on the literals a flag is
    written with (names raise \<open>ValueError\<close>, keywords \<open>SyntaxError\<close>), truth
    values.
  \<^item> \<open>Prometheus\<close>: the library as the program uses it. A family (\<open>family\<close>) holds
    its name, documentation, label names, kind and an association list from label
    values to children; a Summary child keeps count and sum, a Histogram child the
    per-bucket counts of the first bucket each value fits (as the library's
    \<open>observe\<close> does) and the sum. \<open>labels\<close> checks the label names,
    \<open>observe_labelled\<close> creates the child on first use, \<open>register\<close> refuses a
    duplicated series, \<open>metric_init\<close> validates names, \<open>render\<close> lists the samples
    (cumulated buckets, \<open>_count\<close>, \<open>_sum\<close>). \<open>child_stats_fold_new\<close>: the
    exposed values after any sequence of observations are those of the abstract
    contract \<open>spec_stats\<close>, which the collector's theorem \<open>no_lost_updates\<close> uses.
  \<^item> \<open>Collector\<close>: \<open>MetricCollector\<close> as the registry positions of its three
    families (\<open>metric_collector\<close>), the constructor calls \<open>about_me\<close>,
    \<open>about_db\<close> and \<open>about_her\<close>, \<open>newCollector\<close>, \<open>get_collector\<close> and the
    three observe methods, each a state transformer of the registry. Observations
    are also a datatype \<open>obs_event\<close> with a step function \<open>obs_step\<close>, so that a
    request's effect is a list of events. The invariant \<open>collector_wf\<close> (the three
    positions designate registered families with the program's names, label names
    and kinds) is preserved by every observation; under it no update is lost: the
    child of a new label tuple exposes the contract of exactly the durations aimed at
    it, in any interleaving. \<open>newCollector\<close> succeeds once on a fresh registry and
    raises a duplicated time series the second time.
  \<^item> \<open>Multiprocess\<close>: \<open>MultiProcessCollector\<close>'s merge of the workers' metrics
    (\<open>child_add\<close>, \<open>merge_children\<close>, \<open>merge_family\<close>, \<open>multiprocess_collect\<close>,
    \<open>multiprocess_render\<close>, which leaves out metrics without samples). Merging the
    registries of workers that each made a run of observations from the fresh
    registry gives the lookup view of one process that made all of them
    (\<open>merge_workers_view\<close>); the merge keeps the collector invariant
    (\<open>collector_wf_multiprocess_collect\<close>) and every label tuple of every worker.
  \<^item> \<open>Backend\<close>: \<open>mocked_call\<close>, \<open>call_db\<close>, \<open>call_external\<close> on the clock, and
    CPython's \<open>time.sleep\<close> (\<open>py_time_sleep\<close>), which raises \<open>OverflowError\<close> for
    a duration beyond \<open>2^63\<close> nanoseconds (about \<open>9.22 * 10^9\<close> seconds). The
    theorems that let a call succeed assume a sleep of at most \<open>9 * 10^9\<close> seconds,
    the one about the overflow a sleep of at least \<open>10^10\<close> seconds or \<open>inf\<close>:
    both are clear of the limit by more than the rounding the model leaves out.
  \<^item> \<open>Handlers\<close>: the process state \<open>app_state\<close> (the default registry and the
    clock), responses, and the handlers \<open>hello_route\<close>, \<open>world_route\<close>,
    \<open>work_with_db\<close>, \<open>work_with_third_party\<close>, \<open>complex_operation\<close>, with every
    branch of the source: argument parsing outside the \<open>try\<close>, observation and
    re-raise on \<open>RuntimeError\<close>, other exceptions escaping. Its theorems give the
    three outcomes of \<open>/complex\<close> exactly (response and list of observations), a
    lower bound on the recorded database latency under a monotonic clock, and the
    recorded latency as the sleep plus the step of the clock, negative when the
    system clock is stepped back by more than the sleep.
  \<^item> \<open>App\<close>: the URL rules, the metrics view (\<open>metrics_rotue\<close>,
    \<open>get_latest_when_running_with_gunicorn\<close>, under a \<open>deploy_mode\<close> saying
    whether \<open>PROMETHEUS_MULTIPROC_DIR\<close> is configured), the hooks \<open>before\<close> and
    \<open>after\<close> that \<open>instrument_requests\<close> registers (a \<open>hooks\<close> record the pipeline
    runs), \<open>get_app\<close>, and Flask's pipeline around them (\<open>dispatch_request\<close>:
    404, 405, automatic \<open>OPTIONS\<close>; \<open>handle_request\<close>: before hook, view, 500 for
    an escaping exception, after hook on every response; \<open>serve\<close>: requests in
    sequence). The inductive \<open>reachable\<close> gives the states of the running service;
    the collector invariant holds in all of them (rule induction). Further
    theorems: every request but \<open>/metrics\<close> is observed exactly once under its
    final status, \<open>/metrics\<close> is never observed, \<open>/metrics/\<close> is, the metrics
    endpoint answers 500 without the multi-process directory and the exposition
    with it, a flag written as a Python name gives a 500 with no database
    observation.
  \<^item> \<open>Requests\<close>: a request as a run of observation events. \<open>obs_reach\<close> relates two
    registries when the second follows from the first by observations of a given
    kind, and \<open>clock_advances\<close> says a clock only moves forward when the wall clock
    does. Every handler, \<open>dispatch_request\<close> and \<open>handle_request\<close> are shown to act
    in this way, each on the families its code names. The theorems: only
    \<open>/complex\<close> writes the dependency channels; on a monotonic clock every request's
    self latency is non-negative and, for \<open>/complex\<close>, at least the database sleep; every distinct path and method requested gets
    its own series, so the cardinality of the self channel is unbounded.
  \<^item> \<open>Workers\<close>: the service under a pre-fork multi-process server. The state is
    the list of the workers' process states; \<open>gunicorn_step\<close> hands a request to
    one worker, whose metrics view reads the others' metrics (\<open>peers\<close>); the
    inductive \<open>gunicorn_reachable\<close> starts from \<open>get_app()\<close> in every worker and
    lets the server start new workers on fresh registries (a restart: the exited
    worker keeps its place, as its metric files stay and are merged). By
    rule induction each worker's metrics are the fresh registry plus a run of
    observations, and a scrape of any worker reports the metrics of one process that
    made all the workers' observations.
  \<^item> \<open>Exposition\<close> (library support, no claims of its own): the label part of the
    sample lines \<open>generate_latest\<close>
    writes for \<open>metrics_rotue\<close>: \<open>escape_label_value\<close> (the three \<open>replace\<close>
    calls of the library, shown equal to the per-character \<open>escape_char\<close>),
    \<open>label_text\<close>, \<open>format_labels\<close> (sorted pairs joined by commas), and a
    reader of the format's label grammar, \<open>read_labels\<close>, a recursive function
    whose termination is proved by the length of the text it consumes. Every
    sample of the program's three families is typed by its family (label names,
    sample name), and its labels read back as exactly the sorted labels whatever the
    values, the request path included, with no newline in the text.
    \<open>sample_line\<close> and \<open>exposition_text\<close> print the samples; the printing of a
    float (\<open>floatToGoString\<close>) is their parameter \<open>fmt\<close>, of which the theorems
    assume only that it writes no newline.
  \<^item> \<open>Scrape\<close>: facts on the scrape of a worker that \<open>Counters\<close> and
    \<open>Visibility\<close> use: where a merged sample comes from, the keys of the merged
    self-latency family, and the one-line-per-sample shape of the text.
  \<^item> \<open>Counters\<close>: runs of the deployment (\<open>gunicorn_move\<close>, a worker answering a
    request, a worker's clock changing or a new worker starting, and its reflexive
    transitive closure).
    Every worker's children only gain observations along a run; the merged child of a
    tuple is present exactly when some worker has one and its count (\<open>child_count\<close>,
    the value of the \<open>_count\<close> sample) is the sum of the workers' counts, whichever
    worker answers. Hence every \<open>_count\<close> sample of a scrape reappears in every
    later scrape of any worker with no smaller value: the counts are Prometheus
    counters without resets. The \<open>_sum\<close> is not: a run in which the wall clock
    steps back during a request makes a later scrape report a smaller \<open>_sum\<close>.
  \<^item> \<open>Visibility\<close>: a request a worker has answered (other than \<open>/metrics\<close>)
    leaves a self-latency child with a count of at least one in that worker's
    registry (\<open>handle_request_self_count\<close>); with the growth of counts along runs
    and the merged count being the sum over the workers, every later scrape of any
    worker, after any run (requests, clock changes, new workers), reports the request
    with a count of at least one.
  \<^item> \<open>Registration\<close>: what a failed \<open>newCollector\<close> leaves behind. The
    constructors \<open>about_me\<close>, \<open>about_db\<close>, \<open>about_her\<close> register their families
    one after the other and nothing is undone when a later one raises: when the
    database histogram's name is taken, the call raises with the self-latency Summary
    left registered, and every retry fails with a duplicated time series.
  \<^item> \<open>ComplexErrors\<close>: the exception of \<open>/complex\<close> that no \<open>except\<close>
    catches: a \<open>db_sleep\<close> beyond the range of \<open>time.sleep\<close> (\<open>1e10\<close>, \<open>inf\<close>)
    reaches the simulated call, where \<open>time.sleep\<close> raises \<open>OverflowError\<close>; it
    escapes \<open>except RuntimeError\<close> in \<open>work_with_db\<close> and in
    \<open>complex_operation\<close>, the answer is 500 and the only observation is the self
    latency, with none on the database channel.
  \<^item> \<open>Entry\<close>: the script entry point, \<open>main_py\<close>: \<open>get_app()\<close> in a fresh process
    without a multi-process directory, then the development server answering a list
    of requests in turn (\<open>main_py_metrics_500\<close>: every \<open>GET\<close> of the metrics
    endpoint in such a run is answered 500).

  \<^bold>\<open>Not modelled.\<close> Of the text format of the exposition, the
  printing of numbers (a parameter of the text); \<open>_created\<close> samples, which
  the multi-process collector does not report; Summary quantiles (the library
  computes none); the files through which
  workers share their values (a worker's metrics are read as its registry) and
  gauges, which the program has none of; rounding of floats to 53 bits (a value
  is the exact decimal unless it overflows or underflows, so comparisons exactly at
  a rounding boundary, such as the \<open>time.sleep\<close> limit, may differ; the theorems keep
  clear of them); characters beyond U+00FF in query arguments; the parts of
  \<open>ast.literal_eval\<close> no flag uses (containers, parenthesised, hexadecimal, octal,
  binary and imaginary literals, escapes), which the model refuses where Python
  accepts them, so no theorem assumes such a refusal; HEAD body stripping and
  the other Flask error handlers; the socket of \<open>app.run\<close> (host and port). Threads are not
  modelled as such: the library's lock makes each observation atomic, so
  concurrency is modelled as the interleaving of observation events.
\<close>

end
